(* ===== verification/Prelude.thy ===== *)
theory Prelude
  imports Complex_Main "HOL-Library.Word" "HOL-Library.List_Lexorder" "HOL-Library.Char_ord"
    "HOL-Library.Multiset"
begin

text \<open>
  Shared vocabulary of the development: Go's 64-bit signed arithmetic written out on
  \<open>int\<close>, results as sums, transactions as state transformers, and the generic list lemmas
  the components use.

  An \<open>int64\<close> of the source is an \<open>int\<close> together with the predicate \<open>int64\<close>; every
  arithmetic step that the source performs in \<open>int64\<close> is wrapped in \<open>i64\<close>, which is two's
  complement wrap-around (lemma \<open>i64_word\<close> ties it to 64-bit words).
\<close>

named_theorems result_simps \<open>case analysis of results and lookups\<close>

section \<open>64-bit signed integers\<close>

definition i64 :: "int \<Rightarrow> int" where
  "i64 x = signed_take_bit 63 x"

definition int64 :: "int \<Rightarrow> bool" where
  "int64 x \<longleftrightarrow> - 9223372036854775808 \<le> x \<and> x < 9223372036854775808"

lemma i64_word: "i64 x = sint (word_of_int x :: 64 word)"
  by (simp add: i64_def sint_uint uint_word_of_int signed_take_bit_eq_iff_take_bit_eq take_bit_eq_mod)

lemma i64_mod: "i64 x = (x + 9223372036854775808) mod 18446744073709551616 - 9223372036854775808"
  unfolding i64_def signed_take_bit_eq_take_bit_shift
  by (simp add: take_bit_eq_mod)

lemma int64_i64 [simp]: "int64 (i64 x)"
  by (simp add: int64_def i64_mod)

lemma i64_id [simp]: "int64 x \<Longrightarrow> i64 x = x"
  by (simp add: int64_def i64_mod)

lemma i64_eq_iff: "i64 x = x \<longleftrightarrow> int64 x"
  by (metis i64_id int64_i64)

lemma i64_cong: "i64 x = i64 y \<longleftrightarrow> x mod 18446744073709551616 = y mod 18446744073709551616"
  by (simp add: i64_mod mod_eq_dvd_iff)

lemma i64_mod_eq: "i64 x mod 18446744073709551616 = x mod 18446744073709551616"
  by (simp add: i64_mod mod_simps)

lemma i64_add_left: "i64 (i64 x + y) = i64 (x + y)"
  by (simp only: i64_cong) (metis i64_mod_eq mod_add_left_eq)

lemma i64_add_right: "i64 (x + i64 y) = i64 (x + y)"
  by (simp only: i64_cong) (metis i64_mod_eq mod_add_right_eq)

lemma i64_minus: "i64 (- i64 x) = i64 (- x)"
  by (simp only: i64_cong) (metis i64_mod_eq mod_minus_eq)

lemma i64_idem [simp]: "i64 (i64 x) = i64 x"
  by simp

lemma i64_zero [simp]: "i64 0 = 0"
  by (simp add: i64_def)

lemmas int64_bounds = int64_def

text \<open>A wrapped running sum is the wrap of the true sum.\<close>

definition sum64 :: "int list \<Rightarrow> int" where
  "sum64 xs = foldl (\<lambda>acc x. i64 (acc + x)) 0 xs"

lemma sum64_acc: "foldl (\<lambda>acc x. i64 (acc + x)) (i64 a) xs = i64 (a + sum_list xs)"
  by (induction xs arbitrary: a) (simp_all add: i64_add_left add.assoc)

lemma sum64_i64: "sum64 xs = i64 (sum_list xs)"
  using sum64_acc [of 0 xs] by (simp add: sum64_def)

lemma sum64_exact: "int64 (sum_list xs) \<Longrightarrow> sum64 xs = sum_list xs"
  by (simp add: sum64_i64)

section \<open>Results\<close>

text \<open>A Go call returns a value or an error; the error is the left summand.\<close>

definition is_ok :: "'e + 'a \<Rightarrow> bool" where
  "is_ok r \<longleftrightarrow> (case r of Inl _ \<Rightarrow> False | Inr _ \<Rightarrow> True)"

lemma is_ok_simps [simp]: "is_ok (Inr x)" "\<not> is_ok (Inl e)"
  by (simp_all add: is_ok_def)

lemma is_ok_iff: "is_ok r \<longleftrightarrow> (\<exists>x. r = Inr x)"
  by (cases r) auto

text \<open>The first error of a list of results, or all the values: the shape of every
  \<open>for ... { v, err := f(x); if err != nil { return err } }\<close> loop without other state.\<close>

fun traverse :: "('a \<Rightarrow> 'e + 'b) \<Rightarrow> 'a list \<Rightarrow> 'e + 'b list" where
  "traverse f [] = Inr []"
| "traverse f (x # xs) =
     (case f x of Inl e \<Rightarrow> Inl e
      | Inr y \<Rightarrow> (case traverse f xs of Inl e \<Rightarrow> Inl e | Inr ys \<Rightarrow> Inr (y # ys)))"

lemma traverse_Inr_iff:
  "traverse f xs = Inr ys \<longleftrightarrow> list_all2 (\<lambda>x y. f x = Inr y) xs ys"
proof (induction xs arbitrary: ys)
  case Nil
  then show ?case by auto
next
  case (Cons x xs)
  show ?case
    by (cases ys) (auto split: sum.splits simp: Cons.IH [symmetric])
qed

lemma traverse_length: "traverse f xs = Inr ys \<Longrightarrow> length ys = length xs"
  by (auto simp: traverse_Inr_iff dest: list_all2_lengthD)

section \<open>Transactions\<close>

text \<open>
  \<open>kernel/tenancy.WithTenant\<close> runs a callback in one database transaction: an error of the
  callback rolls the database back. A callback is a function from the database to a result
  and a database.
\<close>

type_synonym ('s, 'e, 'a) tx = "'s \<Rightarrow> ('e + 'a) \<times> 's"

section \<open>Lists\<close>

lemma sum_list_nonneg_elem:
  fixes xs :: "int list"
  assumes "\<forall>x \<in> set xs. 0 \<le> x" "y \<in> set xs"
  shows "y \<le> sum_list xs"
  using assms by (induction xs) (auto simp: sum_list_nonneg add_increasing add_increasing2)

lemma sum_list_map_uminus [simp]: "sum_list (map uminus xs) = - sum_list (xs :: int list)"
  by (induction xs) simp_all

lemma sum_list_map_mono:
  fixes f g :: "'a \<Rightarrow> int"
  assumes "\<And>x. x \<in> set xs \<Longrightarrow> f x \<le> g x"
  shows "sum_list (map f xs) \<le> sum_list (map g xs)"
  using assms by (induction xs) (auto intro: add_mono)

lemma sum_list_update_int:
  fixes xs :: "int list"
  assumes "i < length xs"
  shows "sum_list (xs[i := y]) = sum_list xs - xs ! i + y"
  using assms by (induction xs arbitrary: i) (auto split: nat.splits)

lemma sum_list_take_less:
  fixes xs :: "int list"
  assumes "i < j" "j \<le> length xs" "\<forall>x \<in> set xs. 0 \<le> x"
  shows "sum_list (take i xs) + xs ! i \<le> sum_list (take j xs)"
  using assms
proof (induction j)
  case (Suc j)
  have j: "0 \<le> xs ! j" using Suc.prems by simp
  show ?case
  proof (cases "i = j")
    case False
    then have "sum_list (take i xs) + xs ! i \<le> sum_list (take j xs)" using Suc by simp
    with j Suc.prems(2) show ?thesis by (simp add: take_Suc_conv_app_nth)
  qed (use Suc.prems in \<open>simp add: take_Suc_conv_app_nth\<close>)
qed simp

section \<open>Databases\<close>

text \<open>The two databases of \<open>kernel/storage\<close>. SQLite is opened without \<open>PRAGMA foreign_keys\<close>, so only
  Postgres enforces references.\<close>

datatype dialect = Postgres | SQLite

lemma sum_list_count_pos:
  "0 < length (concat xss) \<longleftrightarrow> (\<exists>xs \<in> set xss. xs \<noteq> [])"
  by (induction xss) auto

section \<open>Lookup in tables\<close>

lemma find_SomeD: "List.find P xs = Some x \<Longrightarrow> x \<in> set xs \<and> P x"
  by (induction xs) (auto split: if_splits)

lemma find_NoneD: "List.find P xs = None \<Longrightarrow> x \<in> set xs \<Longrightarrow> \<not> P x"
  by (induction xs) (auto split: if_splits)

lemma find_unique:
  assumes "x \<in> set xs" "P x" "\<And>y. y \<in> set xs \<Longrightarrow> P y \<Longrightarrow> y = x"
  shows "List.find P xs = Some x"
proof (cases "List.find P xs")
  case None
  from find_NoneD [OF this assms(1)] assms(2) show ?thesis by simp
next
  case (Some y)
  from find_SomeD [OF this] assms(3) Some show ?thesis by simp
qed

lemma find_append:
  "List.find P (xs @ ys) = (case List.find P xs of None \<Rightarrow> List.find P ys | Some x \<Rightarrow> Some x)"
  by (induction xs) auto

lemma find_None_set: "List.find P xs = None \<longleftrightarrow> (\<forall>x \<in> set xs. \<not> P x)"
  by (induction xs) auto

lemma find_filter: "List.find P (filter Q xs) = List.find (\<lambda>x. Q x \<and> P x) xs"
  by (induction xs) auto

end
