(* ===== verification/GoText.thy ===== *)
theory GoText
  imports Prelude
begin

text \<open>
  The text functions of Go's standard library that the modelled code calls
  (\<open>strconv.FormatInt\<close>, \<open>strconv.Atoi\<close>, \<open>fmt\<close>'s zero-padded decimal, and the splitting and trimming
  functions of \<open>strings\<close>), on strings of bytes. Whitespace and case are the ASCII ones.
\<close>

section \<open>Decimal digits\<close>

definition digit_char :: "nat \<Rightarrow> char" where
  "digit_char d = char_of (48 + d)"

definition is_digit :: "char \<Rightarrow> bool" where
  "is_digit c \<longleftrightarrow> 48 \<le> (of_char c :: nat) \<and> (of_char c :: nat) \<le> 57"

definition digit_val :: "char \<Rightarrow> nat" where
  "digit_val c = of_char c - 48"

lemma of_char_digit_char [simp]: "d < 10 \<Longrightarrow> (of_char (digit_char d) :: nat) = 48 + d"
  by (simp add: digit_char_def)

lemma is_digit_digit_char [simp]: "d < 10 \<Longrightarrow> is_digit (digit_char d)"
  by (simp add: is_digit_def)

lemma digit_val_digit_char [simp]: "d < 10 \<Longrightarrow> digit_val (digit_char d) = d"
  by (simp add: digit_val_def)

lemma digit_val_less: "is_digit c \<Longrightarrow> digit_val c < 10"
  unfolding is_digit_def digit_val_def by linarith

lemma not_is_digit [simp]:
  "\<not> is_digit CHR ''-''" "\<not> is_digit CHR ''+''" "\<not> is_digit CHR ''.''"
  by (simp_all add: is_digit_def)

fun nat_digits :: "nat \<Rightarrow> string" where
  "nat_digits n = (if n < 10 then [digit_char n] else nat_digits (n div 10) @ [digit_char (n mod 10)])"

declare nat_digits.simps [simp del]

definition parse_digits :: "string \<Rightarrow> nat" where
  "parse_digits s = foldl (\<lambda>acc c. acc * 10 + digit_val c) 0 s"

lemma parse_digits_simps [simp]:
  "parse_digits [] = 0" "parse_digits (s @ [c]) = parse_digits s * 10 + digit_val c"
  by (simp_all add: parse_digits_def)

lemma nat_digits_nonempty [simp]: "nat_digits n \<noteq> []"
  by (subst nat_digits.simps) simp

lemma nat_digits_digits: "\<forall>c \<in> set (nat_digits n). is_digit c"
proof (induction n rule: nat_digits.induct)
  case (1 n)
  then show ?case by (subst nat_digits.simps) auto
qed

lemma parse_nat_digits [simp]: "parse_digits (nat_digits n) = n"
proof (induction n rule: nat_digits.induct)
  case (1 n)
  show ?case
  proof (cases "n < 10")
    case True
    then show ?thesis by (subst nat_digits.simps) (simp add: parse_digits_def)
  next
    case False
    with 1 show ?thesis by (subst nat_digits.simps) simp
  qed
qed

lemma parse_digits_zeros [simp]: "parse_digits (replicate k CHR ''0'' @ s) = parse_digits s"
proof -
  have "foldl (\<lambda>acc c. acc * 10 + digit_val c) 0 (replicate k CHR ''0'') = 0"
    by (induction k) (simp_all add: digit_val_def)
  then show ?thesis by (simp add: parse_digits_def)
qed

lemma parse_digits_append:
  "parse_digits (s @ t) = parse_digits s * 10 ^ length t + parse_digits t"
proof (induction t rule: rev_induct)
  case Nil
  then show ?case by simp
next
  case (snoc c t)
  then show ?case
    by (simp flip: append_assoc add: algebra_simps)
qed

lemma length_nat_digits: "n < 10 ^ k \<Longrightarrow> 0 < k \<Longrightarrow> length (nat_digits n) \<le> k"
proof (induction n arbitrary: k rule: nat_digits.induct)
  case (1 n)
  show ?case
  proof (cases "n < 10")
    case True
    with "1.prems" show ?thesis by (subst nat_digits.simps) simp
  next
    case False
    then obtain j where k: "k = Suc j"
      using "1.prems" by (cases k) auto
    with False "1.prems" have "n div 10 < 10 ^ j" and "0 < j"
      by (cases j; auto)+
    with False have "length (nat_digits (n div 10)) \<le> j" by (intro "1.IH")
    with False k show ?thesis by (subst nat_digits.simps) simp
  qed
qed

section \<open>strconv\<close>

text \<open>\<open>strconv.FormatInt(x, 10)\<close>\<close>

definition format_int :: "int \<Rightarrow> string" where
  "format_int x = (if x < 0 then CHR ''-'' # nat_digits (nat (- x)) else nat_digits (nat x))"

text \<open>\<open>fmt\<close>'s \<open>%0wd\<close>: the width counts the sign, zeros go between the sign and the digits.\<close>

definition format_pad :: "nat \<Rightarrow> int \<Rightarrow> string" where
  "format_pad w x =
     (if x < 0 then
        (let ds = nat_digits (nat (- x)) in CHR ''-'' # replicate (w - 1 - length ds) CHR ''0'' @ ds)
      else (let ds = nat_digits (nat x) in replicate (w - length ds) CHR ''0'' @ ds))"

definition parse_nat :: "string \<Rightarrow> nat option" where
  "parse_nat s = (if s \<noteq> [] \<and> list_all is_digit s then Some (parse_digits s) else None)"

text \<open>\<open>strconv.Atoi\<close>: an optional sign and decimal digits, in the range of a 64-bit \<open>int\<close>.\<close>

fun atoi :: "string \<Rightarrow> int option" where
  "atoi [] = None"
| "atoi (c # cs) =
     (let (sg, ds) = (if c = CHR ''-'' then (- 1, cs) else if c = CHR ''+'' then (1, cs) else (1, c # cs))
      in case parse_nat ds of None \<Rightarrow> None
         | Some n \<Rightarrow> (if int64 (sg * int n) then Some (sg * int n) else None))"

lemma parse_nat_nat_digits [simp]: "parse_nat (nat_digits n) = Some n"
  by (simp add: parse_nat_def list_all_iff nat_digits_digits)

lemma atoi_int64: "atoi s = Some n \<Longrightarrow> int64 n"
  by (cases s) (auto simp: Let_def split: if_splits option.splits prod.splits)

lemma atoi_format_int: "int64 x \<Longrightarrow> atoi (format_int x) = Some x"
proof (cases "x < 0")
  case True
  assume "int64 x"
  with True show ?thesis by (simp add: format_int_def)
next
  case False
  assume x: "int64 x"
  obtain c cs where ds: "nat_digits (nat x) = c # cs"
    using nat_digits_nonempty by (cases "nat_digits (nat x)") auto
  have "is_digit c" using nat_digits_digits [of "nat x"] by (simp add: ds)
  then have "c \<noteq> CHR ''-''" "c \<noteq> CHR ''+''" by auto
  moreover have "parse_nat (c # cs) = Some (nat x)" by (simp flip: ds)
  ultimately show ?thesis using False x by (simp add: format_int_def ds)
qed

lemma format_int_inject: "int64 x \<Longrightarrow> int64 y \<Longrightarrow> format_int x = format_int y \<longleftrightarrow> x = y"
  by (metis atoi_format_int option.inject)

lemma format_pad_parse: "0 \<le> x \<Longrightarrow> parse_digits (format_pad w x) = nat x"
  by (simp add: format_pad_def Let_def)

lemma format_pad_inject:
  "0 \<le> x \<Longrightarrow> 0 \<le> y \<Longrightarrow> format_pad w x = format_pad w y \<longleftrightarrow> x = y"
  by (metis format_pad_parse nat_0_le)

lemma format_pad_length: "0 \<le> x \<Longrightarrow> x < 10 ^ w \<Longrightarrow> 0 < w \<Longrightarrow> length (format_pad w x) = w"
  using length_nat_digits [of "nat x" w] by (simp add: format_pad_def Let_def nat_less_iff)

section \<open>strings\<close>

definition is_space :: "char \<Rightarrow> bool" where
  "is_space c \<longleftrightarrow> (let n = (of_char c :: nat) in n = 32 \<or> (9 \<le> n \<and> n \<le> 13))"

definition trim_space :: "string \<Rightarrow> string" where
  "trim_space s = rev (dropWhile is_space (rev (dropWhile is_space s)))"

definition upper_char :: "char \<Rightarrow> char" where
  "upper_char c = (let n = (of_char c :: nat) in if 97 \<le> n \<and> n \<le> 122 then char_of (n - 32) else c)"

definition to_upper :: "string \<Rightarrow> string" where
  "to_upper s = map upper_char s"

fun split_on :: "(char \<Rightarrow> bool) \<Rightarrow> string \<Rightarrow> string list" where
  "split_on p [] = [[]]"
| "split_on p (c # cs) =
     (if p c then [] # split_on p cs
      else (case split_on p cs of [] \<Rightarrow> [[c]] | w # ws \<Rightarrow> (c # w) # ws))"

text \<open>\<open>strings.Split\<close> with a one-character separator, and \<open>strings.Fields\<close>.\<close>

definition split_char :: "char \<Rightarrow> string \<Rightarrow> string list" where
  "split_char c s = split_on (\<lambda>x. x = c) s"

definition fields :: "string \<Rightarrow> string list" where
  "fields s = filter (\<lambda>w. w \<noteq> []) (split_on is_space s)"

text \<open>\<open>strings.Cut(s, c)\<close>: what comes before the first \<open>c\<close>.\<close>

definition cut_before :: "char \<Rightarrow> string \<Rightarrow> string" where
  "cut_before c s = takeWhile (\<lambda>x. x \<noteq> c) s"

lemma split_on_nonempty [simp]: "split_on p s \<noteq> []"
  by (induction s) (auto split: list.splits)

lemma split_on_no_sep: "\<forall>c \<in> set s. \<not> p c \<Longrightarrow> split_on p s = [s]"
  by (induction s) auto

lemma split_on_append_sep:
  "\<forall>c \<in> set s. \<not> p c \<Longrightarrow> p x \<Longrightarrow> split_on p (s @ x # t) = s # split_on p t"
  by (induction s) auto

lemma split_char_append:
  "c \<notin> set s \<Longrightarrow> split_char c (s @ c # t) = s # split_char c t"
  unfolding split_char_def by (rule split_on_append_sep) auto

lemma split_char_single: "c \<notin> set s \<Longrightarrow> split_char c s = [s]"
  unfolding split_char_def by (rule split_on_no_sep) auto

lemma trim_space_id: "s = [] \<or> (\<not> is_space (hd s) \<and> \<not> is_space (last s)) \<Longrightarrow> trim_space s = s"
  by (cases s) (auto simp: trim_space_def hd_rev hd_append dropWhile_eq_self_iff split: if_splits)

lemma digit_not_space [simp]: "is_digit c \<Longrightarrow> \<not> is_space c"
  by (simp add: is_digit_def is_space_def Let_def)

section \<open>Byte order\<close>

text \<open>Text columns are compared byte by byte (\<open><\<close> on strings of \<open>List_Lexorder\<close>); on digit strings of
  one length that is the order of the numbers.\<close>

lemma char_less_of_char: "(c < d) \<longleftrightarrow> (of_char c :: nat) < of_char d"
  by (simp add: less_char_def)

lemma lex_append:
  fixes xs ys :: string
  shows "length xs = length ys \<Longrightarrow> xs @ us < ys @ vs \<longleftrightarrow> xs < ys \<or> (xs = ys \<and> us < vs)"
proof (induction xs ys rule: list_induct2)
  case (Cons x xs y ys)
  then show ?case by (auto simp: list_less_def)
qed simp

lemma digits_less_parse:
  assumes "length xs = length ys" "list_all is_digit xs" "list_all is_digit ys"
  shows "xs < ys \<longleftrightarrow> parse_digits xs < parse_digits ys"
  using assms
proof (induction xs ys rule: list_induct2)
  case (Cons x xs y ys)
  have p: "parse_digits (c # cs) = digit_val c * 10 ^ length cs + parse_digits cs" for c cs
    using parse_digits_append [of "[c]" cs] by (simp add: parse_digits_def)
  have b: "list_all is_digit cs \<Longrightarrow> parse_digits cs < 10 ^ length cs" for cs
  proof (induction cs rule: rev_induct)
    case (snoc c cs)
    then show ?case using digit_val_less [of c] by (simp add: list_all_iff)
  qed simp
  have xy: "x < y \<longleftrightarrow> digit_val x < digit_val y" "x = y \<longleftrightarrow> digit_val x = digit_val y"
    using Cons.prems by (auto simp: char_less_of_char digit_val_def is_digit_def) (metis of_char_eq_iff le_add_diff_inverse)+
  have lex: "x # xs < y # ys \<longleftrightarrow> x < y \<or> (x = y \<and> xs < ys)" by simp
  have bx: "parse_digits xs < 10 ^ length ys" and ly: "parse_digits ys < 10 ^ length ys"
    using b [of xs] b [of ys] Cons by auto
  have step: "a * k + u < b * k + v" if "a < b" "u < k" for a b u v k :: nat
  proof -
    have "(a + 1) * k \<le> b * k" using that(1) by (intro mult_right_mono) auto
    with that(2) show ?thesis by (simp add: algebra_simps)
  qed
  show ?case
  proof (cases "digit_val x" "digit_val y" rule: linorder_cases)
    case less
    then show ?thesis unfolding lex xy p Cons.hyps using step [OF less bx] by simp
  next
    case equal
    then show ?thesis unfolding lex xy p Cons.hyps using Cons.IH Cons.prems by simp
  next
    case greater
    then show ?thesis unfolding lex xy p Cons.hyps using step [OF greater ly, of "parse_digits xs"] by simp
  qed
qed simp

lemma format_pad_list_all: "0 \<le> x \<Longrightarrow> list_all is_digit (format_pad w x)"
proof -
  have "is_digit CHR ''0''" by (simp add: is_digit_def)
  then show "0 \<le> x \<Longrightarrow> ?thesis" by (auto simp: format_pad_def Let_def list_all_iff nat_digits_digits)
qed

lemma format_pad_less:
  assumes "0 \<le> x" "x < 10 ^ w" "0 \<le> y" "y < 10 ^ w" "0 < w"
  shows "format_pad w x < format_pad w y \<longleftrightarrow> x < y"
  using digits_less_parse [of "format_pad w x" "format_pad w y"] assms
  by (auto simp add: format_pad_length format_pad_list_all format_pad_parse)

end
