(* ===== verification/Money.thy ===== *)
theory Money
  imports GoText "HOL-Library.Signed_Division"
begin

text \<open>
  \<open>kernel/money\<close>: the money value type (\<open>money.go\<close>), currency lookup (\<open>currency.go\<close>), rounding of
  exact rationals (\<open>round.go\<close>), scaling and conversion (\<open>apply.go\<close>, \<open>convert.go\<close>) and allocation
  by largest remainder (\<open>allocate.go\<close>).

  An amount is an \<open>int64\<close> of minor units, so every sum, product and negation wraps. \<open>math/big\<close>'s
  integers and rationals are \<open>int\<close> and \<open>rat\<close>. The ISO-4217 table comes from
  \<open>golang.org/x/text/currency\<close>, which is not part of the repository: it is the parameter \<open>iso4217\<close>,
  which maps an upper-case code to the canonical code and its number of decimal places.
\<close>

type_synonym iso_table = "string \<Rightarrow> (string \<times> nat) option"

record Currency =
  Code :: string
  Digits :: nat

record money =
  amount :: int
  currency :: string

datatype RoundingMode = HalfEven | HalfUp

datatype money_error =
    ErrUnknownCurrency string
  | ErrCurrencyMismatch string string
  | ErrAllocateNoRatios
  | ErrAllocateNegativeRatio
  | ErrAllocateZeroTotal
  | ErrAllocateIndexPanic
  | ErrAllocateEqualCount
  | ErrMulRatNegative
  | ErrConvertRate
  | ErrAmountOverflow
  | ErrParseDecimal string
  | ErrTooManyDecimals string

section \<open>Currency lookup and constructors\<close>

definition Lookup :: "iso_table \<Rightarrow> string \<Rightarrow> money_error + Currency" where
  "Lookup iso4217 code =
     (case iso4217 (to_upper (trim_space code)) of
        None \<Rightarrow> Inl (ErrUnknownCurrency code)
      | Some (c, scale) \<Rightarrow> Inr \<lparr>Code = c, Digits = scale\<rparr>)"

definition New :: "iso_table \<Rightarrow> int \<Rightarrow> string \<Rightarrow> money_error + money" where
  "New iso4217 a code =
     (case Lookup iso4217 code of Inl e \<Rightarrow> Inl e
      | Inr c \<Rightarrow> Inr \<lparr>amount = a, currency = Code c\<rparr>)"

definition Zero :: "iso_table \<Rightarrow> string \<Rightarrow> money_error + money" where
  "Zero iso4217 code = New iso4217 0 code"

text \<open>
  What the code relies on from the ISO table: the canonical code of a currency is itself a code
  of that currency, already in the form \<open>Lookup\<close> normalises to.
\<close>

definition iso_canonical :: "iso_table \<Rightarrow> bool" where
  "iso_canonical iso4217 \<longleftrightarrow>
     (\<forall>s c d. iso4217 s = Some (c, d) \<longrightarrow> iso4217 c = Some (c, d) \<and> to_upper (trim_space c) = c)"

lemma Lookup_canonical:
  assumes "iso_canonical iso4217" "Lookup iso4217 code = Inr c"
  shows "Lookup iso4217 (Code c) = Inr c"
  using assms by (auto simp: Lookup_def iso_canonical_def split: option.splits prod.splits)

section \<open>Arithmetic\<close>

definition IsZero :: "money \<Rightarrow> bool" where
  "IsZero m \<longleftrightarrow> amount m = 0"

definition Sign :: "money \<Rightarrow> int" where
  "Sign m = (if amount m < 0 then - 1 else if amount m > 0 then 1 else 0)"

definition Neg :: "money \<Rightarrow> money" where
  "Neg m = \<lparr>amount = i64 (- amount m), currency = currency m\<rparr>"

definition Mul :: "money \<Rightarrow> int \<Rightarrow> money" where
  "Mul m n = \<lparr>amount = i64 (amount m * n), currency = currency m\<rparr>"

definition Add :: "money \<Rightarrow> money \<Rightarrow> money_error + money" where
  "Add m b =
     (if currency m \<noteq> currency b then Inl (ErrCurrencyMismatch (currency m) (currency b))
      else Inr \<lparr>amount = i64 (amount m + amount b), currency = currency m\<rparr>)"

definition Sub :: "money \<Rightarrow> money \<Rightarrow> money_error + money" where
  "Sub m b =
     (if currency m \<noteq> currency b then Inl (ErrCurrencyMismatch (currency m) (currency b))
      else Inr \<lparr>amount = i64 (amount m - amount b), currency = currency m\<rparr>)"

definition Cmp :: "money \<Rightarrow> money \<Rightarrow> money_error + int" where
  "Cmp m b =
     (if currency m \<noteq> currency b then Inl (ErrCurrencyMismatch (currency m) (currency b))
      else if amount m < amount b then Inr (- 1)
      else if amount m > amount b then Inr 1
      else Inr 0)"

lemma Add_Inr_iff:
  "Add m b = Inr s \<longleftrightarrow>
     currency m = currency b \<and> s = \<lparr>amount = i64 (amount m + amount b), currency = currency m\<rparr>"
  by (auto simp: Add_def)

lemma Sub_Inr_iff:
  "Sub m b = Inr s \<longleftrightarrow>
     currency m = currency b \<and> s = \<lparr>amount = i64 (amount m - amount b), currency = currency m\<rparr>"
  by (auto simp: Sub_def)

lemmas money_result_iffs = Add_Inr_iff Sub_Inr_iff

lemma Add_Sub_cancel:
  "int64 (amount a) \<Longrightarrow> Sub a b = Inr d \<Longrightarrow> Add b d = Inr a"
  by (auto simp: Add_Inr_iff Sub_Inr_iff i64_add_right)

section \<open>Rounding\<close>

definition roundRat :: "rat \<Rightarrow> RoundingMode \<Rightarrow> int" where
  "roundRat r mode =
     (let (num, den) = quotient_of r;
          q = num sdiv den;
          rem = num smod den
      in if rem = 0 then q
         else
           let twiceRem = 2 * \<bar>rem\<bar>;
               roundAway =
                 (case mode of
                    HalfUp \<Rightarrow> twiceRem \<ge> den
                  | HalfEven \<Rightarrow> twiceRem > den \<or> (twiceRem = den \<and> odd q))
           in if roundAway then (if r < 0 then q - 1 else q + 1) else q)"

text \<open>
  The rounding of a quotient in terms of sign, whole part and remainder of its numerator; all
  facts about rounding are read off this form.
\<close>

lemma roundRat_form:
  assumes "quotient_of r = (num, den)"
  obtains s k e where
    "den > 0" "s = 1 \<or> s = - 1" "num = s * (den * k + e)" "0 \<le> e" "e < den" "0 \<le> k"
    "roundRat r mode =
       s * (if (case mode of HalfUp \<Rightarrow> 2 * e \<ge> den | HalfEven \<Rightarrow> 2 * e > den \<or> (2 * e = den \<and> odd k))
            then k + 1 else k)"
proof -
  have den: "den > 0" using assms by (rule quotient_of_denom_pos)
  have r: "r = of_int num / of_int den" using assms by (rule quotient_of_div)
  have neg: "r < 0 \<longleftrightarrow> num < 0" using den by (simp add: r divide_less_0_iff)
  let ?s = "if num < 0 then - 1 else 1 :: int"
  let ?k = "\<bar>num\<bar> div den" and ?e = "\<bar>num\<bar> mod den"
  have "num = ?s * \<bar>num\<bar>" by simp
  then have n: "num = ?s * (den * ?k + ?e)" by simp
  have e: "0 \<le> ?e" "?e < den" "0 \<le> ?k" using den by (auto simp: pos_imp_zdiv_nonneg_iff)
  have q: "num sdiv den = ?s * ?k"
    using den by (auto simp: signed_divide_int_def sgn_if)
  have rem: "num smod den = ?s * ?e"
    using den by (auto simp: signed_modulo_int_def sgn_if)
  have rem0: "?s * ?e = 0 \<longleftrightarrow> ?e = 0" and absrem: "\<bar>?s * ?e\<bar> = ?e" and oddq: "odd (?s * ?k) \<longleftrightarrow> odd ?k"
    using e by auto
  let ?away = "case mode of HalfUp \<Rightarrow> 2 * ?e \<ge> den | HalfEven \<Rightarrow> 2 * ?e > den \<or> (2 * ?e = den \<and> odd ?k)"
  have away0: "?e = 0 \<Longrightarrow> \<not> ?away" using den by (cases mode) auto
  have "roundRat r mode = (if ?e = 0 then ?s * ?k else if ?away then (if num < 0 then ?s * ?k - 1 else ?s * ?k + 1) else ?s * ?k)"
    unfolding roundRat_def assms Let_def prod.case q rem rem0 absrem oddq neg by (cases mode) simp_all
  then have "roundRat r mode = ?s * (if ?away then ?k + 1 else ?k)"
    using away0 by auto
  with den n e show ?thesis
    by (intro that [of ?s ?k ?e]) auto
qed

lemma roundRat_error:
  assumes "quotient_of r = (num, den)"
  shows "\<bar>roundRat r mode * den - num\<bar> * 2 \<le> den"
proof -
  obtain s k e where f: "den > 0" "s = 1 \<or> s = - 1" "num = s * (den * k + e)" "0 \<le> e" "e < den" "0 \<le> k"
    and q: "roundRat r mode =
       s * (if (case mode of HalfUp \<Rightarrow> 2 * e \<ge> den | HalfEven \<Rightarrow> 2 * e > den \<or> (2 * e = den \<and> odd k))
            then k + 1 else k)"
    using roundRat_form [OF assms] .
  show ?thesis
    unfolding q using f by (cases mode) (auto simp: algebra_simps abs_if)
qed

lemma roundRat_tie:
  assumes "quotient_of r = (num, den)" "\<bar>roundRat r mode * den - num\<bar> * 2 = den"
  shows "case mode of HalfEven \<Rightarrow> even (roundRat r mode) | HalfUp \<Rightarrow> \<bar>num\<bar> < \<bar>roundRat r mode\<bar> * den"
proof -
  obtain s k e where f: "den > 0" "s = 1 \<or> s = - 1" "num = s * (den * k + e)" "0 \<le> e" "e < den" "0 \<le> k"
    and q: "roundRat r mode =
       s * (if (case mode of HalfUp \<Rightarrow> 2 * e \<ge> den | HalfEven \<Rightarrow> 2 * e > den \<or> (2 * e = den \<and> odd k))
            then k + 1 else k)"
    using roundRat_form [OF assms(1)] .
  let ?up = "case mode of HalfUp \<Rightarrow> 2 * e \<ge> den | HalfEven \<Rightarrow> 2 * e > den \<or> (2 * e = den \<and> odd k)"
  have n: "\<bar>num\<bar> = den * k + e" using f by (auto simp: abs_mult)
  have t: "2 * e = den"
    using assms(2) f unfolding q by (cases ?up) (auto simp: algebra_simps abs_if split: if_splits)
  show ?thesis
  proof (cases mode)
    case HalfEven
    then show ?thesis using t f(2) unfolding q by auto
  next
    case HalfUp
    then have "roundRat r mode = s * (k + 1)" using t unfolding q by simp
    then have "\<bar>roundRat r mode\<bar> * den = den * k + den" using f by (auto simp: abs_mult algebra_simps)
    with n t HalfUp f show ?thesis by simp
  qed
qed

lemma abs_of_int_diff_rat:
  fixes r :: rat
  assumes "quotient_of r = (num, den)"
  shows "\<bar>of_int q - r\<bar> = of_int \<bar>q * den - num\<bar> / of_int den"
proof -
  have den: "den > 0" using assms by (rule quotient_of_denom_pos)
  have "of_int q - r = of_int (q * den - num) / of_int den"
    using quotient_of_div [OF assms] den by (simp add: field_simps)
  then show ?thesis using den by simp
qed

lemma roundRat_nearest: "\<bar>of_int (roundRat r mode) - r\<bar> \<le> 1 / 2"
proof -
  obtain num den where qo: "quotient_of r = (num, den)" by fastforce
  have den: "den > 0" using qo by (rule quotient_of_denom_pos)
  have "of_int (\<bar>roundRat r mode * den - num\<bar> * 2) \<le> (of_int den :: rat)"
    using roundRat_error [OF qo, of mode] by (simp only: of_int_le_iff)
  with den show ?thesis by (simp add: abs_of_int_diff_rat [OF qo] field_simps)
qed

lemma roundRat_tie_even:
  assumes "\<bar>of_int (roundRat r HalfEven) - r\<bar> = 1 / 2"
  shows "even (roundRat r HalfEven)"
proof -
  obtain num den where qo: "quotient_of r = (num, den)" by fastforce
  have den: "den > 0" using qo by (rule quotient_of_denom_pos)
  have "of_int (\<bar>roundRat r HalfEven * den - num\<bar> * 2) = (of_int den :: rat)"
    using assms den by (simp add: abs_of_int_diff_rat [OF qo] field_simps)
  then have "\<bar>roundRat r HalfEven * den - num\<bar> * 2 = den" by (simp only: of_int_eq_iff)
  from roundRat_tie [OF qo this] show ?thesis by simp
qed

lemma roundRat_tie_away:
  assumes "\<bar>of_int (roundRat r HalfUp) - r\<bar> = 1 / 2"
  shows "\<bar>r\<bar> < of_int \<bar>roundRat r HalfUp\<bar>"
proof -
  obtain num den where qo: "quotient_of r = (num, den)" by fastforce
  have den: "den > 0" using qo by (rule quotient_of_denom_pos)
  have "of_int (\<bar>roundRat r HalfUp * den - num\<bar> * 2) = (of_int den :: rat)"
    using assms den by (simp add: abs_of_int_diff_rat [OF qo] field_simps)
  then have "\<bar>roundRat r HalfUp * den - num\<bar> * 2 = den" by (simp only: of_int_eq_iff)
  from roundRat_tie [OF qo this] have "\<bar>num\<bar> < \<bar>roundRat r HalfUp\<bar> * den" by simp
  then have "of_int \<bar>num\<bar> < (of_int (\<bar>roundRat r HalfUp\<bar> * den) :: rat)" by (simp only: of_int_less_iff)
  moreover have "\<bar>r\<bar> * of_int den = of_int \<bar>num\<bar>"
    using den quotient_of_div [OF qo] by (simp add: abs_mult)
  ultimately have "\<bar>r\<bar> * of_int den < of_int \<bar>roundRat r HalfUp\<bar> * of_int den" by simp
  then show ?thesis using den by (simp only: mult_less_cancel_right_pos of_int_0_less_iff)
qed

text \<open>Both rounding modes are determined by nearness and the rule for ties.\<close>

definition rounds_to :: "RoundingMode \<Rightarrow> rat \<Rightarrow> int \<Rightarrow> bool" where
  "rounds_to mode r q \<longleftrightarrow>
     \<bar>of_int q - r\<bar> \<le> 1 / 2 \<and>
     (\<bar>of_int q - r\<bar> = 1 / 2 \<longrightarrow> (case mode of HalfEven \<Rightarrow> even q | HalfUp \<Rightarrow> \<bar>r\<bar> < of_int \<bar>q\<bar>))"

lemma rounds_to_roundRat: "rounds_to mode r (roundRat r mode)"
  unfolding rounds_to_def
  using roundRat_nearest [of r mode] roundRat_tie_even [of r] roundRat_tie_away [of r]
  by (cases mode) auto

lemma rounds_to_unique_less:
  assumes p: "rounds_to mode r p" and q: "rounds_to mode r q" and less: "p < q"
  shows False
proof -
  from less have "of_int p + 1 \<le> (of_int q :: rat)" by linarith
  moreover have "\<bar>of_int p - r\<bar> \<le> 1 / 2" "\<bar>of_int q - r\<bar> \<le> 1 / 2"
    using p q by (auto simp: rounds_to_def)
  ultimately have r: "r = of_int p + 1 / 2" and pq: "of_int q = (of_int p + 1 :: rat)"
    by linarith+
  from pq have q': "q = p + 1" by linarith
  have tie: "case mode of HalfEven \<Rightarrow> even p \<and> even q | HalfUp \<Rightarrow> \<bar>r\<bar> < of_int \<bar>p\<bar> \<and> \<bar>r\<bar> < of_int \<bar>q\<bar>"
    using p q r pq by (auto simp: rounds_to_def split: RoundingMode.splits)
  show False
  proof (cases mode)
    case HalfEven
    with tie q' show False by simp
  next
    case HalfUp
    show False
    proof (cases "0 \<le> p")
      case True
      then have "(0 :: rat) \<le> of_int p" by simp
      with tie HalfUp r True show False by simp
    next
      case False
      then have "of_int p \<le> (- 1 :: rat)" and "\<bar>q\<bar> = - q" using q' by linarith+
      with tie HalfUp r q' show False by simp
    qed
  qed
qed

lemma roundRat_iff: "roundRat r mode = q \<longleftrightarrow> rounds_to mode r q"
  using rounds_to_roundRat [of mode r] rounds_to_unique_less [of mode r]
  by (metis linorder_neq_iff)

text \<open>C20: rounding is what its name says. \<open>roundRat r mode\<close> is \<open>q\<close> if and only if \<open>q\<close> is a nearest integer to
  \<open>r\<close> and, where two integers are equally near, the even one (half-even) or the one further from
  zero (half-up).\<close>

theorem roundRat_correct: "roundRat r mode = q \<longleftrightarrow> rounds_to mode r q"
  by (rule roundRat_iff)

lemma rounds_to_of_int: "rounds_to mode (of_int k) k"
  by (simp add: rounds_to_def)

lemma roundRat_of_int [simp]: "roundRat (of_int k) mode = k"
  by (simp add: roundRat_iff rounds_to_of_int)

lemma roundRat_mono_bound:
  assumes "0 \<le> r" "r \<le> of_int k"
  shows "0 \<le> roundRat r mode" "roundRat r mode \<le> k"
proof -
  have "rounds_to mode r (roundRat r mode)" by (rule rounds_to_roundRat)
  then have n: "\<bar>of_int (roundRat r mode) - r\<bar> \<le> 1 / 2" by (simp add: rounds_to_def)
  show "0 \<le> roundRat r mode"
  proof (rule ccontr)
    assume "\<not> 0 \<le> roundRat r mode"
    then have "of_int (roundRat r mode) \<le> (- 1 :: rat)" by linarith
    with n assms(1) show False by linarith
  qed
  show "roundRat r mode \<le> k"
  proof (rule ccontr)
    assume "\<not> roundRat r mode \<le> k"
    then have "of_int k + 1 \<le> (of_int (roundRat r mode) :: rat)" by linarith
    with n assms(2) show False by linarith
  qed
qed

lemma roundRat_minus: "roundRat (- r) mode = - roundRat r mode"
proof -
  have "rounds_to mode (- r) (- roundRat r mode)"
    using rounds_to_roundRat [of mode r] unfolding rounds_to_def
    by (auto simp: abs_minus_commute split: RoundingMode.splits)
  then show ?thesis by (simp add: roundRat_iff)
qed

section \<open>Scaling and conversion\<close>

text \<open>A \<open>*big.Rat\<close> argument may be nil, which is \<open>None\<close>.\<close>

definition MulRat :: "money \<Rightarrow> rat option \<Rightarrow> RoundingMode \<Rightarrow> money_error + money" where
  "MulRat m ratio mode =
     (case ratio of None \<Rightarrow> Inl ErrMulRatNegative
      | Some rt \<Rightarrow>
          if rt < 0 then Inl ErrMulRatNegative
          else let q = roundRat (of_int (amount m) * rt) mode
               in if \<not> int64 q then Inl ErrAmountOverflow
                  else Inr \<lparr>amount = q, currency = currency m\<rparr>)"

definition pow10Big :: "nat \<Rightarrow> int" where
  "pow10Big n = 10 ^ n"

definition Convert :: "iso_table \<Rightarrow> money \<Rightarrow> rat option \<Rightarrow> string \<Rightarrow> RoundingMode \<Rightarrow> money_error + money" where
  "Convert iso4217 m rate target mode =
     (case Lookup iso4217 (currency m) of Inl e \<Rightarrow> Inl e
      | Inr src \<Rightarrow>
     (case Lookup iso4217 target of Inl e \<Rightarrow> Inl e
      | Inr tgt \<Rightarrow>
     (case rate of None \<Rightarrow> Inl ErrConvertRate
      | Some rt \<Rightarrow>
          if rt \<le> 0 then Inl ErrConvertRate
          else let val = of_int (amount m) * rt;
                   diff = int (Digits tgt) - int (Digits src);
                   val' = (if diff > 0 then val * of_int (pow10Big (nat diff))
                           else if diff < 0 then val / of_int (pow10Big (nat (- diff)))
                           else val);
                   q = roundRat val' mode
               in if \<not> int64 q then Inl ErrAmountOverflow
                  else Inr \<lparr>amount = q, currency = Code tgt\<rparr>)))"

lemma MulRat_Inr_iff:
  "MulRat m ratio mode = Inr p \<longleftrightarrow>
     (\<exists>rt. ratio = Some rt \<and> 0 \<le> rt \<and> int64 (roundRat (of_int (amount m) * rt) mode) \<and>
           p = \<lparr>amount = roundRat (of_int (amount m) * rt) mode, currency = currency m\<rparr>)"
  by (auto simp: MulRat_def Let_def split: option.splits)

lemma MulRat_int64: "MulRat m ratio mode = Inr p \<Longrightarrow> int64 (amount p) \<and> currency p = currency m"
  by (auto simp: MulRat_Inr_iff)

lemma MulRat_within_base:
  assumes "0 \<le> amount m" "int64 (amount m)" "0 \<le> rt" "rt \<le> 1"
  shows "\<exists>p. MulRat m (Some rt) mode = Inr p \<and> 0 \<le> amount p \<and> amount p \<le> amount m"
proof -
  have "0 \<le> of_int (amount m) * rt" "of_int (amount m) * rt \<le> of_int (amount m)"
    using assms by (auto intro: mult_left_le)
  note b = roundRat_mono_bound [OF this, of mode]
  have "int64 (roundRat (of_int (amount m) * rt) mode)"
    using b assms(2) by (auto simp: int64_def)
  with b assms(3) show ?thesis by (auto simp: MulRat_Inr_iff)
qed

text \<open>\<open>Convert\<close> scales by the rate and by the difference of the minor units.\<close>

lemma minor_unit_scale:
  fixes v :: rat and a b :: nat
  shows "(if int b - int a > 0 then v * of_int (pow10Big (nat (int b - int a)))
          else if int b - int a < 0 then v / of_int (pow10Big (nat (- (int b - int a)))) else v) =
         v * (10 ^ b / 10 ^ a)"
proof (cases a b rule: linorder_cases)
  case less
  then obtain n where "b = a + n" using less_imp_add_positive by blast
  with less show ?thesis by (simp add: pow10Big_def power_add)
next
  case greater
  then obtain n where "a = b + n" using less_imp_add_positive by blast
  with greater show ?thesis by (simp add: pow10Big_def power_add)
qed simp

lemma Convert_value:
  assumes "Lookup iso4217 (currency m) = Inr src" "Lookup iso4217 target = Inr tgt"
    and "Convert iso4217 m (Some rt) target mode = Inr p"
  shows "amount p = roundRat (of_int (amount m) * rt * (10 ^ Digits tgt / 10 ^ Digits src)) mode
         \<and> currency p = Code tgt \<and> int64 (amount p) \<and> 0 < rt"
  using assms(3) unfolding Convert_def assms(1,2) Let_def minor_unit_scale
  by (auto split: if_splits)

end
