(* ===== verification/Allocation.thy ===== *)
theory Allocation
  imports Money
begin

text \<open>
  \<open>kernel/money/allocate.go\<close>: splitting an amount by ratios with the largest-remainder method. The
  model keeps what the code does in \<open>int64\<close> (the total of the ratios, the negation of the amount,
  the distributed sum) and what it does in \<open>math/big\<close> (the product and the truncated quotient); the
  index panic that an overflowing total leads to is an error value.
\<close>

section \<open>The model\<close>

fun alloc_total :: "int \<Rightarrow> int list \<Rightarrow> money_error + int" where
  "alloc_total tot [] = Inr tot"
| "alloc_total tot (r # rs) =
     (if r < 0 then Inl ErrAllocateNegativeRatio else alloc_total (i64 (tot + r)) rs)"

text \<open>\<open>parts[i].amount++\<close> for the listed indices.\<close>

definition add_units :: "nat list \<Rightarrow> int list \<Rightarrow> int list" where
  "add_units is qs = foldl (\<lambda>qs i. qs[i := i64 (qs ! i + 1)]) qs is"

definition Allocate :: "money \<Rightarrow> int list \<Rightarrow> money_error + money list" where
  "Allocate m ratios =
     (if ratios = [] then Inl ErrAllocateNoRatios
      else case alloc_total 0 ratios of
        Inl e \<Rightarrow> Inl e
      | Inr tot \<Rightarrow>
          if tot = 0 then Inl ErrAllocateZeroTotal
          else
            let neg = amount m < 0;
                absm = (if neg then i64 (- amount m) else amount m);
                quotas = map (\<lambda>r. i64 ((absm * r) sdiv tot)) ratios;
                remainders = map (\<lambda>r. (absm * r) smod tot) ratios;
                leftover = i64 (absm - sum64 quotas);
                order = sort_key (\<lambda>i. - (remainders ! i)) [0..<length ratios]
            in if leftover > int (length order) then Inl ErrAllocateIndexPanic
               else Inr (map (\<lambda>q. \<lparr>amount = (if neg then i64 (- q) else q), currency = currency m\<rparr>)
                          (add_units (take (nat leftover) order) quotas)))"

definition AllocateEqual :: "money \<Rightarrow> int \<Rightarrow> money_error + money list" where
  "AllocateEqual m n =
     (if n \<le> 0 then Inl ErrAllocateEqualCount else Allocate m (replicate (nat n) 1))"

section \<open>Adding units\<close>

lemma add_units_simps [simp]:
  "add_units [] qs = qs"
  "add_units (i # is) qs = add_units is (qs[i := i64 (qs ! i + 1)])"
  by (simp_all add: add_units_def)

lemma length_add_units [simp]: "length (add_units is qs) = length qs"
  by (induction "is" arbitrary: qs) simp_all

lemma nth_add_units:
  assumes "distinct is" "set is \<subseteq> {..<length qs}" "\<forall>i \<in> set is. int64 (qs ! i + 1)" "j < length qs"
  shows "add_units is qs ! j = qs ! j + (if j \<in> set is then 1 else 0)"
  using assms by (induction "is" arbitrary: qs) (auto simp: nth_list_update)

lemma sum_add_units:
  assumes "distinct is" "set is \<subseteq> {..<length qs}" "\<forall>i \<in> set is. int64 (qs ! i + 1)"
  shows "sum_list (add_units is qs) = sum_list qs + int (length is)"
  using assms
proof (induction "is" arbitrary: qs)
  case Nil
  then show ?case by simp
next
  case (Cons i "is")
  have "sum_list (add_units is (qs[i := qs ! i + 1])) = sum_list (qs[i := qs ! i + 1]) + int (length is)"
    using Cons.prems by (intro Cons.IH) (auto simp: nth_list_update)
  with Cons.prems show ?case by (simp add: sum_list_update_int)
qed

section \<open>The total and the quotas\<close>

lemma alloc_total_ok:
  assumes "\<forall>r \<in> set rs. 0 \<le> r" "0 \<le> t" "int64 (t + sum_list rs)"
  shows "alloc_total t rs = Inr (t + sum_list rs)"
  using assms
proof (induction rs arbitrary: t)
  case Nil
  then show ?case by simp
next
  case (Cons r rs)
  have "0 \<le> sum_list rs" using Cons.prems(1) by (simp add: sum_list_nonneg)
  with Cons.prems have "int64 (t + r)" by (auto simp: int64_def)
  moreover have "alloc_total (t + r) rs = Inr (t + r + sum_list rs)"
    using Cons.prems by (intro Cons.IH) (auto simp: add.assoc)
  ultimately show ?case using Cons.prems(1) by (simp add: add.assoc)
qed

lemma alloc_total_negative: "\<exists>r \<in> set rs. r < 0 \<Longrightarrow> alloc_total t rs = Inl ErrAllocateNegativeRatio"
  by (induction rs arbitrary: t) auto

lemma sdiv_smod_nonneg:
  fixes a b :: int
  assumes "0 \<le> a" "0 < b"
  shows "a sdiv b = a div b" "a smod b = a mod b"
  using assms by (auto simp: signed_divide_int_def signed_modulo_int_def sgn_if)

lemma quota_sum:
  fixes A T :: int
  shows "T * sum_list (map (\<lambda>r. A * r div T) rs) + sum_list (map (\<lambda>r. A * r mod T) rs) = A * sum_list rs"
proof (induction rs)
  case Nil
  then show ?case by simp
next
  case (Cons r rs)
  have "T * (A * r div T) + A * r mod T = A * r" by (rule mult_div_mod_eq)
  with Cons show ?case by (simp add: algebra_simps)
qed

text \<open>What the code relies on: non-negative ratios with a positive total that fits, and an amount
  whose negation fits.\<close>

definition allocatable :: "money \<Rightarrow> int list \<Rightarrow> bool" where
  "allocatable m ratios \<longleftrightarrow>
     (\<forall>r \<in> set ratios. 0 \<le> r) \<and> 0 < sum_list ratios \<and> int64 (sum_list ratios) \<and>
     int64 (amount m) \<and> amount m \<noteq> - 9223372036854775808"

text \<open>
  The heart of the method: for a magnitude \<open>A\<close> and a total \<open>T\<close> the floors leave a remainder
  \<open>L\<close> smaller than the number of parts, and no wrap-around happens.
\<close>

lemma leftover_bounds:
  fixes A T :: int
  assumes T: "T = sum_list rs" "0 < T" and A: "0 \<le> A" and nn: "\<forall>r \<in> set rs. 0 \<le> r"
  defines "qs \<equiv> map (\<lambda>r. A * r div T) rs"
  shows "0 \<le> A - sum_list qs" "A - sum_list qs < int (length rs)"
    "\<forall>q \<in> set qs. 0 \<le> q \<and> q \<le> A" "0 \<le> sum_list qs"
    "T * (A - sum_list qs) = sum_list (map (\<lambda>r. A * r mod T) rs)"
proof -
  let ?es = "map (\<lambda>r. A * r mod T) rs"
  have eq: "T * sum_list qs + sum_list ?es = A * T"
    unfolding qs_def T(1) by (rule quota_sum)
  then show s: "T * (A - sum_list qs) = sum_list ?es" by (simp add: algebra_simps)
  have e: "\<forall>e \<in> set ?es. 0 \<le> e \<and> e \<le> T - 1" using T by auto
  then have e0: "0 \<le> sum_list ?es" by (intro sum_list_nonneg) auto
  with s have "0 \<le> T * (A - sum_list qs)" by linarith
  with T show A0: "0 \<le> A - sum_list qs" by (simp add: zero_le_mult_iff)
  have "sum_list ?es \<le> sum_list (map (\<lambda>_. T - 1) rs)"
    using T by (intro sum_list_map_mono) (auto simp: zle_diff1_eq)
  also have "\<dots> = int (length rs) * (T - 1)" by (simp add: sum_list_triv)
  finally have "T * (A - sum_list qs) \<le> int (length rs) * (T - 1)" using s by simp
  moreover have "rs \<noteq> []" using T by auto
  ultimately have "T * (A - sum_list qs) < T * int (length rs)"
    using T by (simp add: algebra_simps) (smt (verit) length_greater_0_conv of_nat_0_less_iff)
  with T show "A - sum_list qs < int (length rs)" by (simp add: mult_less_cancel_left)
  show q: "\<forall>q \<in> set qs. 0 \<le> q \<and> q \<le> A"
  proof
    fix q assume "q \<in> set qs"
    then obtain r where r: "r \<in> set rs" "q = A * r div T" by (auto simp: qs_def)
    then have "0 \<le> r" "r \<le> T" using nn T sum_list_nonneg_elem [of rs r] by auto
    then have "A * r \<le> A * T" using A by (intro mult_left_mono)
    then have "A * r div T \<le> A * T div T" using T by (intro zdiv_mono1)
    with r \<open>0 \<le> r\<close> A T show "0 \<le> q \<and> q \<le> A" by (simp add: pos_imp_zdiv_nonneg_iff)
  qed
  then show "0 \<le> sum_list qs" by (intro sum_list_nonneg) auto
qed

text \<open>A part that is topped up by one unit had a positive remainder.\<close>

lemma topped_up_remainder_pos:
  fixes e :: "nat \<Rightarrow> int"
  assumes sorted: "sorted (map (\<lambda>i. - e i) ord)"
    and bounds: "\<forall>i \<in> set ord. 0 \<le> e i \<and> e i < T"
    and sum: "sum_list (map e ord) = T * L"
    and j: "j < length ord" "int j < L"
  shows "0 < e (ord ! j)"
proof (rule ccontr)
  assume neg: "\<not> 0 < e (ord ! j)"
  have "0 \<le> e (ord ! j)" "e (ord ! j) < T" using bounds j(1) by auto
  with neg have T: "0 < T" by linarith
  have later: "e i = 0" if i: "i \<in> set (drop j ord)" for i
  proof -
    obtain k where k: "i = ord ! (j + k)" "j + k < length ord"
      using i by (auto simp: in_set_conv_nth)
    with sorted have "- e (ord ! j) \<le> - e i"
      using j(1) by (force simp: sorted_iff_nth_mono)
    moreover have "0 \<le> e i" using bounds k by auto
    ultimately show ?thesis using neg by linarith
  qed
  have "sum_list (map e ord) = sum_list (map e (take j ord)) + sum_list (map e (drop j ord))"
    by (metis append_take_drop_id map_append sum_list_append)
  also have "map e (drop j ord) = map (\<lambda>_. 0) (drop j ord)" using later by simp
  also have "sum_list (map e (take j ord)) \<le> sum_list (map (\<lambda>_. T - 1) (take j ord))"
    using bounds by (intro sum_list_map_mono) (auto dest: in_set_takeD)
  also have "\<dots> = int j * (T - 1)" using j by (simp add: sum_list_triv min_def)
  finally have "T * L \<le> int j * (T - 1)" using sum by simp
  moreover have "int j * (T - 1) \<le> (L - 1) * (T - 1)"
    using j T by (intro mult_right_mono) auto
  ultimately have "T * L \<le> (L - 1) * (T - 1)" by linarith
  then have "T + L \<le> 1" by (simp add: algebra_simps)
  with T j(2) show False by linarith
qed

section \<open>The result of an allocation\<close>

text \<open>The largest-remainder method on a magnitude \<open>A\<close>, before the wrap-arounds are looked at.\<close>

definition floor_parts :: "int \<Rightarrow> int list \<Rightarrow> int list" where
  "floor_parts A rs = map (\<lambda>r. A * r div sum_list rs) rs"

definition remainder_order :: "int \<Rightarrow> int list \<Rightarrow> nat list" where
  "remainder_order A rs = sort_key (\<lambda>i. - (map (\<lambda>r. A * r mod sum_list rs) rs ! i)) [0..<length rs]"

definition largest_remainder :: "int \<Rightarrow> int list \<Rightarrow> int list" where
  "largest_remainder A rs =
     add_units (take (nat (A - sum_list (floor_parts A rs))) (remainder_order A rs)) (floor_parts A rs)"

lemma length_largest_remainder [simp]: "length (largest_remainder A rs) = length rs"
  by (simp add: largest_remainder_def floor_parts_def)

lemma remainder_order [simp]:
  "distinct (remainder_order A rs)" "set (remainder_order A rs) = {..<length rs}"
  "length (remainder_order A rs) = length rs"
  by (auto simp: remainder_order_def)

definition alloc_input :: "int \<Rightarrow> int list \<Rightarrow> bool" where
  "alloc_input A rs \<longleftrightarrow> 0 \<le> A \<and> int64 A \<and> (\<forall>r \<in> set rs. 0 \<le> r) \<and> 0 < sum_list rs"

lemma floors:
  assumes "alloc_input A rs"
  shows "0 \<le> A - sum_list (floor_parts A rs)" "A - sum_list (floor_parts A rs) < int (length rs)"
    "\<forall>q \<in> set (floor_parts A rs). 0 \<le> q \<and> q \<le> A" "0 \<le> sum_list (floor_parts A rs)"
    "sum_list rs * (A - sum_list (floor_parts A rs)) = sum_list (map (\<lambda>r. A * r mod sum_list rs) rs)"
proof -
  have "0 < sum_list rs" "0 \<le> A" "\<forall>r \<in> set rs. 0 \<le> r" using assms by (simp_all add: alloc_input_def)
  note lb = leftover_bounds [OF refl this]
  show "0 \<le> A - sum_list (floor_parts A rs)" "A - sum_list (floor_parts A rs) < int (length rs)"
    "\<forall>q \<in> set (floor_parts A rs). 0 \<le> q \<and> q \<le> A" "0 \<le> sum_list (floor_parts A rs)"
    "sum_list rs * (A - sum_list (floor_parts A rs)) = sum_list (map (\<lambda>r. A * r mod sum_list rs) rs)"
    unfolding floor_parts_def by (rule lb)+
qed

lemma topped_up_fits:
  assumes inp: "alloc_input A rs" and "i \<in> set (take (nat (A - sum_list (floor_parts A rs))) (remainder_order A rs))"
  shows "i < length rs" "floor_parts A rs ! i + 1 \<le> A" "int64 (floor_parts A rs ! i + 1)"
proof -
  note floors = floors [OF inp] and A = inp [unfolded alloc_input_def]
  show i: "i < length rs" using assms(2) by (auto dest: in_set_takeD)
  then have mem: "floor_parts A rs ! i \<in> set (floor_parts A rs)" by (simp add: floor_parts_def)
  have "0 < A - sum_list (floor_parts A rs)" using assms(2) by (rule contrapos_pp) simp
  moreover have "floor_parts A rs ! i \<le> sum_list (floor_parts A rs)"
    using floors(3) mem by (intro sum_list_nonneg_elem) auto
  ultimately show le: "floor_parts A rs ! i + 1 \<le> A" by simp
  have "0 \<le> floor_parts A rs ! i" using floors(3) mem by auto
  with le A show "int64 (floor_parts A rs ! i + 1)" by (auto simp: int64_def)
qed

lemma topped_up_ok:
  assumes inp: "alloc_input A rs"
  defines "is \<equiv> take (nat (A - sum_list (floor_parts A rs))) (remainder_order A rs)"
  shows "distinct is" "set is \<subseteq> {..<length (floor_parts A rs)}"
    "\<forall>i \<in> set is. int64 (floor_parts A rs ! i + 1)"
  using topped_up_fits [OF inp] by (auto simp: is_def floor_parts_def)

lemma sum_largest_remainder: "alloc_input A rs \<Longrightarrow> sum_list (largest_remainder A rs) = A"
  unfolding largest_remainder_def
  using sum_add_units [OF topped_up_ok] floors(1,2) [of A rs] by simp

lemma topped_up_pos:
  assumes inp: "alloc_input A rs" and "i \<in> set (take (nat (A - sum_list (floor_parts A rs))) (remainder_order A rs))"
  shows "0 < A * rs ! i mod sum_list rs"
proof -
  note floors = floors [OF inp] and T = inp [unfolded alloc_input_def]
  define e where "e = (\<lambda>i. map (\<lambda>r. A * r mod sum_list rs) rs ! i)"
  let ?ord = "remainder_order A rs"
  have "sorted (map (\<lambda>i. - e i) ?ord)" by (simp add: remainder_order_def e_def)
  moreover have "\<forall>i \<in> set ?ord. 0 \<le> e i \<and> e i < sum_list rs" using T by (auto simp: e_def)
  moreover have "sum_list (map e ?ord) = sum_list rs * (A - sum_list (floor_parts A rs))"
  proof -
    have "mset (map e ?ord) = mset (map e [0..<length rs])" by (simp add: remainder_order_def)
    also have "map e [0..<length rs] = map (\<lambda>r. A * r mod sum_list rs) rs"
      unfolding e_def by (metis length_map map_nth)
    finally show ?thesis using floors(5) by (metis sum_mset_sum_list)
  qed
  moreover obtain j where "j < length ?ord" "int j < A - sum_list (floor_parts A rs)" "i = ?ord ! j"
    using assms(2) by (auto simp: in_set_conv_nth)
  ultimately have "0 < e i" using topped_up_remainder_pos [of e ?ord] by blast
  moreover have "i < length rs" using assms by (rule topped_up_fits)
  ultimately show ?thesis by (simp add: e_def)
qed

lemma nth_largest_remainder:
  assumes inp: "alloc_input A rs" and i: "i < length rs"
  shows "0 \<le> largest_remainder A rs ! i \<and> largest_remainder A rs ! i \<le> A \<and>
    \<bar>largest_remainder A rs ! i * sum_list rs - A * rs ! i\<bar> < sum_list rs"
proof -
  let ?top = "take (nat (A - sum_list (floor_parts A rs))) (remainder_order A rs)"
  define q where "q = A * rs ! i div sum_list rs"
  define e where "e = A * rs ! i mod sum_list rs"
  have q: "floor_parts A rs ! i = q" using i by (simp add: floor_parts_def q_def)
  then have "q \<in> set (floor_parts A rs)" using i by (auto simp: floor_parts_def q_def)
  then have qb: "0 \<le> q" "q \<le> A" using floors(3) [OF inp] by auto
  have decomp: "A * rs ! i = q * sum_list rs + e" by (simp add: q_def e_def)
  have e: "0 \<le> e" "e < sum_list rs" using inp by (simp_all add: e_def alloc_input_def)
  have nth: "largest_remainder A rs ! i = q + (if i \<in> set ?top then 1 else 0)"
    unfolding largest_remainder_def using nth_add_units [OF topped_up_ok [OF inp], of i] i q
    by (simp add: floor_parts_def)
  show ?thesis
  proof (cases "i \<in> set ?top")
    case True
    then have "0 < e" "q + 1 \<le> A"
      using topped_up_fits(2) [OF inp True] topped_up_pos [OF inp True] q by (simp_all add: e_def)
    with True nth qb e show ?thesis unfolding decomp by (simp add: algebra_simps)
  next
    case False
    with nth qb e show ?thesis unfolding decomp by simp
  qed
qed

text \<open>On allocatable inputs nothing wraps, and the code computes the largest-remainder split.\<close>

lemma Allocate_largest_remainder:
  assumes "allocatable m ratios"
  shows "Allocate m ratios =
    Inr (map (\<lambda>q. \<lparr>amount = (if amount m < 0 then - q else q), currency = currency m\<rparr>)
      (largest_remainder \<bar>amount m\<bar> ratios))"
proof -
  define A where "A = \<bar>amount m\<bar>"
  let ?T = "sum_list ratios"
  have asm: "\<forall>r \<in> set ratios. 0 \<le> r" "0 < ?T" "int64 ?T" "int64 (amount m)" "amount m \<noteq> - 9223372036854775808"
    using assms by (auto simp: allocatable_def)
  have A: "0 \<le> A" "int64 A" using asm by (auto simp: A_def int64_def abs_if)
  have inp: "alloc_input A ratios" using A asm by (simp add: alloc_input_def)
  note fl = floors [OF inp]
  have absm: "(if amount m < 0 then i64 (- amount m) else amount m) = A"
    using asm A(2) by (auto simp: A_def)
  have tot: "alloc_total 0 ratios = Inr ?T" using alloc_total_ok [of ratios 0] asm by simp
  have nn: "0 \<le> A * r" if "r \<in> set ratios" for r using that asm(1) A by simp
  have "\<forall>q \<in> set (floor_parts A ratios). i64 q = q"
    using fl(3) A by (auto simp: i64_eq_iff int64_def)
  then have quotas: "map (\<lambda>r. i64 ((A * r) sdiv ?T)) ratios = floor_parts A ratios"
    using nn asm(2) by (auto simp: floor_parts_def sdiv_smod_nonneg)
  have remainders: "map (\<lambda>r. (A * r) smod ?T) ratios = map (\<lambda>r. A * r mod ?T) ratios"
    using nn asm(2) by (simp add: sdiv_smod_nonneg)
  have left: "i64 (A - sum64 (floor_parts A ratios)) = A - sum_list (floor_parts A ratios)"
    using fl(1,4) A by (simp add: sum64_exact int64_def)
  have "Allocate m ratios =
    Inr (map (\<lambda>q. \<lparr>amount = (if amount m < 0 then i64 (- q) else q), currency = currency m\<rparr>)
      (largest_remainder A ratios))"
    unfolding Allocate_def tot sum.case Let_def absm quotas remainders left
    using asm(2) fl(2) by (auto simp: largest_remainder_def remainder_order_def)
  moreover have "i64 (- q) = - q" if q: "q \<in> set (largest_remainder A ratios)" for q
  proof -
    obtain i where "i < length ratios" "q = largest_remainder A ratios ! i"
      using q by (auto simp: in_set_conv_nth)
    with nth_largest_remainder [OF inp] have "0 \<le> q" "q \<le> A" by auto
    with A show ?thesis by (simp add: int64_def)
  qed
  ultimately show ?thesis by (auto simp: A_def)
qed

lemma allocatable_input: "allocatable m ratios \<Longrightarrow> alloc_input \<bar>amount m\<bar> ratios"
  by (auto simp: allocatable_def alloc_input_def int64_def abs_if)

section \<open>Properties\<close>

text \<open>C18: allocation conserves money. For non-negative ratios with a positive total that fits an
  \<open>int64\<close>, and any amount but the least \<open>int64\<close>, \<open>Allocate\<close> succeeds, keeps the currency, returns
  one part per ratio, and the parts sum to the amount exactly, for either sign (INV-F4).\<close>

theorem Allocate_conserves:
  assumes "allocatable m ratios"
  shows "\<exists>parts. Allocate m ratios = Inr parts \<and> length parts = length ratios \<and>
    (\<forall>p \<in> set parts. currency p = currency m) \<and> sum_list (map amount parts) = amount m"
  unfolding Allocate_largest_remainder [OF assms]
  using sum_largest_remainder [OF allocatable_input [OF assms]]
  by (cases "amount m < 0") (simp_all add: comp_def)

theorem Allocate_conserves_witness:
  "\<exists>parts. Allocate \<lparr>amount = - 100, currency = ''USD''\<rparr> [1, 1, 1] = Inr parts \<and> length parts = Suc (Suc (Suc 0)) \<and>
    (\<forall>p \<in> set parts. currency p = ''USD'') \<and> sum_list (map amount parts) = - 100"
  using Allocate_conserves [of "\<lparr>amount = - 100, currency = ''USD''\<rparr>" "[1, 1, 1]"]
  by (simp add: allocatable_def int64_def)

text \<open>C19: allocation is fair. Every part is within one minor unit of its exact proportional share:
  part times total differs from amount times ratio by less than the total (the quota rule).\<close>

theorem Allocate_quota:
  assumes "allocatable m ratios" "Allocate m ratios = Inr parts" "i < length ratios"
  shows "\<bar>amount (parts ! i) * sum_list ratios - amount m * ratios ! i\<bar> < sum_list ratios"
proof -
  let ?l = "largest_remainder \<bar>amount m\<bar> ratios ! i"
  have "amount (parts ! i) = (if amount m < 0 then - ?l else ?l)"
    using assms(2,3) Allocate_largest_remainder [OF assms(1)] by auto
  moreover have "\<bar>?l * sum_list ratios - \<bar>amount m\<bar> * ratios ! i\<bar> < sum_list ratios"
    using nth_largest_remainder [OF allocatable_input [OF assms(1)] assms(3)] by simp
  ultimately show ?thesis
    by (cases "amount m < 0") (simp_all add: abs_minus_commute)
qed

lemma Allocate_example:
  "Allocate \<lparr>amount = 100, currency = ''EUR''\<rparr> [1, 1, 1] =
     Inr [\<lparr>amount = 34, currency = ''EUR''\<rparr>, \<lparr>amount = 33, currency = ''EUR''\<rparr>, \<lparr>amount = 33, currency = ''EUR''\<rparr>]"
  by code_simp

theorem Allocate_quota_witness:
  "\<bar>amount ([\<lparr>amount = 34, currency = ''EUR''\<rparr>, \<lparr>amount = 33, currency = ''EUR''\<rparr>, \<lparr>amount = 33, currency = ''EUR''\<rparr>] ! 0)
      * sum_list [1, 1, 1] - 100 * 1\<bar> < sum_list [1, 1, 1 :: int]"
  using Allocate_quota [OF _ Allocate_example, of 0] by (simp add: allocatable_def int64_def)

text \<open>an equal split is as equal as possible. \<open>AllocateEqual\<close> returns \<open>n\<close> parts that sum to the
  amount, any two of which differ by at most one minor unit.\<close>

theorem AllocateEqual_balanced:
  assumes n: "0 < n" "int64 n" and m: "int64 (amount m)" "amount m \<noteq> - 9223372036854775808"
  shows "\<exists>parts. AllocateEqual m n = Inr parts \<and> length parts = nat n \<and>
    sum_list (map amount parts) = amount m \<and>
    (\<forall>p \<in> set parts. \<forall>q \<in> set parts. \<bar>amount p - amount q\<bar> \<le> 1)"
proof -
  let ?rs = "replicate (nat n) (1 :: int)"
  have sum: "sum_list ?rs = n" using n by (simp add: sum_list_replicate)
  have ok: "allocatable m ?rs" using n m by (simp add: allocatable_def sum)
  obtain parts where parts: "Allocate m ?rs = Inr parts" "length parts = nat n"
    "sum_list (map amount parts) = amount m"
    using Allocate_largest_remainder [OF ok] sum_largest_remainder [OF allocatable_input [OF ok]]
    by (cases "amount m < 0") (simp_all add: comp_def)
  have quota: "\<bar>p * n - \<bar>amount m\<bar>\<bar> < n" if "p \<in> set (largest_remainder \<bar>amount m\<bar> ?rs)" for p
  proof -
    from that obtain i where "i < length (largest_remainder \<bar>amount m\<bar> ?rs)"
      "largest_remainder \<bar>amount m\<bar> ?rs ! i = p"
      unfolding in_set_conv_nth by blast
    then have i: "i < nat n" "p = largest_remainder \<bar>amount m\<bar> ?rs ! i" by simp_all
    then show ?thesis
      using nth_largest_remainder [OF allocatable_input [OF ok], of i] by (simp add: sum)
  qed
  have close: "\<bar>p - q\<bar> \<le> 1"
    if "p \<in> set (largest_remainder \<bar>amount m\<bar> ?rs)" "q \<in> set (largest_remainder \<bar>amount m\<bar> ?rs)" for p q
  proof -
    have "\<bar>(p - q) * n\<bar> < 2 * n" using quota [OF that(1)] quota [OF that(2)]
      by (simp add: algebra_simps)
    then have "\<bar>p - q\<bar> * n < 2 * n" using n by (simp add: abs_mult)
    then show ?thesis using n by (simp add: mult_less_cancel_right)
  qed
  have "\<forall>p \<in> set parts. \<forall>q \<in> set parts. \<bar>amount p - amount q\<bar> \<le> 1"
    using parts(1) close Allocate_largest_remainder [OF ok]
    by (cases "amount m < 0") (auto simp: abs_minus_commute)
  with parts n show ?thesis by (auto simp: AllocateEqual_def)
qed

theorem AllocateEqual_balanced_witness:
  "\<exists>parts. AllocateEqual \<lparr>amount = - 100, currency = ''USD''\<rparr> 7 = Inr parts \<and> length parts = nat 7 \<and>
    sum_list (map amount parts) = - 100 \<and>
    (\<forall>p \<in> set parts. \<forall>q \<in> set parts. \<bar>amount p - amount q\<bar> \<le> 1)"
  using AllocateEqual_balanced [of 7 "\<lparr>amount = - 100, currency = ''USD''\<rparr>"] by (simp add: int64_def)

text \<open>
  Outside these bounds the code does not conserve. Ratios whose \<open>int64\<close> total wraps to a negative
  number drive the leftover past the number of parts, and the distribution loop indexes out of
  range; the least \<open>int64\<close> has no negation, so its magnitude stays negative and its lost units are
  never handed out.
\<close>

lemma Allocate_overflow_panics:
  "Allocate \<lparr>amount = 100, currency = ''USD''\<rparr> [4611686018427387904, 4611686018427387904] =
     Inl ErrAllocateIndexPanic"
  by code_simp

lemma Allocate_least_not_conserved:
  "Allocate \<lparr>amount = - 9223372036854775808, currency = ''USD''\<rparr> [1, 2] =
     Inr [\<lparr>amount = 3074457345618258602, currency = ''USD''\<rparr>, \<lparr>amount = 6148914691236517205, currency = ''USD''\<rparr>]"
  by code_simp

end
