(* ===== verification/MoneyText.thy ===== *)
theory MoneyText
  imports Money
begin

text \<open>
  The text form of money (\<open>Parse\<close>, \<open>String\<close> and \<open>decimal\<close> of \<open>kernel/money/money.go\<close>). Parsing goes
  through \<open>big.Rat.SetString\<close>, whose full grammar (fractions, exponents, other bases) is a
  parameter; what the round trip relies on is only that it reads plain decimals exactly.
\<close>

section \<open>The model\<close>

definition pow10Int :: "nat \<Rightarrow> int" where
  "pow10Int n = ((\<lambda>p. i64 (p * 10)) ^^ n) 1"

definition decimal :: "money \<Rightarrow> nat \<Rightarrow> string" where
  "decimal m digits =
     (if digits = 0 then format_int (amount m)
      else let neg = amount m < 0;
               a = (if neg then i64 (- amount m) else amount m);
               div10 = pow10Int digits;
               s = format_int (a sdiv div10) @ CHR ''.'' # format_pad digits (a smod div10)
           in if neg then CHR ''-'' # s else s)"

definition MoneyString :: "iso_table \<Rightarrow> money \<Rightarrow> string" where
  "MoneyString iso4217 m =
     (case Lookup iso4217 (currency m) of
        Inl _ \<Rightarrow> format_int (amount m) @ CHR '' '' # currency m
      | Inr c \<Rightarrow> decimal m (Digits c) @ CHR '' '' # currency m)"

definition Parse :: "iso_table \<Rightarrow> (string \<Rightarrow> rat option) \<Rightarrow> string \<Rightarrow> string \<Rightarrow> money_error + money" where
  "Parse iso4217 set_string s code =
     (case Lookup iso4217 code of Inl e \<Rightarrow> Inl e
      | Inr c \<Rightarrow>
     (case set_string (trim_space s) of None \<Rightarrow> Inl (ErrParseDecimal s)
      | Some r \<Rightarrow>
          let (num, den) = quotient_of (r * of_int (pow10Big (Digits c)))
          in if den \<noteq> 1 then Inl (ErrTooManyDecimals s)
             else if \<not> int64 num then Inl ErrAmountOverflow
             else Inr \<lparr>amount = num, currency = Code c\<rparr>))"

section \<open>Plain decimals\<close>

text \<open>The text \<open>s\<close> is a plain decimal with value \<open>r\<close>.\<close>

definition plain_decimal :: "string \<Rightarrow> rat \<Rightarrow> bool" where
  "plain_decimal s r \<longleftrightarrow>
     (\<exists>neg ip fp. ip \<noteq> [] \<and> list_all is_digit ip \<and> list_all is_digit fp \<and>
        s = (if neg then [CHR ''-''] else []) @ ip @ (if fp = [] then [] else CHR ''.'' # fp) \<and>
        r = (if neg then - 1 else 1) * of_nat (parse_digits (ip @ fp)) / 10 ^ length fp)"

definition reads_decimals :: "(string \<Rightarrow> rat option) \<Rightarrow> bool" where
  "reads_decimals set_string \<longleftrightarrow> (\<forall>s r. plain_decimal s r \<longrightarrow> set_string s = Some r)"

text \<open>A reader that accepts plain decimals and nothing else.\<close>

definition read_unsigned :: "string \<Rightarrow> rat option" where
  "read_unsigned s =
     (case split_char CHR ''.'' s of
        [ip] \<Rightarrow> map_option of_nat (parse_nat ip)
      | [ip, fp] \<Rightarrow>
          (if parse_nat ip = None \<or> parse_nat fp = None then None
           else Some (of_nat (parse_digits (ip @ fp)) / 10 ^ length fp))
      | _ \<Rightarrow> None)"

definition read_decimal :: "string \<Rightarrow> rat option" where
  "read_decimal s =
     (case s of c # cs \<Rightarrow> if c = CHR ''-'' then map_option uminus (read_unsigned cs) else read_unsigned s
      | [] \<Rightarrow> None)"

lemma no_dot_digits: "list_all is_digit s \<Longrightarrow> CHR ''.'' \<notin> set s"
  by (auto simp: list_all_iff)

lemma read_unsigned_decimal:
  assumes "ip \<noteq> []" "list_all is_digit ip" "list_all is_digit fp"
  shows "read_unsigned (ip @ (if fp = [] then [] else CHR ''.'' # fp)) =
    Some (of_nat (parse_digits (ip @ fp)) / 10 ^ length fp)"
  using assms
  by (cases "fp = []")
    (auto simp: read_unsigned_def split_char_single split_char_append no_dot_digits parse_nat_def)

lemma reads_decimals_read_decimal: "reads_decimals read_decimal"
proof -
  have "read_decimal s = Some r" if d: "plain_decimal s r" for s r
  proof -
    from d obtain neg ip fp where f: "ip \<noteq> []" "list_all is_digit ip" "list_all is_digit fp"
      "s = (if neg then [CHR ''-''] else []) @ ip @ (if fp = [] then [] else CHR ''.'' # fp)"
      "r = (if neg then - 1 else 1) * of_nat (parse_digits (ip @ fp)) / 10 ^ length fp"
      by (auto simp: plain_decimal_def)
    have "hd ip \<noteq> CHR ''-''" using f(1,2) by (cases ip) auto
    with f(1) have un: "read_decimal (ip @ t) = read_unsigned (ip @ t)" for t
      by (cases ip) (auto simp: read_decimal_def)
    show ?thesis
      using read_unsigned_decimal [OF f(1-3)] un f(4,5) by (cases neg) (simp_all add: read_decimal_def)
  qed
  then show ?thesis by (simp add: reads_decimals_def)
qed

section \<open>Facts about the text form\<close>

lemma pow10Int_small: "n \<le> 18 \<Longrightarrow> pow10Int n = 10 ^ n"
proof (induction n)
  case 0
  then show ?case by (simp add: pow10Int_def)
next
  case (Suc n)
  have "(10 :: int) ^ Suc n \<le> 10 ^ 18" using Suc.prems by (intro power_increasing) auto
  moreover have "int64 y" if "0 \<le> y" "y \<le> 10 ^ 18" for y using that by (simp add: int64_def)
  moreover have "(0 :: int) \<le> 10 ^ Suc n" by simp
  ultimately have "int64 (10 ^ n * 10)" by (metis power_Suc2)
  with Suc show ?case by (simp add: pow10Int_def mult.commute)
qed

lemma format_int_nonneg: "0 \<le> x \<Longrightarrow> format_int x = nat_digits (nat x)"
  by (simp add: format_int_def)

lemma nat_digits_list_all [simp]: "list_all is_digit (nat_digits n)"
  by (simp add: list_all_iff nat_digits_digits)

lemma plain_decimal_magnitude:
  assumes a: "0 \<le> a" and d: "0 < d" "d \<le> 18"
  shows "plain_decimal ((if neg then [CHR ''-''] else []) @ format_int (a sdiv 10 ^ d) @ CHR ''.'' # format_pad d (a smod 10 ^ d))
    ((if neg then - 1 else 1) * of_int a / 10 ^ d)"
proof -
  have p: "(0 :: int) < 10 ^ d" by simp
  have dm: "a sdiv 10 ^ d = a div 10 ^ d" "a smod 10 ^ d = a mod 10 ^ d"
    using a p by (auto simp: signed_divide_int_def signed_modulo_int_def sgn_if)
  let ?ip = "format_int (a div 10 ^ d)" and ?fp = "format_pad d (a mod 10 ^ d)"
  have q: "0 \<le> a div 10 ^ d" "0 \<le> a mod 10 ^ d" "a mod 10 ^ d < 10 ^ d"
    using a p by (simp_all add: pos_imp_zdiv_nonneg_iff)
  have len: "length ?fp = d" using q d by (intro format_pad_length)
  have "int (parse_digits (?ip @ ?fp)) = (a div 10 ^ d) * 10 ^ d + a mod 10 ^ d"
    using q by (simp add: parse_digits_append len format_int_nonneg format_pad_parse)
  then have v: "int (parse_digits (?ip @ ?fp)) = a" by (simp only: div_mult_mod_eq)
  have "of_nat (parse_digits (?ip @ ?fp)) = (of_int a :: rat)"
    by (metis v of_int_of_nat_eq)
  moreover have "?fp \<noteq> []" using len d by auto
  ultimately show ?thesis
    unfolding plain_decimal_def dm using q len
    by (intro exI [of _ neg] exI [of _ ?ip] exI [of _ ?fp]) (auto simp: format_int_nonneg format_pad_list_all)
qed

lemma plain_decimal_decimal:
  assumes "int64 (amount m)" "amount m \<noteq> - 9223372036854775808" "d \<le> 18"
  shows "plain_decimal (decimal m d) (of_int (amount m) / 10 ^ d)"
proof (cases "d = 0")
  case True
  have "plain_decimal (format_int x) (of_int x)" for x
    unfolding plain_decimal_def
    by (intro exI [of _ "x < 0"] exI [of _ "nat_digits (nat \<bar>x\<bar>)"] exI [of _ "[]"])
      (auto simp: format_int_def)
  with True show ?thesis by (simp add: decimal_def)
next
  case False
  let ?neg = "amount m < 0"
  have a: "(if ?neg then i64 (- amount m) else amount m) = \<bar>amount m\<bar>"
    using assms by (auto simp: int64_def)
  have "decimal m d = (if ?neg then [CHR ''-''] else []) @
      format_int (\<bar>amount m\<bar> sdiv 10 ^ d) @ CHR ''.'' # format_pad d (\<bar>amount m\<bar> smod 10 ^ d)"
    using False assms(3) unfolding decimal_def Let_def a by (simp add: pow10Int_small)
  moreover have "of_int (amount m) / 10 ^ d = (if ?neg then - 1 else 1) * of_int \<bar>amount m\<bar> / (10 ^ d :: rat)"
    by simp
  ultimately show ?thesis using plain_decimal_magnitude [of "\<bar>amount m\<bar>" d ?neg] False assms(3) by simp
qed

lemma plain_decimal_trimmed: "plain_decimal s r \<Longrightarrow> trim_space s = s"
proof -
  assume "plain_decimal s r"
  then obtain neg ip fp where f: "ip \<noteq> []" "list_all is_digit ip" "list_all is_digit fp"
    "s = (if neg then [CHR ''-''] else []) @ ip @ (if fp = [] then [] else CHR ''.'' # fp)"
    by (auto simp: plain_decimal_def)
  have "\<not> is_space CHR ''-''" by (simp add: is_space_def)
  then have "\<not> is_space (hd s)" using f by (cases ip) auto
  moreover have "last s \<in> set ip \<union> set fp" using f by (auto simp: last_append)
  then have "is_digit (last s)" using f(2,3) by (auto simp: list_all_iff)
  ultimately show ?thesis by (intro trim_space_id) simp
qed

lemma quotient_of_of_int [simp]: "quotient_of (of_int k) = (k, 1)"
  by (simp add: quotient_of_int)

lemma quotient_of_integral: "quotient_of r = (num, 1) \<longleftrightarrow> r = of_int num"
  by (metis quotient_of_div quotient_of_of_int div_by_1 of_int_1)

section \<open>Properties\<close>

text \<open>C21: money survives its text form. For every amount but the least \<open>int64\<close>, in a currency whose
  canonical entry has at most 18 decimal places, parsing the decimal that \<open>String\<close> prints gives the
  same money back, whatever reader of plain decimals \<open>big.Rat.SetString\<close> is.\<close>

theorem Parse_decimal_roundtrip:
  assumes "reads_decimals set_string"
    and "Lookup iso4217 (currency m) = Inr c" "Code c = currency m" "Digits c \<le> 18"
    and "int64 (amount m)" "amount m \<noteq> - 9223372036854775808"
  shows "Parse iso4217 set_string (decimal m (Digits c)) (currency m) = Inr m"
proof -
  note d = plain_decimal_decimal [OF assms(5,6,4)]
  then have "set_string (trim_space (decimal m (Digits c))) = Some (of_int (amount m) / 10 ^ Digits c)"
    using assms(1) plain_decimal_trimmed [OF d] by (auto simp: reads_decimals_def)
  then show ?thesis
    using assms(2,3,5) by (simp add: Parse_def pow10Big_def)
qed

definition iso_example :: iso_table where
  "iso_example s = (if s = ''USD'' then Some (''USD'', 2) else if s = ''EUR'' then Some (''EUR'', 2)
    else if s = ''JPY'' then Some (''JPY'', 0) else None)"

lemma iso_example_canonical: "iso_canonical iso_example"
  by (auto simp: iso_canonical_def iso_example_def to_upper_def upper_char_def trim_space_def is_space_def
      split: if_splits)

lemma Lookup_example:
  "Lookup iso_example ''USD'' = Inr \<lparr>Code = ''USD'', Digits = 2\<rparr>"
  "Lookup iso_example ''EUR'' = Inr \<lparr>Code = ''EUR'', Digits = 2\<rparr>"
  "Lookup iso_example ''JPY'' = Inr \<lparr>Code = ''JPY'', Digits = 0\<rparr>"
  by (simp_all add: Lookup_def iso_example_def to_upper_def upper_char_def trim_space_def is_space_def)

theorem Parse_decimal_roundtrip_witness:
  "Parse iso_example read_decimal (decimal \<lparr>amount = - 1234, currency = ''USD''\<rparr> 2) ''USD'' =
     Inr \<lparr>amount = - 1234, currency = ''USD''\<rparr>"
  using Parse_decimal_roundtrip [OF reads_decimals_read_decimal, of iso_example
      "\<lparr>amount = - 1234, currency = ''USD''\<rparr>"] Lookup_example(1)
  by (simp add: int64_def)

text \<open>parsing is exact. Whatever \<open>Parse\<close> accepts denotes, in units of the currency's minor unit,
  exactly the rational that was read: no rounding, and the amount fits an \<open>int64\<close>.\<close>

theorem Parse_exact:
  assumes "Parse iso4217 set_string s code = Inr m"
  shows "\<exists>c r. Lookup iso4217 code = Inr c \<and> set_string (trim_space s) = Some r \<and>
    currency m = Code c \<and> of_int (amount m) = r * 10 ^ Digits c \<and> int64 (amount m)"
  using assms unfolding Parse_def
  by (auto simp: Let_def pow10Big_def quotient_of_integral split: sum.splits option.splits if_splits prod.splits)

theorem Parse_exact_witness:
  "\<exists>c r. Lookup iso_example ''USD'' = Inr c \<and> read_decimal (trim_space ''-12.34'') = Some r \<and>
    ''USD'' = Code c \<and> of_int (- 1234) = r * 10 ^ Digits c \<and> int64 (- 1234)"
proof -
  have "Parse iso_example read_decimal ''-12.34'' ''USD'' = Inr \<lparr>amount = - 1234, currency = ''USD''\<rparr>"
    by (simp add: Parse_def Lookup_def iso_example_def to_upper_def upper_char_def trim_space_def
        is_space_def read_decimal_def read_unsigned_def split_char_def parse_nat_def is_digit_def
        parse_digits_def digit_val_def pow10Big_def int64_def)
  from Parse_exact [OF this] show ?thesis by simp
qed

end
