(* ===== verification/Calendar.thy ===== *)
theory Calendar
  imports GoText
begin

text \<open>
  The proleptic Gregorian calendar of Go's \<open>time\<close> package in UTC, as the modelled code uses it: a
  date is a number of days since 0000-01-01, a \<open>time.Time\<close> is a number of nanoseconds since the
  Unix epoch. \<open>civil_of_days\<close> and \<open>days_of_civil\<close> convert between a date and year, month, day;
  \<open>format_date\<close> and \<open>parse_date\<close> are \<open>Format\<close> and \<open>Parse\<close> with the layout \<open>2006-01-02\<close>.
\<close>

section \<open>Years\<close>

definition leap :: "int \<Rightarrow> bool" where
  "leap y \<longleftrightarrow> y mod 4 = 0 \<and> (y mod 100 \<noteq> 0 \<or> y mod 400 = 0)"

definition year_start :: "int \<Rightarrow> int" where
  "year_start y = 365 * y + (y + 3) div 4 - (y + 99) div 100 + (y + 399) div 400"

definition year_of :: "int \<Rightarrow> int" where
  "year_of n =
     (let y = n * 400 div 146097
      in if n < year_start y then y - 1 else if year_start (y + 1) \<le> n then y + 1 else y)"

lemma div_step:
  fixes k :: int
  assumes "0 < k" "j = k - 1"
  shows "(y + 1 + j) div k = (y + j) div k + (if y mod k = 0 then 1 else 0)"
proof -
  define q e where "q = y div k" and "e = y mod k"
  have y: "y = q * k + e" and e: "0 \<le> e" "e < k" using assms by (simp_all add: q_def e_def)
  have d: "x div k = c" if "x = c * k + z" "0 \<le> z" "z < k" for x c z
    using that by (simp add: div_pos_pos_trivial)
  have "(y + 1 + j) div k = q + 1"
    using e assms by (intro d [where z = e]) (simp_all add: y algebra_simps)
  moreover have "(y + j) div k = q + (if e = 0 then 0 else 1)"
  proof (cases "e = 0")
    case True
    then show ?thesis using assms by (intro d [where z = "k - 1"]) (simp_all add: y)
  next
    case False
    then show ?thesis using e assms by (intro d [where z = "e - 1"]) (simp_all add: y algebra_simps)
  qed
  ultimately show ?thesis by (simp flip: e_def)
qed

lemma year_start_Suc: "year_start (y + 1) = year_start y + (if leap y then 366 else 365)"
proof -
  define a4 a100 a400 where "a4 = (y + 3) div 4" and "a100 = (y + 99) div 100" and "a400 = (y + 399) div 400"
  define p4 p100 p400 where "p4 = (y mod 4 = 0)" and "p100 = (y mod 100 = 0)" and "p400 = (y mod 400 = 0)"
  have "(y + 1 + 3) div 4 = a4 + (if p4 then 1 else 0)"
    "(y + 1 + 99) div 100 = a100 + (if p100 then 1 else 0)"
    "(y + 1 + 399) div 400 = a400 + (if p400 then 1 else 0)"
    unfolding a4_def a100_def a400_def p4_def p100_def p400_def by (rule div_step; simp)+
  then have "year_start (y + 1) = 365 * y + 365 + a4 + (if p4 then 1 else 0) - (a100 + (if p100 then 1 else 0)) + a400 +
    (if p400 then 1 else 0)"
    unfolding year_start_def by (metis (no_types, opaque_lifting) add.assoc distrib_left mult.right_neutral)
  moreover have "year_start y = 365 * y + a4 - a100 + a400"
    by (simp only: year_start_def a4_def a100_def a400_def)
  moreover have "leap y \<longleftrightarrow> p4 \<and> (\<not> p100 \<or> p400)"
    by (simp only: leap_def p4_def p100_def p400_def)
  moreover have "(4 :: int) dvd 100" "(100 :: int) dvd 400" by simp_all
  then have "p100 \<longrightarrow> p4" "p400 \<longrightarrow> p100"
    unfolding p4_def p100_def p400_def by (metis mod_0_imp_dvd dvd_imp_mod_0 dvd_trans)+
  ultimately show ?thesis by (cases p4; cases p100; cases p400) simp_all
qed

lemma year_start_less: "x < y \<Longrightarrow> year_start x + 365 \<le> year_start y"
proof -
  have "year_start x + 365 \<le> year_start (x + 1 + int k)" for k
  proof (induction k)
    case 0
    then show ?case using year_start_Suc [of x] by auto
  next
    case (Suc k)
    then show ?case using year_start_Suc [of "x + 1 + int k"] by (auto simp: algebra_simps split: if_splits)
  qed
  from this [of "nat (y - x - 1)"] show "x < y \<Longrightarrow> year_start x + 365 \<le> year_start y" by simp
qed

lemma year_bounds_unique:
  assumes "year_start x \<le> n" "n < year_start (x + 1)" "year_start y \<le> n" "n < year_start (y + 1)"
  shows "x = y"
  using assms year_start_less [of x y] year_start_less [of y x] year_start_less [of "x + 1" y]
    year_start_less [of "y + 1" x]
  by (cases "x = y"; cases "x + 1 = y"; cases "y + 1 = x") (auto simp: linorder_neq_iff)

lemma year_start_estimate: "\<bar>400 * year_start y - 146097 * y\<bar> \<le> 798"
proof -
  have b: "k * ((y + k - 1) div k) \<le> y + k - 1 \<and> y \<le> k * ((y + k - 1) div k)" if "0 < k" for k
  proof -
    define m where "m = (y + k - 1) mod k"
    have "k * ((y + k - 1) div k) + m = y + k - 1" by (simp add: m_def)
    moreover have "0 \<le> m" "m < k" using that by (simp_all add: m_def)
    ultimately show ?thesis by linarith
  qed
  show ?thesis
    using b [of 4] b [of 100] b [of 400] by (auto simp: year_start_def abs_if algebra_simps)
qed

lemma year_of_bounds: "year_start (year_of n) \<le> n" "n < year_start (year_of n + 1)"
proof -
  define y where "y = n * 400 div 146097"
  define e where "e = n * 400 mod 146097"
  have "n * 400 = 146097 * y + e" "0 \<le> e" "e < 146097" by (simp_all add: y_def e_def)
  moreover have "\<bar>400 * year_start z - 146097 * z\<bar> \<le> 798" for z by (rule year_start_estimate)
  note this [of "y - 1"] this [of "y + 2"]
  ultimately have "year_start (y - 1) \<le> n" "n < year_start (y + 2)" by (auto simp: abs_if split: if_splits)
  then show "year_start (year_of n) \<le> n" "n < year_start (year_of n + 1)"
    unfolding year_of_def y_def [symmetric] by (auto simp: Let_def add.commute)
qed

lemma year_of_eq: "year_start y \<le> n \<Longrightarrow> n < year_start (y + 1) \<Longrightarrow> year_of n = y"
  using year_bounds_unique year_of_bounds by blast

section \<open>Months\<close>

definition month_lengths :: "int \<Rightarrow> int list" where
  "month_lengths y = [31, if leap y then 29 else 28, 31, 30, 31, 30, 31, 31, 30, 31, 30, 31]"

definition month_len :: "int \<Rightarrow> int \<Rightarrow> int" where
  "month_len y m = month_lengths y ! nat (m - 1)"

fun month_day :: "int list \<Rightarrow> int \<Rightarrow> int \<Rightarrow> int \<times> int" where
  "month_day [] m d = (m, d)"
| "month_day (l # ls) m d = (if d < l then (m, d) else month_day ls (m + 1) (d - l))"

definition civil_of_days :: "int \<Rightarrow> int \<times> int \<times> int" where
  "civil_of_days n =
     (let y = year_of n; (m, d) = month_day (month_lengths y) 1 (n - year_start y) in (y, m, d + 1))"

definition days_of_civil :: "int \<Rightarrow> int \<Rightarrow> int \<Rightarrow> int" where
  "days_of_civil y m d = year_start y + sum_list (take (nat (m - 1)) (month_lengths y)) + (d - 1)"

definition valid_civil :: "int \<Rightarrow> int \<Rightarrow> int \<Rightarrow> bool" where
  "valid_civil y m d \<longleftrightarrow> 1 \<le> m \<and> m \<le> 12 \<and> 1 \<le> d \<and> d \<le> month_len y m"

lemma month_day_spec:
  assumes "0 \<le> d" "d < sum_list ls"
  shows "\<exists>i<length ls. fst (month_day ls m d) = m + int i \<and> 0 \<le> snd (month_day ls m d) \<and>
    snd (month_day ls m d) < ls ! i \<and> d = sum_list (take i ls) + snd (month_day ls m d)"
  using assms
proof (induction ls arbitrary: m d)
  case Nil
  then show ?case by simp
next
  case (Cons l ls)
  show ?case
  proof (cases "d < l")
    case True
    with Cons.prems show ?thesis by (intro exI [of _ 0]) auto
  next
    case False
    with Cons.prems have "0 \<le> d - l" "d - l < sum_list ls" by auto
    from Cons.IH [OF this, of "m + 1"] obtain i where
      "i < length ls" "fst (month_day ls (m + 1) (d - l)) = m + 1 + int i"
      "0 \<le> snd (month_day ls (m + 1) (d - l))" "snd (month_day ls (m + 1) (d - l)) < ls ! i"
      "d - l = sum_list (take i ls) + snd (month_day ls (m + 1) (d - l))"
      by blast
    with False show ?thesis by (intro exI [of _ "Suc i"]) auto
  qed
qed

lemma month_day_skip:
  assumes "i < length ls" "\<forall>l \<in> set ls. 0 \<le> l" "0 \<le> d" "d < ls ! i"
  shows "month_day ls m (sum_list (take i ls) + d) = (m + int i, d)"
  using assms
proof (induction ls arbitrary: m i)
  case (Cons l ls)
  have "0 \<le> sum_list (take (i - 1) ls)"
    using Cons.prems(2) by (intro sum_list_nonneg) (auto dest: in_set_takeD)
  with Cons show ?case by (cases i) (auto simp: add.assoc)
qed simp

lemma month_lengths_facts [simp]:
  "length (month_lengths y) = 12" "\<forall>l \<in> set (month_lengths y). 0 \<le> l"
  "sum_list (month_lengths y) = (if leap y then 366 else 365)"
  by (simp_all add: month_lengths_def)

lemma civil_of_days_spec:
  assumes "civil_of_days n = (y, m, d)"
  shows "valid_civil y m d" "days_of_civil y m d = n" "y = year_of n"
proof -
  let ?r = "month_day (month_lengths (year_of n)) 1 (n - year_start (year_of n))"
  have "0 \<le> n - year_start (year_of n)" "n - year_start (year_of n) < sum_list (month_lengths (year_of n))"
    using year_of_bounds [of n] year_start_Suc [of "year_of n"] by (auto split: if_splits)
  from month_day_spec [OF this, of 1] obtain i where i: "i < 12" "fst ?r = 1 + int i" "0 \<le> snd ?r"
    "snd ?r < month_lengths (year_of n) ! i"
    "n - year_start (year_of n) = sum_list (take i (month_lengths (year_of n))) + snd ?r"
    by auto
  moreover have "y = year_of n" "m = fst ?r" "d = snd ?r + 1"
    using assms by (auto simp: civil_of_days_def Let_def split: prod.splits)
  ultimately show "valid_civil y m d" "days_of_civil y m d = n" "y = year_of n"
    by (auto simp: valid_civil_def month_len_def days_of_civil_def)
qed

lemma civil_of_days_of_civil:
  assumes "valid_civil y m d"
  shows "civil_of_days (days_of_civil y m d) = (y, m, d)"
proof -
  define i where "i = nat (m - 1)"
  have i: "i < 12" "m = 1 + int i" "0 \<le> d - 1" "d - 1 < month_lengths y ! i"
    using assms by (auto simp: valid_civil_def month_len_def i_def)
  let ?p = "sum_list (take i (month_lengths y))"
  have nn: "0 \<le> ?p" by (intro sum_list_nonneg) (auto dest: in_set_takeD)
  have "sum_list (month_lengths y) = ?p + sum_list (drop i (month_lengths y))"
    by (metis append_take_drop_id sum_list_append)
  moreover have "drop i (month_lengths y) = month_lengths y ! i # drop (Suc i) (month_lengths y)"
    using i by (intro Cons_nth_drop_Suc [symmetric]) simp
  moreover have "0 \<le> sum_list (drop (Suc i) (month_lengths y))"
    by (intro sum_list_nonneg) (auto dest: in_set_dropD)
  ultimately have "?p + (d - 1) < sum_list (month_lengths y)" using i by simp
  then have y: "year_of (year_start y + ?p + (d - 1)) = y"
    using nn i year_start_Suc [of y] by (intro year_of_eq) (auto split: if_splits)
  have "month_day (month_lengths y) 1 (?p + (d - 1)) = (1 + int i, d - 1)"
    using i by (intro month_day_skip) auto
  moreover have "year_start y + ?p + (d - 1) - year_start y = ?p + (d - 1)" by simp
  ultimately show ?thesis
    unfolding days_of_civil_def civil_of_days_def i_def [symmetric] y Let_def using i by simp
qed

text \<open>Dates are ordered as their year, month and day are.\<close>

lemma days_of_civil_year:
  assumes "valid_civil y m d"
  shows "year_start y \<le> days_of_civil y m d" "days_of_civil y m d < year_start (y + 1)"
  using civil_of_days_of_civil [OF assms] year_of_bounds [of "days_of_civil y m d"]
    civil_of_days_spec(3) [of "days_of_civil y m d" y m d] by auto

lemma month_start_less:
  assumes "valid_civil y m d" "m < m'" "m' \<le> 12"
  shows "days_of_civil y m d < days_of_civil y m' 1"
proof -
  define i j where "i = nat (m - 1)" and "j = nat (m' - 1)"
  have ij: "i < j" "j < 12" "d - 1 < month_lengths y ! i"
    using assms by (auto simp: i_def j_def valid_civil_def month_len_def)
  have "sum_list (take i (month_lengths y)) + month_lengths y ! i \<le> sum_list (take j (month_lengths y))"
    using ij by (intro sum_list_take_less) auto
  with ij show ?thesis by (simp add: days_of_civil_def i_def [symmetric] j_def [symmetric])
qed

lemma days_of_civil_less:
  assumes "valid_civil y m d" "valid_civil y' m' d'"
    and "y < y' \<or> (y = y' \<and> (m < m' \<or> (m = m' \<and> d < d')))"
  shows "days_of_civil y m d < days_of_civil y' m' d'"
  using assms(3)
proof (elim disjE conjE)
  assume "y < y'"
  then have "year_start (y + 1) \<le> year_start y'"
    using year_start_less [of "y + 1" y'] by (cases "y + 1 = y'") auto
  with days_of_civil_year [OF assms(1)] days_of_civil_year [OF assms(2)] show ?thesis by linarith
next
  assume "y = y'" "m < m'"
  moreover have "days_of_civil y m' 1 \<le> days_of_civil y m' d'"
    using assms(2) by (auto simp: days_of_civil_def valid_civil_def)
  ultimately show ?thesis using month_start_less [OF assms(1), of m'] assms(2) by (auto simp: valid_civil_def)
qed (simp add: days_of_civil_def)

lemma civil_less_iff:
  assumes "civil_of_days n = (y, m, d)" "civil_of_days n' = (y', m', d')"
  shows "n < n' \<longleftrightarrow> y < y' \<or> (y = y' \<and> (m < m' \<or> (m = m' \<and> d < d')))"
proof -
  note s = civil_of_days_spec [OF assms(1)] and s' = civil_of_days_spec [OF assms(2)]
  have "n' < n \<or> n = n'" if "\<not> (y < y' \<or> (y = y' \<and> (m < m' \<or> (m = m' \<and> d < d'))))"
  proof (cases "(y, m, d) = (y', m', d')")
    case True
    then show ?thesis using s(2) s'(2) by simp
  next
    case False
    then show ?thesis using that days_of_civil_less [OF s'(1) s(1)] s(2) s'(2) by force
  qed
  moreover have "n < n'" if "y < y' \<or> (y = y' \<and> (m < m' \<or> (m = m' \<and> d < d')))"
    using days_of_civil_less [OF s(1) s'(1) that] s(2) s'(2) by simp
  ultimately show ?thesis by force
qed

section \<open>Text\<close>

definition format_date :: "int \<Rightarrow> string" where
  "format_date n =
     (let (y, m, d) = civil_of_days n
      in format_pad 4 y @ CHR ''-'' # format_pad 2 m @ CHR ''-'' # format_pad 2 d)"

definition parse_date :: "string \<Rightarrow> int option" where
  "parse_date s =
     (case split_char CHR ''-'' s of
        [ys, ms, ds] \<Rightarrow>
          (if length ys = 4 \<and> length ms = 2 \<and> length ds = 2 then
             (case (parse_nat ys, parse_nat ms, parse_nat ds) of
                (Some y, Some m, Some d) \<Rightarrow>
                  (if valid_civil (int y) (int m) (int d) then Some (days_of_civil (int y) (int m) (int d)) else None)
              | _ \<Rightarrow> None)
           else None)
      | _ \<Rightarrow> None)"

text \<open>The dates whose year has four digits: those of the layout.\<close>

definition four_digit_year :: "int \<Rightarrow> bool" where
  "four_digit_year n \<longleftrightarrow> 0 \<le> year_of n \<and> year_of n \<le> 9999"

lemma civil_ranges:
  assumes "civil_of_days n = (y, m, d)" "four_digit_year n"
  shows "0 \<le> y" "y < 10 ^ 4" "0 \<le> m" "m < 10 ^ 2" "0 \<le> d" "d < 10 ^ 2" "0 < (4 :: nat)" "0 < (2 :: nat)"
proof -
  note s = civil_of_days_spec [OF assms(1)]
  have len: "month_len y m \<le> 31" if "1 \<le> m" "m \<le> 12"
  proof -
    have "month_lengths y ! nat (m - 1) \<in> set (month_lengths y)" using that by (intro nth_mem) simp
    then show ?thesis by (auto simp: month_len_def month_lengths_def)
  qed
  show "0 \<le> y" "y < 10 ^ 4" "0 \<le> m" "m < 10 ^ 2" "0 \<le> d" "d < 10 ^ 2" "0 < (4 :: nat)" "0 < (2 :: nat)"
    using s len assms(2) by (auto simp: valid_civil_def four_digit_year_def)
qed

lemma format_date_less:
  assumes "four_digit_year n" "four_digit_year n'"
  shows "format_date n < format_date n' \<longleftrightarrow> n < n'"
proof -
  obtain y m d y' m' d' where c: "civil_of_days n = (y, m, d)" "civil_of_days n' = (y', m', d')"
    by (metis prod_cases3)
  note r = civil_ranges [OF c(1) assms(1)] and r' = civil_ranges [OF c(2) assms(2)]
  show ?thesis
    unfolding format_date_def c Let_def prod.case civil_less_iff [OF c]
    using r r' by (simp add: lex_append format_pad_length format_pad_less format_pad_inject)
qed

lemma format_date_le:
  assumes "four_digit_year n" "four_digit_year n'"
  shows "format_date n \<le> format_date n' \<longleftrightarrow> n \<le> n'"
  using format_date_less [of n' n] assms by (simp flip: not_less)

lemma not_dash_digits: "list_all is_digit s \<Longrightarrow> CHR ''-'' \<notin> set s"
  by (auto simp: list_all_iff)

lemma parse_format_date:
  assumes "four_digit_year n"
  shows "parse_date (format_date n) = Some n"
proof -
  obtain y m d where c: "civil_of_days n = (y, m, d)" by (metis prod_cases3)
  note r = civil_ranges [OF c assms] and s = civil_of_days_spec [OF c]
  have p: "parse_nat (format_pad w x) = Some (nat x)" if "0 \<le> x" "0 < length (format_pad w x)" for w x
    using that by (simp add: parse_nat_def format_pad_list_all format_pad_parse)
  have l: "length (format_pad 4 y) = 4" "length (format_pad 2 m) = 2" "length (format_pad 2 d) = 2"
    using r by (simp_all add: format_pad_length)
  then show ?thesis
    unfolding parse_date_def format_date_def c Let_def prod.case
    using r s by (simp add: split_char_append split_char_single not_dash_digits format_pad_list_all p)
qed

section \<open>Instants\<close>

text \<open>A \<open>time.Time\<close> in UTC, in nanoseconds since 1970-01-01; its zero value is the start of year 1.\<close>

definition day_ns :: int where
  "day_ns = 86400000000000"

definition date_of :: "int \<Rightarrow> int" where
  "date_of t = t div day_ns + 719528"

definition zero_time :: int where
  "zero_time = - 719162 * day_ns"

definition is_zero_time :: "int \<Rightarrow> bool" where
  "is_zero_time t \<longleftrightarrow> t = zero_time"

text \<open>\<open>t.UTC().Format("2006-01-02")\<close>\<close>

definition format_day :: "int \<Rightarrow> string" where
  "format_day t = format_date (date_of t)"

lemma date_of_mono: "s \<le> t \<Longrightarrow> date_of s \<le> date_of t"
  by (simp add: date_of_def day_ns_def zdiv_mono1)

lemma epoch_is_1970: "civil_of_days (date_of 0) = (1970, 1, 1)" "civil_of_days (date_of zero_time) = (1, 1, 1)"
  by code_simp+

end
