(* ===== verification/RateStore.thy ===== *)
theory RateStore
  imports Calendar
begin

text \<open>
  Effective-dated reference data, shared by \<open>kernel/money/fx.go\<close> and \<open>modules/tax/rates.go\<close>: rows
  carry a tenant and an effective date in the text form \<open>YYYY-MM-DD\<close>, the empty tenant holds the
  rows every tenant can read, and a lookup takes the first row of
  \<open>ORDER BY (CASE WHEN tenant_id = ? THEN 0 ELSE 1 END), as_of DESC LIMIT 1\<close>. SQL leaves the
  choice among equal keys open; \<open>first_by\<close> takes the first of the table, and the laws of the
  locale \<open>effective_dated\<close> hold for every order of the table.
\<close>

record dated_row =
  tenant_id :: string
  as_of :: string

fun first_by :: "('a \<Rightarrow> 'a \<Rightarrow> bool) \<Rightarrow> 'a list \<Rightarrow> 'a option" where
  "first_by before [] = None"
| "first_by before (x # xs) =
     (case first_by before xs of None \<Rightarrow> Some x | Some y \<Rightarrow> if before y x then Some y else Some x)"

definition visible :: "string \<Rightarrow> 'a dated_row_scheme \<Rightarrow> bool" where
  "visible tenant r \<longleftrightarrow> tenant_id r = tenant \<or> tenant_id r = ''''"

definition row_rank :: "string \<Rightarrow> 'a dated_row_scheme \<Rightarrow> nat" where
  "row_rank tenant r = (if tenant_id r = tenant then 0 else 1)"

definition row_before :: "string \<Rightarrow> 'a dated_row_scheme \<Rightarrow> 'a dated_row_scheme \<Rightarrow> bool" where
  "row_before tenant r s \<longleftrightarrow>
     row_rank tenant r < row_rank tenant s \<or> (row_rank tenant r = row_rank tenant s \<and> as_of s < as_of r)"

definition find_effective ::
  "string \<Rightarrow> ('a dated_row_scheme \<Rightarrow> bool) \<Rightarrow> string \<Rightarrow> 'a dated_row_scheme list \<Rightarrow> 'a dated_row_scheme option" where
  "find_effective tenant p day rows =
     first_by (row_before tenant) (filter (\<lambda>r. p r \<and> as_of r \<le> day \<and> visible tenant r) rows)"

section \<open>First by an order\<close>

lemma first_by_None [simp]: "first_by b xs = None \<longleftrightarrow> xs = []"
  by (cases xs) (auto split: option.splits)

lemma first_by_mem: "first_by b xs = Some x \<Longrightarrow> x \<in> set xs"
  by (induction xs arbitrary: x) (auto split: option.splits if_splits)

lemma first_by_least:
  assumes "\<And>x y z. b x y \<Longrightarrow> b y z \<Longrightarrow> b x z" "\<And>x y z. b x y \<Longrightarrow> b x z \<or> b z y" "\<And>x. \<not> b x x"
  shows "first_by b xs = Some x \<Longrightarrow> y \<in> set xs \<Longrightarrow> \<not> b y x"
proof (induction xs arbitrary: x y)
  case (Cons a xs)
  show ?case
  proof (cases "first_by b xs")
    case None
    with Cons.prems assms(3) show ?thesis by (simp split: option.splits)
  next
    case (Some z)
    with Cons.IH have z: "\<not> b w z" if "w \<in> set xs" for w using that by blast
    show ?thesis
    proof (cases "b z a")
      case True
      with Cons.prems Some have "x = z" by simp
      with Cons.prems z True assms(1) [of a z a] assms(3) show ?thesis by auto
    next
      case False
      with Cons.prems Some have "x = a" by simp
      with Cons.prems z False assms(2) [of y a z] assms(3) show ?thesis by auto
    qed
  qed
qed simp

lemma first_by_cong_set:
  "first_by b (filter p xs) = None \<longleftrightarrow> (\<forall>x \<in> set xs. \<not> p x)"
  by (simp add: filter_empty_conv)

lemma first_row_least:
  "first_by (row_before t) rows = Some r \<Longrightarrow> s \<in> set rows \<Longrightarrow> \<not> row_before t s r"
  by (rule first_by_least [where b = "row_before t"]) (auto simp: row_before_def)

section \<open>The contract of a lookup\<close>

locale effective_dated =
  fixes tenant_of :: "'row \<Rightarrow> string" and date_on :: "'row \<Rightarrow> string"
    and find :: "string \<Rightarrow> ('row \<Rightarrow> bool) \<Rightarrow> string \<Rightarrow> 'row list \<Rightarrow> 'row option"
  assumes find_sound: "find t p d rows = Some r \<Longrightarrow>
      r \<in> set rows \<and> p r \<and> date_on r \<le> d \<and> (tenant_of r = t \<or> tenant_of r = '''')"
    and find_best: "find t p d rows = Some r \<Longrightarrow> s \<in> set rows \<Longrightarrow> p s \<Longrightarrow> date_on s \<le> d \<Longrightarrow>
      tenant_of s = t \<or> tenant_of s = '''' \<Longrightarrow>
      (tenant_of s = t \<longrightarrow> tenant_of r = t) \<and> (tenant_of r = tenant_of s \<longrightarrow> date_on s \<le> date_on r)"
    and find_complete: "find t p d rows = None \<Longrightarrow> s \<in> set rows \<Longrightarrow> p s \<Longrightarrow> date_on s \<le> d \<Longrightarrow>
      tenant_of s = t \<or> tenant_of s = '''' \<Longrightarrow> False"
    and find_isolated: "find t p d (filter (\<lambda>r. tenant_of r = t \<or> tenant_of r = '''') rows) = find t p d rows"
begin

lemma own_row_wins:
  assumes "s \<in> set rows" "p s" "date_on s \<le> d" "tenant_of s = t"
  shows "\<exists>r. find t p d rows = Some r \<and> r \<in> set rows \<and> p r \<and> tenant_of r = t \<and>
    date_on s \<le> date_on r \<and> date_on r \<le> d"
proof (cases "find t p d rows")
  case None
  then show ?thesis using find_complete [OF None, of s] assms by simp
next
  case (Some r)
  then have "tenant_of r = t" "date_on s \<le> date_on r"
    using find_best [OF Some, of s] assms by simp_all
  with Some show ?thesis using find_sound [OF Some] by blast
qed

lemma newest_own_row:
  assumes "s \<in> set rows" "p s" "date_on s \<le> d" "tenant_of s = t"
    and newest: "\<forall>r \<in> set rows. p r \<longrightarrow> tenant_of r = t \<longrightarrow> date_on s \<le> date_on r \<longrightarrow> date_on r \<le> d \<longrightarrow> r = s"
  shows "find t p d rows = Some s"
  using own_row_wins [where p = p, OF assms(1-4)] newest by blast

lemma other_tenants_invisible:
  assumes "tenant_of r \<noteq> t" "tenant_of r \<noteq> ''''"
  shows "find t p d (rows @ [r]) = find t p d rows"
  using find_isolated [of t p d "rows @ [r]"] find_isolated [of t p d rows] assms by simp

lemma unmatched_row:
  assumes "\<not> p r" "find t p d rows = None"
  shows "find t p d (rows @ [r]) = None"
proof (rule ccontr)
  assume "find t p d (rows @ [r]) \<noteq> None"
  then obtain s where s: "find t p d (rows @ [r]) = Some s" by blast
  from find_sound [OF this] assms(1) have "s \<in> set rows" "p s" "date_on s \<le> d" "tenant_of s = t \<or> tenant_of s = ''''"
    by auto
  with find_complete [OF assms(2)] show False by blast
qed

end

text \<open>The SQL lookup keeps the contract.\<close>

interpretation rate_rows: effective_dated tenant_id as_of find_effective
proof (unfold_locales, goal_cases)
  case (1 t p d rows r)
  then show ?case by (auto simp: find_effective_def visible_def dest!: first_by_mem)
next
  case (2 t p d rows r s)
  then have "\<not> row_before t s r"
    unfolding find_effective_def
    by (elim first_row_least) (simp add: visible_def)
  then show ?case using 2 by (auto simp: row_before_def row_rank_def split: if_splits)
next
  case (3 t p d rows s)
  then show ?case by (auto simp: find_effective_def filter_empty_conv visible_def)
next
  case (4 t p d rows)
  show ?case
    unfolding find_effective_def visible_def filter_filter
    by (rule arg_cong [where f = "first_by (row_before t)"]) (auto intro: filter_cong)
qed

end
