(* ===== verification/FxRates.thy ===== *)
theory FxRates
  imports MoneyText RateStore
begin

text \<open>
  \<open>kernel/money/fx.go\<close> and the reader of \<open>ecb.go\<close>: saving effective-dated exchange rates and
  resolving the rate of a pair on a date. The table \<open>fx_rates\<close> is a list of rows; the XML of the
  ECB feed is decoded by \<open>encoding/xml\<close>, so \<open>ParseECB\<close> starts from the decoded days.
\<close>

record fx_row = dated_row +
  fx_base :: string
  fx_quote :: string
  fx_rate :: string
  fx_provider :: string
  fx_recorded_at :: int

record fx_Rate =
  Base :: string
  Quote :: string
  RateText :: string
  AsOf :: int
  Provider :: string

datatype fx_error =
    FxMoney money_error
  | ErrInvalidRate string
  | ErrAsOfRequired
  | ErrRateNotFound
  | ErrCorruptRate string
  | ErrInverseOfZero
  | ErrBadDate string

section \<open>Saving and resolving\<close>

definition fx_SaveRate ::
  "iso_table \<Rightarrow> (string \<Rightarrow> rat option) \<Rightarrow> int \<Rightarrow> string \<Rightarrow> fx_Rate \<Rightarrow> (fx_row list, fx_error, unit) tx" where
  "fx_SaveRate iso4217 set_string now tenant r rows =
     (case Lookup iso4217 (Base r) of Inl e \<Rightarrow> (Inl (FxMoney e), rows)
      | Inr bc \<Rightarrow>
     (case Lookup iso4217 (Quote r) of Inl e \<Rightarrow> (Inl (FxMoney e), rows)
      | Inr qc \<Rightarrow>
          if set_string (RateText r) = None then (Inl (ErrInvalidRate (RateText r)), rows)
          else if is_zero_time (AsOf r) then (Inl ErrAsOfRequired, rows)
          else (Inr (), rows @ [\<lparr>tenant_id = tenant, as_of = format_day (AsOf r),
                  fx_base = Code bc, fx_quote = Code qc, fx_rate = RateText r,
                  fx_provider = Provider r, fx_recorded_at = now\<rparr>])))"

definition lookupRate ::
  "(string \<Rightarrow> rat option) \<Rightarrow> fx_row list \<Rightarrow> string \<Rightarrow> string \<Rightarrow> string \<Rightarrow> int \<Rightarrow> fx_error + rat" where
  "lookupRate set_string rows tenant base quote date =
     (case find_effective tenant (\<lambda>r. fx_base r = base \<and> fx_quote r = quote) (format_day date) rows of
        None \<Rightarrow> Inl ErrRateNotFound
      | Some row \<Rightarrow> (case set_string (fx_rate row) of None \<Rightarrow> Inl (ErrCorruptRate (fx_rate row)) | Some r \<Rightarrow> Inr r))"

text \<open>\<open>big.Rat.Inv\<close> panics on zero: \<open>ErrInverseOfZero\<close>.\<close>

definition fx_RateAsOf ::
  "iso_table \<Rightarrow> (string \<Rightarrow> rat option) \<Rightarrow> fx_row list \<Rightarrow> string \<Rightarrow> string \<Rightarrow> string \<Rightarrow> int \<Rightarrow> fx_error + rat" where
  "fx_RateAsOf iso4217 set_string rows tenant base quote date =
     (case Lookup iso4217 base of Inl e \<Rightarrow> Inl (FxMoney e)
      | Inr bc \<Rightarrow>
     (case Lookup iso4217 quote of Inl e \<Rightarrow> Inl (FxMoney e)
      | Inr qc \<Rightarrow>
          if Code bc = Code qc then Inr 1
          else
     (case lookupRate set_string rows tenant (Code bc) (Code qc) date of
        Inr r \<Rightarrow> Inr r
      | Inl e \<Rightarrow> if e \<noteq> ErrRateNotFound then Inl e
          else
     (case lookupRate set_string rows tenant (Code qc) (Code bc) date of
        Inr r \<Rightarrow> if r = 0 then Inl ErrInverseOfZero else Inr (1 / r)
      | Inl e \<Rightarrow> Inl e))))"

section \<open>The ECB feed\<close>

fun ecb_rates :: "iso_table \<Rightarrow> (string \<Rightarrow> rat option) \<Rightarrow> int \<Rightarrow> (string \<times> string) list \<Rightarrow> fx_Rate list" where
  "ecb_rates iso4217 set_string asOf [] = []"
| "ecb_rates iso4217 set_string asOf ((cur, rate) # rs) =
     (case Lookup iso4217 cur of Inl _ \<Rightarrow> ecb_rates iso4217 set_string asOf rs
      | Inr c \<Rightarrow>
          if set_string rate = None then ecb_rates iso4217 set_string asOf rs
          else \<lparr>Base = ''EUR'', Quote = Code c, RateText = rate, AsOf = asOf, Provider = ''ECB''\<rparr>
                 # ecb_rates iso4217 set_string asOf rs)"

fun ParseECB ::
  "iso_table \<Rightarrow> (string \<Rightarrow> rat option) \<Rightarrow> (string \<times> (string \<times> string) list) list \<Rightarrow> fx_error + fx_Rate list" where
  "ParseECB iso4217 set_string [] = Inr []"
| "ParseECB iso4217 set_string ((day, rates) # days) =
     (case parse_date day of None \<Rightarrow> Inl (ErrBadDate day)
      | Some n \<Rightarrow>
     (case ParseECB iso4217 set_string days of Inl e \<Rightarrow> Inl e
      | Inr out \<Rightarrow> Inr (ecb_rates iso4217 set_string ((n - 719528) * day_ns) rates @ out)))"

section \<open>Facts\<close>

lemma lookupRate_Inr_iff:
  "lookupRate set_string rows t b q date = Inr r \<longleftrightarrow>
     (\<exists>row. find_effective t (\<lambda>r. fx_base r = b \<and> fx_quote r = q) (format_day date) rows = Some row \<and>
        set_string (fx_rate row) = Some r)"
  by (auto simp: lookupRate_def split: option.splits)

lemma lookupRate_isolated:
  "tenant_id row \<noteq> t \<Longrightarrow> tenant_id row \<noteq> '''' \<Longrightarrow>
   lookupRate set_string (rows @ [row]) t b q date = lookupRate set_string rows t b q date"
  by (simp add: lookupRate_def rate_rows.other_tenants_invisible)

lemma fx_SaveRate_cases:
  obtains (saved) bc qc v where "Lookup iso4217 (Base r) = Inr bc" "Lookup iso4217 (Quote r) = Inr qc"
      "set_string (RateText r) = Some v" "\<not> is_zero_time (AsOf r)"
      "fx_SaveRate iso4217 set_string now t r rows =
        (Inr (), rows @ [\<lparr>tenant_id = t, as_of = format_day (AsOf r), fx_base = Code bc, fx_quote = Code qc,
           fx_rate = RateText r, fx_provider = Provider r, fx_recorded_at = now\<rparr>])"
  | (failed) e where "fx_SaveRate iso4217 set_string now t r rows = (Inl e, rows)"
  by (cases "Lookup iso4217 (Base r)"; cases "Lookup iso4217 (Quote r)"; cases "set_string (RateText r)";
      cases "is_zero_time (AsOf r)") (auto simp: fx_SaveRate_def)

lemma ecb_rates_wf:
  "r \<in> set (ecb_rates iso4217 set_string asOf rs) \<Longrightarrow>
     Base r = ''EUR'' \<and> AsOf r = asOf \<and> set_string (RateText r) \<noteq> None \<and>
     (\<exists>cur c. (cur, RateText r) \<in> set rs \<and> Lookup iso4217 cur = Inr c \<and> Quote r = Code c)"
  by (induction iso4217 set_string asOf rs rule: ecb_rates.induct) (force split: sum.splits if_splits)+

lemma ParseECB_wf:
  assumes "ParseECB iso4217 set_string days = Inr out" "r \<in> set out"
  shows "Base r = ''EUR'' \<and> set_string (RateText r) \<noteq> None \<and>
    (\<exists>cur c. Lookup iso4217 cur = Inr c \<and> Quote r = Code c) \<and>
    (\<exists>day n. day \<in> fst ` set days \<and> parse_date day = Some n \<and> AsOf r = (n - 719528) * day_ns)"
  using assms
proof (induction iso4217 set_string days arbitrary: out rule: ParseECB.induct)
  case (2 iso4217 set_string day rates days)
  from "2.prems" obtain n rest where p: "parse_date day = Some n" "ParseECB iso4217 set_string days = Inr rest"
    "out = ecb_rates iso4217 set_string ((n - 719528) * day_ns) rates @ rest"
    by (auto split: option.splits sum.splits)
  show ?case
  proof (cases "r \<in> set rest")
    case True
    from "2.IH" [OF p(1,2) True] show ?thesis
      unfolding list.set(2) image_insert by blast
  next
    case False
    then have "r \<in> set (ecb_rates iso4217 set_string ((n - 719528) * day_ns) rates)" using p(3) "2.prems" by simp
    from ecb_rates_wf [OF this] have
      "Base r = ''EUR''" "set_string (RateText r) \<noteq> None" "AsOf r = (n - 719528) * day_ns"
      "\<exists>cur c. Lookup iso4217 cur = Inr c \<and> Quote r = Code c" by blast+
    moreover have "day \<in> fst ` set ((day, rates) # days)" by simp
    ultimately show ?thesis using p(1) by blast
  qed
qed simp

text \<open>Every rate that the ECB reader lets through is one that \<open>SaveRate\<close> accepts.\<close>

lemma ParseECB_saves:
  assumes "iso_canonical iso4217" "Lookup iso4217 ''EUR'' = Inr eur"
    and "ParseECB iso4217 set_string days = Inr out" "r \<in> set out" "AsOf r \<noteq> zero_time"
  shows "fst (fx_SaveRate iso4217 set_string now t r rows) = Inr ()"
proof -
  from ParseECB_wf [OF assms(3,4)] obtain c where w: "Base r = ''EUR''" "set_string (RateText r) \<noteq> None"
    "Lookup iso4217 (Quote r) = Inr c"
    using Lookup_canonical [OF assms(1)] by fastforce
  then show ?thesis
    using assms(2,5) by (auto simp: fx_SaveRate_def is_zero_time_def)
qed

section \<open>Properties\<close>

text \<open>a saved rate takes effect. When a tenant saves a rate effective on or before the day asked for,
  and has no newer rate of that pair up to that day on file, \<open>RateAsOf\<close> returns exactly the saved
  rate, whatever global rates or rates of other tenants the table holds.\<close>

theorem SaveRate_takes_effect:
  assumes "Lookup iso4217 (Base r) = Inr bc" "Lookup iso4217 (Quote r) = Inr qc" "Code bc \<noteq> Code qc"
    and "set_string (RateText r) = Some v" "AsOf r \<noteq> zero_time"
    and "four_digit_year (date_of (AsOf r))" "four_digit_year (date_of date)" "date_of (AsOf r) \<le> date_of date"
    and "\<forall>row \<in> set rows. tenant_id row = tenant \<longrightarrow> fx_base row = Code bc \<longrightarrow> fx_quote row = Code qc \<longrightarrow>
      as_of row < format_day (AsOf r) \<or> format_day date < as_of row"
  shows "fx_RateAsOf iso4217 set_string (snd (fx_SaveRate iso4217 set_string now tenant r rows)) tenant
      (Base r) (Quote r) date = Inr v"
proof -
  let ?row = "\<lparr>tenant_id = tenant, as_of = format_day (AsOf r), fx_base = Code bc, fx_quote = Code qc,
    fx_rate = RateText r, fx_provider = Provider r, fx_recorded_at = now\<rparr>"
  let ?p = "\<lambda>x. fx_base x = Code bc \<and> fx_quote x = Code qc"
  have saved: "snd (fx_SaveRate iso4217 set_string now tenant r rows) = rows @ [?row]"
    using assms(1,2,4,5) by (simp add: fx_SaveRate_def is_zero_time_def)
  have le: "format_day (AsOf r) \<le> format_day date"
    using assms(6-8) by (simp add: format_day_def format_date_le)
  have "find_effective tenant ?p (format_day date) (rows @ [?row]) = Some ?row"
    by (rule rate_rows.newest_own_row) (use le assms(9) in \<open>auto simp: not_less\<close>)
  then have "lookupRate set_string (rows @ [?row]) tenant (Code bc) (Code qc) date = Inr v"
    using assms(4) by (simp add: lookupRate_def)
  then show ?thesis
    unfolding saved using assms(1-3) by (simp add: fx_RateAsOf_def)
qed

lemma decimal_examples:
  "read_decimal ''1.5'' = Some (3 / 2)" "read_decimal ''0'' = Some 0" "read_decimal ''0.20'' = Some (1 / 5)"
  by (simp_all add: read_decimal_def read_unsigned_def split_char_def parse_nat_def is_digit_def
      parse_digits_def digit_val_def)

theorem SaveRate_takes_effect_witness:
  "fx_RateAsOf iso_example read_decimal (snd (fx_SaveRate iso_example read_decimal 0 ''acme''
      \<lparr>Base = ''EUR'', Quote = ''USD'', RateText = ''1.5'', AsOf = 0, Provider = ''bank''\<rparr> [])) ''acme''
      ''EUR'' ''USD'' day_ns = Inr (3 / 2)"
proof -
  have "four_digit_year (date_of 0)" "four_digit_year (date_of day_ns)" by code_simp+
  then show ?thesis
    using SaveRate_takes_effect [of iso_example "\<lparr>Base = ''EUR'', Quote = ''USD'', RateText = ''1.5'', AsOf = 0,
        Provider = ''bank''\<rparr>" _ _ read_decimal "3 / 2" day_ns "[]" "''acme''" 0] Lookup_example decimal_examples
    by (simp add: zero_time_def day_ns_def date_of_def)
qed

text \<open>
  A zero rate is accepted, and asking for the reverse pair then divides by zero: \<open>SaveRate\<close>
  checks that the rate is a number, not that it is positive.
\<close>

lemma zero_rate_inverse_panics:
  "fx_RateAsOf iso_example read_decimal (snd (fx_SaveRate iso_example read_decimal 0 ''acme''
      \<lparr>Base = ''EUR'', Quote = ''USD'', RateText = ''0'', AsOf = 0, Provider = ''bank''\<rparr> [])) ''acme''
      ''USD'' ''EUR'' day_ns = Inl ErrInverseOfZero"
proof -
  have "format_day 0 \<le> format_day day_ns" by code_simp
  then show ?thesis
    by (simp add: fx_SaveRate_def fx_RateAsOf_def Lookup_example lookupRate_def find_effective_def
        decimal_examples is_zero_time_def zero_time_def visible_def day_ns_def)
qed

lemma fx_RateAsOf_isolated:
  assumes "other \<noteq> tenant" "other \<noteq> ''''"
  shows "fx_RateAsOf iso4217 set_string (snd (fx_SaveRate iso4217 set_string now other r rows)) tenant b q date =
    fx_RateAsOf iso4217 set_string rows tenant b q date"
proof (cases rule: fx_SaveRate_cases [of iso4217 r set_string now other rows])
  case (saved bc qc v)
  have "lookupRate set_string (snd (fx_SaveRate iso4217 set_string now other r rows)) tenant x y date =
      lookupRate set_string rows tenant x y date" for x y
    using assms unfolding saved(5) snd_conv by (intro lookupRate_isolated) simp_all
  then show ?thesis unfolding fx_RateAsOf_def by presburger
qed simp

end
