(* ===== verification/Tax.thy ===== *)
theory Tax
  imports FxRates "HOL-Library.Product_Lexorder"
begin

text \<open>
  \<open>modules/tax\<close>: the tax of one line (\<open>calcLine\<close>) and of a document (\<open>Calculate\<close>) from \<open>calc.go\<close>,
  the effective-dated tax rates of \<open>rates.go\<close>, the jurisdictions of \<open>jurisdictions.go\<close> and the seed
  packs of \<open>seed.go\<close> (decoded from YAML outside the model). The rate tables are lists of rows
  and share the lookup of \<open>RateStore\<close>.
\<close>

record tax_Line =
  tl_Jurisdiction :: string
  tl_Category :: string
  tl_Base :: money
  tl_Rate :: "rat option"
  tl_Rounding :: RoundingMode
  tl_Inclusive :: bool

record LineResult =
  lr_Net :: money
  lr_Tax :: money
  lr_Gross :: money

record TaxTotal =
  tt_Jurisdiction :: string
  tt_Category :: string
  tt_Net :: money
  tt_Tax :: money

record tax_Result =
  res_Lines :: "LineResult list"
  res_Totals :: "TaxTotal list"

datatype tax_error =
    ErrUnknownRounding string
  | ErrNegativeTaxRate
  | TaxMoney money_error
  | TaxLine nat tax_error
  | ErrRateRequired
  | ErrTaxInvalidRate string
  | ErrTaxNegative string
  | ErrTaxAsOfRequired
  | ErrTaxRateNotFound string string
  | ErrTaxCorruptRate string
  | ErrJurisdictionRequired
  | ErrInvalidLevel string
  | ErrSeed string tax_error
  | ErrSeedDate string

definition roundingMode :: "string \<Rightarrow> tax_error + RoundingMode" where
  "roundingMode name =
     (if name = '''' \<or> name = ''half_even'' then Inr HalfEven
      else if name = ''half_up'' then Inr HalfUp
      else Inl (ErrUnknownRounding name))"

section \<open>One line\<close>

definition calcLine :: "tax_Line \<Rightarrow> tax_error + LineResult" where
  "calcLine line =
     (case tl_Rate line of None \<Rightarrow> Inl ErrNegativeTaxRate
      | Some rate \<Rightarrow>
          if rate < 0 then Inl ErrNegativeTaxRate
          else if tl_Inclusive line then
            let ratio = 1 / (1 + rate) in
            (case MulRat (tl_Base line) (Some ratio) (tl_Rounding line) of Inl e \<Rightarrow> Inl (TaxMoney e)
             | Inr net \<Rightarrow>
            (case Sub (tl_Base line) net of Inl e \<Rightarrow> Inl (TaxMoney e)
             | Inr tax \<Rightarrow> Inr \<lparr>lr_Net = net, lr_Tax = tax, lr_Gross = tl_Base line\<rparr>))
          else
            (case MulRat (tl_Base line) (Some rate) (tl_Rounding line) of Inl e \<Rightarrow> Inl (TaxMoney e)
             | Inr tax \<Rightarrow>
            (case Add (tl_Base line) tax of Inl e \<Rightarrow> Inl (TaxMoney e)
             | Inr gross \<Rightarrow> Inr \<lparr>lr_Net = tl_Base line, lr_Tax = tax, lr_Gross = gross\<rparr>)))"

section \<open>A document\<close>

text \<open>\<open>money.Zero\<close> with its error dropped: the zero value of \<open>Money\<close> has no currency.\<close>

definition zero_money :: "iso_table \<Rightarrow> string \<Rightarrow> money" where
  "zero_money iso4217 c = (case Zero iso4217 c of Inl _ \<Rightarrow> \<lparr>amount = 0, currency = ''''\<rparr> | Inr m \<Rightarrow> m)"

definition group_key :: "TaxTotal \<Rightarrow> string \<times> string" where
  "group_key t = (tt_Jurisdiction t, tt_Category t)"

definition line_key :: "tax_Line \<Rightarrow> string \<times> string" where
  "line_key line = (tl_Jurisdiction line, tl_Category line)"

text \<open>The Go map of groups as a list with one entry per key, and the update of one entry.\<close>

fun put_group :: "TaxTotal \<Rightarrow> TaxTotal list \<Rightarrow> TaxTotal list" where
  "put_group t [] = [t]"
| "put_group t (g # gs) = (if group_key g = group_key t then t # gs else g # put_group t gs)"

definition group_of :: "iso_table \<Rightarrow> tax_Line \<Rightarrow> LineResult \<Rightarrow> TaxTotal list \<Rightarrow> TaxTotal" where
  "group_of iso4217 line lr groups =
     (case List.find (\<lambda>g. group_key g = line_key line) groups of Some t \<Rightarrow> t
      | None \<Rightarrow> \<lparr>tt_Jurisdiction = tl_Jurisdiction line, tt_Category = tl_Category line,
          tt_Net = zero_money iso4217 (currency (lr_Net lr)), tt_Tax = zero_money iso4217 (currency (lr_Tax lr))\<rparr>)"

fun calc_lines ::
  "iso_table \<Rightarrow> nat \<Rightarrow> tax_Line list \<Rightarrow> LineResult list \<Rightarrow> TaxTotal list \<Rightarrow>
     tax_error + LineResult list \<times> TaxTotal list" where
  "calc_lines iso4217 i [] res groups = Inr (res, groups)"
| "calc_lines iso4217 i (line # lines) res groups =
     (case calcLine line of Inl e \<Rightarrow> Inl (TaxLine i e)
      | Inr lr \<Rightarrow>
          let t = group_of iso4217 line lr groups in
     (case Add (tt_Net t) (lr_Net lr) of Inl e \<Rightarrow> Inl (TaxLine i (TaxMoney e))
      | Inr net \<Rightarrow>
     (case Add (tt_Tax t) (lr_Tax lr) of Inl e \<Rightarrow> Inl (TaxLine i (TaxMoney e))
      | Inr tax \<Rightarrow>
          calc_lines iso4217 (i + 1) lines (res @ [lr]) (put_group (t\<lparr>tt_Net := net, tt_Tax := tax\<rparr>) groups))))"

definition Calculate :: "iso_table \<Rightarrow> tax_Line list \<Rightarrow> tax_error + tax_Result" where
  "Calculate iso4217 lines =
     (case calc_lines iso4217 0 lines [] [] of Inl e \<Rightarrow> Inl e
      | Inr (res, groups) \<Rightarrow> Inr \<lparr>res_Lines = res, res_Totals = sort_key group_key groups\<rparr>)"

section \<open>Rates on file\<close>

record tax_row = dated_row +
  tr_jurisdiction :: string
  tr_category :: string
  tr_rate :: string
  tr_rounding :: string
  tr_name :: string
  tr_provider :: string
  tr_recorded_at :: int

record tax_Rate =
  TR_Jurisdiction :: string
  TR_Category :: string
  TR_Rate :: string
  TR_Rounding :: string
  TR_AsOf :: int
  TR_Name :: string
  TR_Provider :: string

record ResolvedRate =
  rr_Rate :: rat
  rr_Rounding :: string

definition tax_SaveRate ::
  "(string \<Rightarrow> rat option) \<Rightarrow> int \<Rightarrow> string \<Rightarrow> tax_Rate \<Rightarrow> (tax_row list, tax_error, unit) tx" where
  "tax_SaveRate set_string now tenant r rows =
     (if TR_Jurisdiction r = '''' \<or> TR_Category r = '''' then (Inl ErrRateRequired, rows)
      else
     (case set_string (TR_Rate r) of None \<Rightarrow> (Inl (ErrTaxInvalidRate (TR_Rate r)), rows)
      | Some rat \<Rightarrow>
          if rat < 0 then (Inl (ErrTaxNegative (TR_Rate r)), rows)
          else
     (case roundingMode (TR_Rounding r) of Inl e \<Rightarrow> (Inl e, rows)
      | Inr _ \<Rightarrow>
          if is_zero_time (TR_AsOf r) then (Inl ErrTaxAsOfRequired, rows)
          else
            let rounding = (if TR_Rounding r = '''' then ''half_even'' else TR_Rounding r)
            in (Inr (), rows @ [\<lparr>tenant_id = tenant, as_of = format_day (TR_AsOf r),
                  tr_jurisdiction = TR_Jurisdiction r, tr_category = TR_Category r, tr_rate = TR_Rate r,
                  tr_rounding = rounding, tr_name = TR_Name r, tr_provider = TR_Provider r,
                  tr_recorded_at = now\<rparr>]))))"

definition tax_RateAsOf ::
  "(string \<Rightarrow> rat option) \<Rightarrow> tax_row list \<Rightarrow> string \<Rightarrow> string \<Rightarrow> string \<Rightarrow> int \<Rightarrow> tax_error + ResolvedRate" where
  "tax_RateAsOf set_string rows tenant jur cat date =
     (case find_effective tenant (\<lambda>r. tr_jurisdiction r = jur \<and> tr_category r = cat) (format_day date) rows of
        None \<Rightarrow> Inl (ErrTaxRateNotFound jur cat)
      | Some row \<Rightarrow>
     (case set_string (tr_rate row) of None \<Rightarrow> Inl (ErrTaxCorruptRate (tr_rate row))
      | Some rat \<Rightarrow> Inr \<lparr>rr_Rate = rat, rr_Rounding = tr_rounding row\<rparr>))"

record DocLine =
  dl_Jurisdiction :: string
  dl_Category :: string
  dl_Base :: money
  dl_Inclusive :: bool

definition resolve_line ::
  "(string \<Rightarrow> rat option) \<Rightarrow> tax_row list \<Rightarrow> string \<Rightarrow> int \<Rightarrow> DocLine \<Rightarrow> tax_error + tax_Line" where
  "resolve_line set_string rows tenant date dl =
     (case tax_RateAsOf set_string rows tenant (dl_Jurisdiction dl) (dl_Category dl) date of Inl e \<Rightarrow> Inl e
      | Inr rr \<Rightarrow>
     (case roundingMode (rr_Rounding rr) of Inl e \<Rightarrow> Inl e
      | Inr mode \<Rightarrow> Inr \<lparr>tl_Jurisdiction = dl_Jurisdiction dl, tl_Category = dl_Category dl, tl_Base = dl_Base dl,
          tl_Rate = Some (rr_Rate rr), tl_Rounding = mode, tl_Inclusive = dl_Inclusive dl\<rparr>))"

definition ResolveAndCalculate ::
  "iso_table \<Rightarrow> (string \<Rightarrow> rat option) \<Rightarrow> tax_row list \<Rightarrow> string \<Rightarrow> DocLine list \<Rightarrow> int \<Rightarrow> tax_error + tax_Result" where
  "ResolveAndCalculate iso4217 set_string rows tenant lines date =
     (case traverse (resolve_line set_string rows tenant date) lines of Inl e \<Rightarrow> Inl e
      | Inr resolved \<Rightarrow> Calculate iso4217 resolved)"

section \<open>Facts about a line\<close>

lemma roundRat_share:
  assumes "0 \<le> rt" "rt \<le> 1"
  shows "0 \<le> a \<Longrightarrow> 0 \<le> roundRat (of_int a * rt) mode \<and> roundRat (of_int a * rt) mode \<le> a"
    and "a \<le> 0 \<Longrightarrow> a \<le> roundRat (of_int a * rt) mode \<and> roundRat (of_int a * rt) mode \<le> 0"
proof -
  have pos: "0 \<le> b \<Longrightarrow> 0 \<le> roundRat (of_int b * rt) mode \<and> roundRat (of_int b * rt) mode \<le> b" for b
    using roundRat_mono_bound [of "of_int b * rt" b mode] assms by (simp add: mult_left_le)
  then show "0 \<le> a \<Longrightarrow> 0 \<le> roundRat (of_int a * rt) mode \<and> roundRat (of_int a * rt) mode \<le> a" .
  show "a \<le> roundRat (of_int a * rt) mode \<and> roundRat (of_int a * rt) mode \<le> 0" if "a \<le> 0"
    using pos [of "- a"] that roundRat_minus [of "of_int a * rt" mode] by simp
qed

lemma inclusive_share:
  fixes rate :: rat
  assumes "0 \<le> rate"
  shows "0 \<le> 1 / (1 + rate)" "1 / (1 + rate) \<le> 1"
  using assms by auto

lemma calcLine_inclusive:
  assumes "tl_Inclusive line" "calcLine line = Inr lr" "int64 (amount (tl_Base line))"
  shows "\<exists>rate. tl_Rate line = Some rate \<and> 0 \<le> rate \<and> lr_Gross lr = tl_Base line \<and>
    currency (lr_Net lr) = currency (tl_Base line) \<and> currency (lr_Tax lr) = currency (tl_Base line) \<and>
    amount (lr_Net lr) = roundRat (of_int (amount (tl_Base line)) * (1 / (1 + rate))) (tl_Rounding line) \<and>
    amount (lr_Net lr) + amount (lr_Tax lr) = amount (tl_Base line)"
proof -
  let ?b = "amount (tl_Base line)"
  from assms(1,2) obtain rate net where r: "tl_Rate line = Some rate" "0 \<le> rate"
    and net: "MulRat (tl_Base line) (Some (1 / (1 + rate))) (tl_Rounding line) = Inr net"
    and lr: "lr = \<lparr>lr_Net = net, lr_Tax = \<lparr>amount = i64 (?b - amount net), currency = currency (tl_Base line)\<rparr>,
      lr_Gross = tl_Base line\<rparr>"
    by (auto simp: calcLine_def Let_def Sub_Inr_iff split: option.splits if_splits sum.splits)
  from net have n: "amount net = roundRat (of_int ?b * (1 / (1 + rate))) (tl_Rounding line)"
    "currency net = currency (tl_Base line)"
    by (auto simp: MulRat_Inr_iff)
  note share = roundRat_share [OF inclusive_share [OF r(2)], of ?b "tl_Rounding line"]
  have "int64 (?b - amount net)"
    using assms(3) share unfolding n(1) by (cases "0 \<le> ?b") (auto simp: int64_def)
  with r lr n show ?thesis by simp
qed

lemma calcLine_exclusive:
  assumes "\<not> tl_Inclusive line" "calcLine line = Inr lr"
  shows "\<exists>rate. tl_Rate line = Some rate \<and> 0 \<le> rate \<and> lr_Net lr = tl_Base line \<and>
    currency (lr_Gross lr) = currency (tl_Base line) \<and> currency (lr_Tax lr) = currency (tl_Base line) \<and>
    amount (lr_Tax lr) = roundRat (of_int (amount (tl_Base line)) * rate) (tl_Rounding line) \<and>
    int64 (amount (lr_Tax lr)) \<and>
    amount (lr_Gross lr) = i64 (amount (tl_Base line) + amount (lr_Tax lr))"
  using assms
  by (auto simp: calcLine_def Let_def Add_Inr_iff MulRat_Inr_iff split: option.splits if_splits sum.splits)

section \<open>Facts about a document\<close>

lemma zero_money_amount [simp]: "amount (zero_money iso4217 c) = 0"
  by (auto simp: zero_money_def Zero_def New_def split: sum.splits)

lemma set_put_group:
  "distinct (map group_key gs) \<Longrightarrow> g \<in> set (put_group t gs) \<longleftrightarrow> g = t \<or> (g \<in> set gs \<and> group_key g \<noteq> group_key t)"
proof (induction gs)
  case (Cons a gs)
  then show ?case by (cases "group_key a = group_key t") (auto simp: image_iff)
qed simp

lemma key_set_put_group: "group_key ` set (put_group t gs) = insert (group_key t) (group_key ` set gs)"
  by (induction gs) auto

lemma keys_put_group:
  "map group_key (put_group t gs) =
     (if group_key t \<in> group_key ` set gs then map group_key gs else map group_key gs @ [group_key t])"
  by (induction gs) auto

definition group_sum :: "string \<times> string \<Rightarrow> (LineResult \<Rightarrow> money) \<Rightarrow> (tax_Line \<times> LineResult) list \<Rightarrow> int" where
  "group_sum k f ps = sum_list (map (\<lambda>p. amount (f (snd p))) (filter (\<lambda>p. line_key (fst p) = k) ps))"

lemma group_sum_snoc [simp]:
  "group_sum k f [] = 0"
  "group_sum k f (ps @ [(l, r)]) = group_sum k f ps + (if line_key l = k then amount (f r) else 0)"
  by (simp_all add: group_sum_def)

definition groups_ok :: "(tax_Line \<times> LineResult) list \<Rightarrow> TaxTotal list \<Rightarrow> bool" where
  "groups_ok ps gs \<longleftrightarrow> distinct (map group_key gs) \<and> group_key ` set gs = line_key ` fst ` set ps \<and>
     (\<forall>g \<in> set gs. amount (tt_Net g) = i64 (group_sum (group_key g) lr_Net ps) \<and>
        amount (tt_Tax g) = i64 (group_sum (group_key g) lr_Tax ps))"

lemma group_of_ok:
  assumes "groups_ok ps gs"
  shows "group_key (group_of iso4217 line lr gs) = line_key line \<and>
    amount (tt_Net (group_of iso4217 line lr gs)) = i64 (group_sum (line_key line) lr_Net ps) \<and>
    amount (tt_Tax (group_of iso4217 line lr gs)) = i64 (group_sum (line_key line) lr_Tax ps)"
proof -
  consider (old) g where "List.find (\<lambda>g. group_key g = line_key line) gs = Some g" "g \<in> set gs" "group_key g = line_key line"
    | (new) "List.find (\<lambda>g. group_key g = line_key line) gs = None" "line_key line \<notin> group_key ` set gs"
    by (cases "List.find (\<lambda>g. group_key g = line_key line) gs")
      (auto simp: find_Some_iff find_None_iff image_iff, metis)
  then show ?thesis
  proof cases
    case old
    then have "amount (tt_Net g) = i64 (group_sum (group_key g) lr_Net ps) \<and>
        amount (tt_Tax g) = i64 (group_sum (group_key g) lr_Tax ps)"
      using assms by (simp add: groups_ok_def)
    with old show ?thesis by (simp add: group_of_def)
  next
    case new
    have "group_key ` set gs = line_key ` fst ` set ps" using assms by (simp add: groups_ok_def)
    with new have "line_key line \<notin> (\<lambda>p. line_key (fst p)) ` set ps" by (simp add: image_image)
    then have "filter (\<lambda>p. line_key (fst p) = line_key line) ps = []"
      unfolding filter_empty_conv by (metis imageI)
    with new show ?thesis by (simp add: group_of_def group_key_def line_key_def group_sum_def)
  qed
qed

lemma groups_ok_step:
  assumes ok: "groups_ok ps gs"
    and net: "Add (tt_Net (group_of iso4217 line lr gs)) (lr_Net lr) = Inr net"
    and tax: "Add (tt_Tax (group_of iso4217 line lr gs)) (lr_Tax lr) = Inr tax"
  shows "groups_ok (ps @ [(line, lr)]) (put_group ((group_of iso4217 line lr gs)\<lparr>tt_Net := net, tt_Tax := tax\<rparr>) gs)"
proof -
  let ?t = "(group_of iso4217 line lr gs)\<lparr>tt_Net := net, tt_Tax := tax\<rparr>"
  note g = group_of_ok [OF ok, of iso4217 line lr]
  have key: "group_key ?t = line_key line" using g by (simp add: group_key_def)
  have new: "amount net = i64 (group_sum (line_key line) lr_Net (ps @ [(line, lr)]))"
    "amount tax = i64 (group_sum (line_key line) lr_Tax (ps @ [(line, lr)]))"
    using net tax g by (auto simp: Add_Inr_iff i64_add_left)
  have d: "distinct (map group_key gs)" using ok by (simp add: groups_ok_def)
  have "distinct (map group_key (put_group ?t gs))"
    using d by (auto simp: keys_put_group)
  moreover have "group_key ` set (put_group ?t gs) = line_key ` fst ` set (ps @ [(line, lr)])"
    using ok key by (simp add: groups_ok_def key_set_put_group)
  moreover have "amount (tt_Net g) = i64 (group_sum (group_key g) lr_Net (ps @ [(line, lr)])) \<and>
      amount (tt_Tax g) = i64 (group_sum (group_key g) lr_Tax (ps @ [(line, lr)]))"
    if "g \<in> set (put_group ?t gs)" for g
    using that unfolding set_put_group [OF d] using new key ok
    by (elim disjE conjE) (simp_all add: groups_ok_def)
  ultimately show ?thesis by (auto simp: groups_ok_def)
qed

lemma calc_lines_ok:
  assumes "calc_lines iso4217 i lines res gs = Inr (res', gs')" "groups_ok (zip pre res) gs" "length pre = length res"
  shows "groups_ok (zip (pre @ lines) res') gs' \<and> (\<exists>new. res' = res @ new \<and> list_all2 (\<lambda>l r. calcLine l = Inr r) lines new)"
  using assms
proof (induction iso4217 i lines res gs arbitrary: pre rule: calc_lines.induct)
  case (2 iso4217 i line lines res gs)
  from "2.prems"(1) obtain lr net tax where s: "calcLine line = Inr lr"
    "Add (tt_Net (group_of iso4217 line lr gs)) (lr_Net lr) = Inr net"
    "Add (tt_Tax (group_of iso4217 line lr gs)) (lr_Tax lr) = Inr tax"
    "calc_lines iso4217 (i + 1) lines (res @ [lr])
       (put_group ((group_of iso4217 line lr gs)\<lparr>tt_Net := net, tt_Tax := tax\<rparr>) gs) = Inr (res', gs')"
    by (auto simp: Let_def split: sum.splits)
  have "groups_ok (zip (pre @ [line]) (res @ [lr])) (put_group ((group_of iso4217 line lr gs)\<lparr>tt_Net := net, tt_Tax := tax\<rparr>) gs)"
    using groups_ok_step [OF "2.prems"(2) s(2,3)] "2.prems"(3) by simp
  from "2.IH" [OF s(1) refl s(2,3,4) this] "2.prems"(3) s(1) show ?case by auto
qed simp

section \<open>Jurisdictions and seed packs\<close>

record jurisdiction_row =
  jr_tenant :: string
  jr_code :: string
  jr_name :: string
  jr_country :: string
  jr_level :: string
  jr_recorded_at :: int

record Jurisdiction =
  J_Code :: string
  J_Name :: string
  J_Country :: string
  J_Level :: string

definition validLevels :: "string \<Rightarrow> bool" where
  "validLevels l \<longleftrightarrow> l = ''country'' \<or> l = ''state'' \<or> l = ''province''"

definition SaveJurisdiction :: "int \<Rightarrow> string \<Rightarrow> Jurisdiction \<Rightarrow> (jurisdiction_row list, tax_error, unit) tx" where
  "SaveJurisdiction now tenant j rows =
     (if J_Code j = '''' \<or> J_Name j = '''' \<or> J_Country j = '''' then (Inl ErrJurisdictionRequired, rows)
      else if \<not> validLevels (J_Level j) then (Inl (ErrInvalidLevel (J_Level j)), rows)
      else (Inr (), rows @ [\<lparr>jr_tenant = tenant, jr_code = J_Code j, jr_name = J_Name j,
              jr_country = J_Country j, jr_level = J_Level j, jr_recorded_at = now\<rparr>]))"

definition ListJurisdictions :: "string \<Rightarrow> jurisdiction_row list \<Rightarrow> Jurisdiction list" where
  "ListJurisdictions tenant rows =
     map (\<lambda>r. \<lparr>J_Code = jr_code r, J_Name = jr_name r, J_Country = jr_country r, J_Level = jr_level r\<rparr>)
       (sort_key jr_code
         (filter (\<lambda>t. (jr_tenant t = tenant \<or> jr_tenant t = '''') \<and>
              (jr_tenant t = tenant \<or> \<not> (\<exists>o' \<in> set rows. jr_code o' = jr_code t \<and> jr_tenant o' = tenant))) rows))"

record seedRate =
  sr_Jurisdiction :: string
  sr_Category :: string
  sr_Rate :: string
  sr_Rounding :: string
  sr_AsOf :: string
  sr_Name :: string

record seedPack =
  sp_Country :: string
  sp_Jurisdictions :: "(string \<times> string \<times> string) list"
  sp_Rates :: "seedRate list"

type_synonym tax_tables = "jurisdiction_row list \<times> tax_row list"

fun seed_jurisdictions ::
  "int \<Rightarrow> string \<Rightarrow> (string \<times> string \<times> string) list \<Rightarrow> (tax_tables, tax_error, unit) tx" where
  "seed_jurisdictions now country [] db = (Inr (), db)"
| "seed_jurisdictions now country ((code, name, level) # js) (jt, rt) =
     (case SaveJurisdiction now '''' \<lparr>J_Code = code, J_Name = name, J_Country = country, J_Level = level\<rparr> jt of
        (Inl e, jt') \<Rightarrow> (Inl (ErrSeed code e), (jt', rt))
      | (Inr _, jt') \<Rightarrow> seed_jurisdictions now country js (jt', rt))"

fun seed_rates ::
  "(string \<Rightarrow> rat option) \<Rightarrow> int \<Rightarrow> string \<Rightarrow> seedRate list \<Rightarrow> (tax_tables, tax_error, unit) tx" where
  "seed_rates set_string now country [] db = (Inr (), db)"
| "seed_rates set_string now country (r # rs) (jt, rt) =
     (case parse_date (sr_AsOf r) of None \<Rightarrow> (Inl (ErrSeedDate (sr_AsOf r)), (jt, rt))
      | Some n \<Rightarrow>
     (case tax_SaveRate set_string now '''' \<lparr>TR_Jurisdiction = sr_Jurisdiction r, TR_Category = sr_Category r,
             TR_Rate = sr_Rate r, TR_Rounding = sr_Rounding r, TR_AsOf = (n - 719528) * day_ns,
             TR_Name = sr_Name r, TR_Provider = ''seed:'' @ country\<rparr> rt of
        (Inl e, rt') \<Rightarrow> (Inl (ErrSeed (sr_Jurisdiction r) e), (jt, rt'))
      | (Inr _, rt') \<Rightarrow> seed_rates set_string now country rs (jt, rt')))"

fun LoadSeedPacks :: "(string \<Rightarrow> rat option) \<Rightarrow> int \<Rightarrow> seedPack list \<Rightarrow> (tax_tables, tax_error, unit) tx" where
  "LoadSeedPacks set_string now [] db = (Inr (), db)"
| "LoadSeedPacks set_string now (p # ps) db =
     (case seed_jurisdictions now (sp_Country p) (sp_Jurisdictions p) db of
        (Inl e, db') \<Rightarrow> (Inl e, db')
      | (Inr _, db') \<Rightarrow>
     (case seed_rates set_string now (sp_Country p) (sp_Rates p) db' of
        (Inl e, db'') \<Rightarrow> (Inl e, db'')
      | (Inr _, db'') \<Rightarrow> LoadSeedPacks set_string now ps db''))"

section \<open>What is on file is usable\<close>

text \<open>Every stored rate is a non-negative number with a known rounding rule.\<close>

definition rates_ok :: "(string \<Rightarrow> rat option) \<Rightarrow> tax_row list \<Rightarrow> bool" where
  "rates_ok set_string rows \<longleftrightarrow>
     (\<forall>r \<in> set rows. (\<exists>v. set_string (tr_rate r) = Some v \<and> 0 \<le> v) \<and> is_ok (roundingMode (tr_rounding r)))"

lemma tax_SaveRate_outcome:
  "(\<exists>e. tax_SaveRate set_string now t r rows = (Inl e, rows)) \<or>
   (\<exists>rounding v. tax_SaveRate set_string now t r rows =
      (Inr (), rows @ [\<lparr>tenant_id = t, as_of = format_day (TR_AsOf r), tr_jurisdiction = TR_Jurisdiction r,
         tr_category = TR_Category r, tr_rate = TR_Rate r, tr_rounding = rounding, tr_name = TR_Name r,
         tr_provider = TR_Provider r, tr_recorded_at = now\<rparr>]) \<and>
      set_string (TR_Rate r) = Some v \<and> 0 \<le> v \<and> is_ok (roundingMode rounding))"
proof -
  have "is_ok (roundingMode ''half_even'')" by (simp add: roundingMode_def)
  then show ?thesis
    by (auto simp: tax_SaveRate_def Let_def split: option.splits sum.splits)
qed

lemma tax_SaveRate_cases:
  obtains (saved) rounding v where "tax_SaveRate set_string now t r rows =
      (Inr (), rows @ [\<lparr>tenant_id = t, as_of = format_day (TR_AsOf r), tr_jurisdiction = TR_Jurisdiction r,
         tr_category = TR_Category r, tr_rate = TR_Rate r, tr_rounding = rounding, tr_name = TR_Name r,
         tr_provider = TR_Provider r, tr_recorded_at = now\<rparr>])"
      "set_string (TR_Rate r) = Some v" "0 \<le> v" "is_ok (roundingMode rounding)"
  | (failed) e where "tax_SaveRate set_string now t r rows = (Inl e, rows)"
  using tax_SaveRate_outcome [of set_string now t r rows] by blast

lemma tax_SaveRate_ok: "rates_ok set_string rows \<Longrightarrow> rates_ok set_string (snd (tax_SaveRate set_string now t r rows))"
  by (cases rule: tax_SaveRate_cases [of set_string now t r rows]) (auto simp: rates_ok_def)

lemma seed_rates_ok:
  "rates_ok set_string (snd db) \<Longrightarrow> rates_ok set_string (snd (snd (seed_rates set_string now country rs db)))"
proof (induction set_string now country rs db rule: seed_rates.induct)
  case (2 set_string now country r rs jt rt)
  show ?case
  proof (cases "parse_date (sr_AsOf r)")
    case (Some n)
    let ?s = "tax_SaveRate set_string now '''' \<lparr>TR_Jurisdiction = sr_Jurisdiction r, TR_Category = sr_Category r,
      TR_Rate = sr_Rate r, TR_Rounding = sr_Rounding r, TR_AsOf = (n - 719528) * day_ns,
      TR_Name = sr_Name r, TR_Provider = ''seed:'' @ country\<rparr> rt"
    have ok: "rates_ok set_string (snd ?s)" using "2.prems" by (intro tax_SaveRate_ok) simp
    obtain out rt' where s: "?s = (out, rt')" by fastforce
    show ?thesis
    proof (cases out)
      case (Inr u)
      have "rates_ok set_string (snd (jt, rt'))" using ok s by simp
      from "2.IH" [OF Some s [symmetric] Inr this] s Some Inr show ?thesis by simp
    qed (use ok s Some in simp)
  qed (use "2.prems" in simp)
qed simp

lemma seed_jurisdictions_rates: "snd (snd (seed_jurisdictions now country js db)) = snd db"
proof (induction js arbitrary: db)
  case (Cons j js)
  then show ?case by (cases db; cases j) (auto split: sum.splits prod.splits)
qed simp

lemma LoadSeedPacks_ok:
  "rates_ok set_string (snd db) \<Longrightarrow> rates_ok set_string (snd (snd (LoadSeedPacks set_string now ps db)))"
proof (induction ps arbitrary: db)
  case (Cons p ps)
  have 1: "rates_ok set_string (snd (snd (seed_jurisdictions now (sp_Country p) (sp_Jurisdictions p) db)))"
    using Cons.prems by (simp add: seed_jurisdictions_rates)
  obtain o1 db1 where s1: "seed_jurisdictions now (sp_Country p) (sp_Jurisdictions p) db = (o1, db1)"
    by (metis surj_pair)
  have 2: "rates_ok set_string (snd (snd (seed_rates set_string now (sp_Country p) (sp_Rates p) db1)))"
    using 1 s1 by (intro seed_rates_ok) simp
  obtain o2 db2 where s2: "seed_rates set_string now (sp_Country p) (sp_Rates p) db1 = (o2, db2)"
    by (metis surj_pair)
  show ?case
    using 1 2 Cons.IH [of db2] s1 s2 by (auto split: sum.splits)
qed simp

section \<open>Properties\<close>

text \<open>C22: tax is split without losing a unit. When the tax of a line is computed, net, tax and gross have
  the line's currency and gross is the sum of net and tax. An inclusive line keeps its base as the gross,
  with the net the rounding of gross / (1 + rate), and the sum is exact in the integers; an exclusive line
  keeps its base as the net, with the tax the rounding of net times rate, and the sum is exact as long as
  it fits an \<open>int64\<close> (it wraps otherwise).\<close>

theorem calcLine_conserves:
  assumes "calcLine line = Inr lr" "int64 (amount (tl_Base line))"
  shows "\<exists>rate. tl_Rate line = Some rate \<and> 0 \<le> rate \<and>
    currency (lr_Net lr) = currency (tl_Base line) \<and> currency (lr_Tax lr) = currency (tl_Base line) \<and>
    currency (lr_Gross lr) = currency (tl_Base line) \<and>
    amount (lr_Gross lr) = i64 (amount (lr_Net lr) + amount (lr_Tax lr)) \<and>
    (if tl_Inclusive line
     then lr_Gross lr = tl_Base line \<and> amount (lr_Net lr) + amount (lr_Tax lr) = amount (lr_Gross lr) \<and>
       rounds_to (tl_Rounding line) (of_int (amount (tl_Base line)) / (1 + rate)) (amount (lr_Net lr))
     else lr_Net lr = tl_Base line \<and>
       rounds_to (tl_Rounding line) (of_int (amount (tl_Base line)) * rate) (amount (lr_Tax lr)))"
proof (cases "tl_Inclusive line")
  case True
  with calcLine_inclusive [OF True assms] assms(2) rounds_to_roundRat show ?thesis by auto
next
  case False
  with calcLine_exclusive [OF False assms(1)] rounds_to_roundRat show ?thesis by auto
qed

definition vat_line :: "int \<Rightarrow> bool \<Rightarrow> tax_Line" where
  "vat_line a incl = \<lparr>tl_Jurisdiction = ''DE'', tl_Category = ''standard'', tl_Base = \<lparr>amount = a, currency = ''EUR''\<rparr>,
     tl_Rate = Some (1 / 5), tl_Rounding = HalfUp, tl_Inclusive = incl\<rparr>"

lemma roundRat_example: "roundRat (500 / 3) HalfUp = 167"
  by (simp add: roundRat_iff rounds_to_def)

lemma calcLine_example:
  "calcLine (vat_line 200 True) = Inr \<lparr>lr_Net = \<lparr>amount = 167, currency = ''EUR''\<rparr>,
     lr_Tax = \<lparr>amount = 33, currency = ''EUR''\<rparr>, lr_Gross = \<lparr>amount = 200, currency = ''EUR''\<rparr>\<rparr>"
  using roundRat_example
  by (simp add: calcLine_def vat_line_def MulRat_def Sub_def Let_def int64_def)

theorem calcLine_conserves_witness:
  "\<exists>rate. tl_Rate (vat_line 200 True) = Some rate \<and> 0 \<le> rate \<and>
    rounds_to HalfUp (200 / (1 + rate)) 167 \<and> 167 + 33 = (200 :: int)"
  using calcLine_conserves [OF calcLine_example] by (auto simp: vat_line_def int64_def)

text \<open>C23: document totals are the sums of the lines. \<open>Calculate\<close> returns one result per line, in order, each
  the \<open>calcLine\<close> of its line; the totals have strictly increasing (jurisdiction, category) keys, exactly
  the keys of the lines, and each total's net and tax are the (wrapping) sums of the nets and taxes of the
  lines with its key.\<close>

theorem Calculate_totals:
  assumes "Calculate iso4217 lines = Inr res"
  shows "list_all2 (\<lambda>l r. calcLine l = Inr r) lines (res_Lines res) \<and>
    sorted_wrt (<) (map group_key (res_Totals res)) \<and> group_key ` set (res_Totals res) = line_key ` set lines \<and>
    (\<forall>t \<in> set (res_Totals res).
      amount (tt_Net t) = i64 (group_sum (group_key t) lr_Net (zip lines (res_Lines res))) \<and>
      amount (tt_Tax t) = i64 (group_sum (group_key t) lr_Tax (zip lines (res_Lines res))))"
proof -
  from assms obtain gs where c: "calc_lines iso4217 0 lines [] [] = Inr (res_Lines res, gs)"
    and t: "res_Totals res = sort_key group_key gs"
    by (auto simp: Calculate_def split: sum.splits)
  have "groups_ok (zip [] []) []" by (simp add: groups_ok_def)
  from calc_lines_ok [OF c this] have ok: "groups_ok (zip lines (res_Lines res)) gs"
    and lines: "list_all2 (\<lambda>l r. calcLine l = Inr r) lines (res_Lines res)" by auto
  have "distinct (map group_key (sort_key group_key gs))"
    using ok by (simp add: groups_ok_def distinct_map)
  then have "sorted_wrt (<) (map group_key (sort_key group_key gs))"
    using strict_sorted_iff by (metis sorted_sort_key)
  moreover have "fst ` set (zip lines (res_Lines res)) = set lines"
    using list_all2_lengthD [OF lines] by (metis map_fst_zip set_map)
  ultimately show ?thesis
    using ok lines unfolding t by (simp add: groups_ok_def)
qed

theorem Calculate_totals_witness:
  "\<exists>res. Calculate iso_example [vat_line 200 True, vat_line 200 True] = Inr res \<and>
    group_key ` set (res_Totals res) = {(''DE'', ''standard'')}"
proof -
  have "\<exists>res. Calculate iso_example [vat_line 200 True, vat_line 200 True] = Inr res"
    using calcLine_example
    by (simp add: Calculate_def Let_def group_of_def zero_money_def Zero_def New_def Lookup_example Add_def)
  then obtain res where r: "Calculate iso_example [vat_line 200 True, vat_line 200 True] = Inr res" by blast
  with Calculate_totals [OF r] show ?thesis by (simp add: line_key_def vat_line_def)
qed

text \<open>C24: tenants do not see each other's tax rates (INV-T1). A rate saved by another tenant (not the global
  one) never changes what a tenant's document resolves to.\<close>

theorem ResolveAndCalculate_isolated:
  assumes "other \<noteq> tenant" "other \<noteq> ''''"
  shows "ResolveAndCalculate iso4217 set_string (snd (tax_SaveRate set_string now other r rows)) tenant lines date =
    ResolveAndCalculate iso4217 set_string rows tenant lines date"
proof (cases rule: tax_SaveRate_cases [of set_string now other r rows])
  case (saved rounding v)
  have "tax_RateAsOf set_string (snd (tax_SaveRate set_string now other r rows)) tenant j c date =
      tax_RateAsOf set_string rows tenant j c date" for j c
    unfolding saved(1) snd_conv tax_RateAsOf_def
    by (subst rate_rows.other_tenants_invisible) (use assms in simp_all)
  then have "resolve_line set_string (snd (tax_SaveRate set_string now other r rows)) tenant date =
      resolve_line set_string rows tenant date"
    unfolding resolve_line_def by presburger
  then show ?thesis by (simp add: ResolveAndCalculate_def)
qed simp

theorem ResolveAndCalculate_isolated_witness:
  "ResolveAndCalculate iso_example read_decimal (snd (tax_SaveRate read_decimal 0 ''rival''
      \<lparr>TR_Jurisdiction = ''DE'', TR_Category = ''standard'', TR_Rate = ''0.20'', TR_Rounding = '''', TR_AsOf = 0,
       TR_Name = ''VAT'', TR_Provider = ''''\<rparr> [])) ''acme''
      [\<lparr>dl_Jurisdiction = ''DE'', dl_Category = ''standard'', dl_Base = \<lparr>amount = 200, currency = ''EUR''\<rparr>,
        dl_Inclusive = True\<rparr>] 0 = Inl (ErrTaxRateNotFound ''DE'' ''standard'')"
  by (subst ResolveAndCalculate_isolated)
    (simp_all add: ResolveAndCalculate_def resolve_line_def tax_RateAsOf_def find_effective_def)

text \<open>the seed packs leave only usable rates. Loading any packs keeps every stored rate a
  non-negative number with a known rounding rule, and whatever then is on file resolves to a line whose
  tax is computed, or to an overflow of the amounts, never to a corrupt rate.\<close>

theorem LoadSeedPacks_resolves:
  assumes "rates_ok set_string (snd db)"
    and "rates = snd (snd (LoadSeedPacks set_string now packs db))"
  shows "rates_ok set_string rates \<and>
    (resolve_line set_string rates tenant date dl = Inl (ErrTaxRateNotFound (dl_Jurisdiction dl) (dl_Category dl)) \<or>
     (\<exists>line. resolve_line set_string rates tenant date dl = Inr line \<and>
        ((\<exists>lr. calcLine line = Inr lr) \<or> calcLine line = Inl (TaxMoney ErrAmountOverflow))))"
proof -
  have ok: "rates_ok set_string rates" using LoadSeedPacks_ok [OF assms(1)] assms(2) by simp
  let ?p = "\<lambda>r. tr_jurisdiction r = dl_Jurisdiction dl \<and> tr_category r = dl_Category dl"
  show ?thesis
  proof (cases "find_effective tenant ?p (format_day date) rates")
    case None
    with ok show ?thesis by (simp add: resolve_line_def tax_RateAsOf_def)
  next
    case (Some row)
    from rate_rows.find_sound [OF Some] have "row \<in> set rates" by simp
    with ok obtain v mode where r: "set_string (tr_rate row) = Some v" "0 \<le> v" "roundingMode (tr_rounding row) = Inr mode"
      by (auto simp: rates_ok_def is_ok_iff)
    let ?line = "\<lparr>tl_Jurisdiction = dl_Jurisdiction dl, tl_Category = dl_Category dl, tl_Base = dl_Base dl,
      tl_Rate = Some v, tl_Rounding = mode, tl_Inclusive = dl_Inclusive dl\<rparr>"
    have "resolve_line set_string rates tenant date dl = Inr ?line"
      using Some r by (simp add: resolve_line_def tax_RateAsOf_def)
    moreover have "(\<exists>lr. calcLine ?line = Inr lr) \<or> calcLine ?line = Inl (TaxMoney ErrAmountOverflow)"
      using r(2) by (auto simp: calcLine_def MulRat_def Add_def Sub_def Let_def split: sum.splits if_splits)
    ultimately show ?thesis using ok by blast
  qed
qed

theorem LoadSeedPacks_resolves_witness:
  "rates_ok read_decimal (snd (snd (LoadSeedPacks read_decimal 0
     [\<lparr>sp_Country = ''DE'', sp_Jurisdictions = [(''DE'', ''Germany'', ''country'')],
       sp_Rates = [\<lparr>sr_Jurisdiction = ''DE'', sr_Category = ''standard'', sr_Rate = ''0.20'', sr_Rounding = '''',
         sr_AsOf = ''2024-01-01'', sr_Name = ''VAT''\<rparr>]\<rparr>] ([], []))))"
proof -
  have "rates_ok read_decimal (snd ([], []))" by (simp add: rates_ok_def)
  from LoadSeedPacks_resolves [OF this refl] show ?thesis by blast
qed

end
