(* ===== verification/Authz.thy ===== *)
theory Authz
  imports Prelude
begin

text \<open>
  \<open>kernel/authz\<close>: roles, permission grants, role assignments and the two gates, \<open>Authorize\<close> (no
  record at hand, unconditional grants only) and \<open>AuthorizeGrants\<close> / \<open>Allow\<close> (the record decides
  conditional grants). The three tables are lists of rows with their unique keys and references
  checked as the migrations declare them; the actor of a request context is an option.

  Conditions are CEL expressions run by \<open>github.com/google/cel-go\<close> through \<open>kernel/expr\<close>: compiling
  and evaluating are the parameters \<open>compiles\<close> and \<open>eval\<close> (\<open>None\<close> is an evaluation error).
\<close>

record Actor =
  TenantID :: string
  UserID :: string

record role_row =
  ro_id :: string
  ro_tenant :: string
  ro_name :: string
  ro_core :: bool

record permission_row =
  pe_id :: string
  pe_tenant :: string
  pe_role :: string
  pe_object :: string
  pe_action :: string
  pe_condition :: "string option"

record user_role_row =
  ur_tenant :: string
  ur_user :: string
  ur_role :: string

record authz_db =
  roles :: "role_row list"
  role_permissions :: "permission_row list"
  user_roles :: "user_role_row list"

datatype authz_error =
    ErrNoActor
  | ErrPermissionDenied
  | ErrCorePermissionFloor
  | ErrAuthzRequired
  | ErrConditionUnsupportedAction string
  | ErrConditionInvalid string
  | ErrUniqueViolation
  | ErrForeignKeyViolation
  | ErrRoleNotFound

section \<open>The actor\<close>

definition valid_actor :: "Actor \<Rightarrow> bool" where
  "valid_actor a \<longleftrightarrow> TenantID a \<noteq> '''' \<and> UserID a \<noteq> ''''"

definition ActorFromContext :: "Actor option \<Rightarrow> authz_error + Actor" where
  "ActorFromContext ctx =
     (case ctx of None \<Rightarrow> Inl ErrNoActor | Some a \<Rightarrow> if valid_actor a then Inr a else Inl ErrNoActor)"

section \<open>Roles and grants\<close>

definition CreateRole ::
  "string \<Rightarrow> string \<Rightarrow> string \<Rightarrow> bool \<Rightarrow> ('x authz_db_scheme, authz_error, string) tx" where
  "CreateRole fresh tenant name isCore db =
     (if tenant = '''' \<or> name = '''' then (Inl ErrAuthzRequired, db)
      else if (\<exists>r \<in> set (roles db). ro_id r = fresh \<or> (ro_tenant r = tenant \<and> ro_name r = name))
      then (Inl ErrUniqueViolation, db)
      else (Inr fresh, db\<lparr>roles := roles db @
             [\<lparr>ro_id = fresh, ro_tenant = tenant, ro_name = name, ro_core = isCore\<rparr>]\<rparr>))"

definition ConditionalActions :: "string \<Rightarrow> bool" where
  "ConditionalActions a \<longleftrightarrow> a = ''create'' \<or> a = ''update'' \<or> a = ''delete''"

definition validateCondition :: "(string \<Rightarrow> bool) \<Rightarrow> string \<Rightarrow> string \<Rightarrow> authz_error + unit" where
  "validateCondition compiles action condition =
     (if condition = '''' then Inr ()
      else if \<not> ConditionalActions action then Inl (ErrConditionUnsupportedAction action)
      else if \<not> compiles condition then Inl (ErrConditionInvalid condition)
      else Inr ())"

definition GrantPermission ::
  "dialect \<Rightarrow> (string \<Rightarrow> bool) \<Rightarrow> string \<Rightarrow> string \<Rightarrow> string \<Rightarrow> string \<Rightarrow> string \<Rightarrow> string \<Rightarrow>
     ('x authz_db_scheme, authz_error, unit) tx" where
  "GrantPermission dial compiles fresh tenant role object action condition db =
     (if tenant = '''' \<or> role = '''' \<or> object = '''' \<or> action = '''' then (Inl ErrAuthzRequired, db)
      else
     (case validateCondition compiles action condition of Inl e \<Rightarrow> (Inl e, db)
      | Inr _ \<Rightarrow>
          if (\<exists>p \<in> set (role_permissions db). pe_id p = fresh \<or>
                (pe_role p = role \<and> pe_object p = object \<and> pe_action p = action))
          then (Inl ErrUniqueViolation, db)
          else if dial = Postgres \<and> \<not> (\<exists>r \<in> set (roles db). ro_id r = role) then (Inl ErrForeignKeyViolation, db)
          else (Inr (), db\<lparr>role_permissions := role_permissions db @
                 [\<lparr>pe_id = fresh, pe_tenant = tenant, pe_role = role, pe_object = object, pe_action = action,
                   pe_condition = (if condition = '''' then None else Some condition)\<rparr>]\<rparr>)))"

definition role_is_core :: "string \<Rightarrow> string \<Rightarrow> 'x authz_db_scheme \<Rightarrow> bool option" where
  "role_is_core tenant role db =
     map_option ro_core (List.find (\<lambda>r. ro_tenant r = tenant \<and> ro_id r = role) (roles db))"

definition RevokePermission ::
  "string \<Rightarrow> string \<Rightarrow> string \<Rightarrow> string \<Rightarrow> ('x authz_db_scheme, authz_error, unit) tx" where
  "RevokePermission tenant role object action db =
     (case role_is_core tenant role db of
        None \<Rightarrow> (Inr (), db)
      | Some core \<Rightarrow>
          if core then (Inl ErrCorePermissionFloor, db)
          else (Inr (), db\<lparr>role_permissions := filter (\<lambda>p. \<not> (pe_tenant p = tenant \<and> pe_role p = role \<and>
                  pe_object p = object \<and> pe_action p = action)) (role_permissions db)\<rparr>))"

definition AssignRole :: "dialect \<Rightarrow> string \<Rightarrow> string \<Rightarrow> string \<Rightarrow> ('x authz_db_scheme, authz_error, unit) tx" where
  "AssignRole dial tenant user role db =
     (if tenant = '''' \<or> user = '''' \<or> role = '''' then (Inl ErrAuthzRequired, db)
      else if (\<exists>u \<in> set (user_roles db). ur_user u = user \<and> ur_role u = role) then (Inl ErrUniqueViolation, db)
      else if dial = Postgres \<and> \<not> (\<exists>r \<in> set (roles db). ro_id r = role) then (Inl ErrForeignKeyViolation, db)
      else (Inr (), db\<lparr>user_roles := user_roles db @ [\<lparr>ur_tenant = tenant, ur_user = user, ur_role = role\<rparr>]\<rparr>))"

text \<open>On Postgres the assignments of another tenant are hidden from the second statement but still
  reference the role, so the last statement can fail.\<close>

definition DeleteRole :: "dialect \<Rightarrow> string \<Rightarrow> string \<Rightarrow> ('x authz_db_scheme, authz_error, unit) tx" where
  "DeleteRole dial tenant role db =
     (if tenant = '''' \<or> role = '''' then (Inl ErrAuthzRequired, db)
      else
     (case role_is_core tenant role db of
        None \<Rightarrow> (Inr (), db)
      | Some core \<Rightarrow>
          if core then (Inl ErrCorePermissionFloor, db)
          else
            let perms = filter (\<lambda>p. \<not> (pe_tenant p = tenant \<and> pe_role p = role)) (role_permissions db);
                users = filter (\<lambda>u. \<not> (ur_tenant u = tenant \<and> ur_role u = role)) (user_roles db)
            in if dial = Postgres \<and> ((\<exists>p \<in> set perms. pe_role p = role) \<or> (\<exists>u \<in> set users. ur_role u = role))
               then (Inl ErrForeignKeyViolation, db)
               else (Inr (), db\<lparr>role_permissions := perms, user_roles := users,
                       roles := filter (\<lambda>r. \<not> (ro_tenant r = tenant \<and> ro_id r = role)) (roles db)\<rparr>)))"

definition RoleByName :: "string \<Rightarrow> string \<Rightarrow> 'x authz_db_scheme \<Rightarrow> authz_error + string" where
  "RoleByName tenant name db =
     (if tenant = '''' \<or> name = '''' then Inl ErrAuthzRequired
      else (case List.find (\<lambda>r. ro_tenant r = tenant \<and> ro_name r = name) (roles db) of
              None \<Rightarrow> Inl ErrRoleNotFound | Some r \<Rightarrow> Inr (ro_id r)))"

section \<open>Reading grants\<close>

text \<open>The join of a tenant's permissions with an actor's roles.\<close>

definition held :: "Actor \<Rightarrow> 'x authz_db_scheme \<Rightarrow> permission_row list" where
  "held actor db =
     [rp. rp \<leftarrow> role_permissions db, ur \<leftarrow> user_roles db,
          ur_role ur = pe_role rp \<and> ur_tenant ur = pe_tenant rp \<and> pe_tenant rp = TenantID actor \<and> ur_user ur = UserID actor]"

definition condition_text :: "permission_row \<Rightarrow> string" where
  "condition_text p = (case pe_condition p of None \<Rightarrow> '''' | Some c \<Rightarrow> c)"

definition Can :: "'x authz_db_scheme \<Rightarrow> Actor \<Rightarrow> string \<Rightarrow> string \<Rightarrow> authz_error + bool" where
  "Can db actor object action =
     (if \<not> valid_actor actor then Inl ErrNoActor
      else Inr (0 < length (filter (\<lambda>p. pe_object p = object \<and> pe_action p = action \<and>
              (pe_condition p = None \<or> pe_condition p = Some '''')) (held actor db))))"

definition GrantedObjects :: "'x authz_db_scheme \<Rightarrow> Actor \<Rightarrow> string \<Rightarrow> authz_error + string list" where
  "GrantedObjects db actor action =
     (if \<not> valid_actor actor then Inl ErrNoActor
      else if action = '''' then Inl ErrAuthzRequired
      else Inr (sort (remdups (map pe_object (filter (\<lambda>p. pe_action p = action \<and>
              (pe_condition p = None \<or> pe_condition p = Some '''')) (held actor db))))))"

definition Authorize :: "'x authz_db_scheme \<Rightarrow> Actor option \<Rightarrow> string \<Rightarrow> string \<Rightarrow> authz_error + Actor" where
  "Authorize db ctx object action =
     (case ActorFromContext ctx of Inl e \<Rightarrow> Inl e
      | Inr actor \<Rightarrow>
     (case Can db actor object action of Inl e \<Rightarrow> Inl e
      | Inr ok \<Rightarrow> if \<not> ok then Inl ErrPermissionDenied else Inr actor))"

definition RolesFor :: "'x authz_db_scheme \<Rightarrow> Actor \<Rightarrow> authz_error + string list" where
  "RolesFor db actor =
     (if \<not> valid_actor actor then Inl ErrNoActor
      else Inr (sort [ro_name r. r \<leftarrow> roles db, ur \<leftarrow> user_roles db,
              ur_role ur = ro_id r \<and> ur_tenant ur = ro_tenant r \<and> ro_tenant r = TenantID actor \<and> ur_user ur = UserID actor]))"

section \<open>The record-bearing gate\<close>

record expr_Actor =
  ea_ID :: string
  ea_Tenant :: string
  ea_Roles :: "string list"

record Grant =
  g_Object :: string
  g_Action :: string
  g_Condition :: string

record GrantSet =
  grants :: "Grant list"
  set_actor :: expr_Actor

type_synonym 'rec cel_eval = "string \<Rightarrow> 'rec \<Rightarrow> expr_Actor \<Rightarrow> bool option"

definition AnyGrant :: "GrantSet \<Rightarrow> bool" where
  "AnyGrant g \<longleftrightarrow> grants g \<noteq> []"

definition Unconditional :: "GrantSet \<Rightarrow> bool" where
  "Unconditional g \<longleftrightarrow> (\<exists>gr \<in> set (grants g). g_Condition gr = '''')"

definition needsRoles :: "GrantSet \<Rightarrow> bool" where
  "needsRoles g \<longleftrightarrow> (\<exists>gr \<in> set (grants g). g_Condition gr \<noteq> '''')"

fun allow_grants :: "(string \<Rightarrow> bool) \<Rightarrow> 'rec cel_eval \<Rightarrow> expr_Actor \<Rightarrow> 'rec \<Rightarrow> Grant list \<Rightarrow> bool" where
  "allow_grants compiles eval actor rec [] = False"
| "allow_grants compiles eval actor rec (gr # grs) =
     (if g_Condition gr = '''' then True
      else if \<not> compiles (g_Condition gr) then allow_grants compiles eval actor rec grs
      else (case eval (g_Condition gr) rec actor of
              Some True \<Rightarrow> True
            | _ \<Rightarrow> allow_grants compiles eval actor rec grs))"

definition Allow :: "(string \<Rightarrow> bool) \<Rightarrow> 'rec cel_eval \<Rightarrow> GrantSet \<Rightarrow> 'rec \<Rightarrow> bool" where
  "Allow compiles eval g rec = allow_grants compiles eval (set_actor g) rec (grants g)"

definition GrantsFor :: "'x authz_db_scheme \<Rightarrow> Actor \<Rightarrow> string \<Rightarrow> string \<Rightarrow> authz_error + GrantSet" where
  "GrantsFor db actor object action =
     (if \<not> valid_actor actor then Inl ErrNoActor
      else if object = '''' \<or> action = '''' then Inl ErrAuthzRequired
      else
        let gs = map (\<lambda>p. \<lparr>g_Object = object, g_Action = action, g_Condition = condition_text p\<rparr>)
                   (filter (\<lambda>p. pe_object p = object \<and> pe_action p = action) (held actor db));
            a = \<lparr>ea_ID = UserID actor, ea_Tenant = TenantID actor, ea_Roles = []\<rparr>;
            s = \<lparr>grants = gs, set_actor = a\<rparr>
        in if \<not> needsRoles s then Inr s
           else (case RolesFor db actor of Inl e \<Rightarrow> Inl e
                 | Inr names \<Rightarrow> Inr \<lparr>grants = gs, set_actor = a\<lparr>ea_Roles := names\<rparr>\<rparr>))"

definition AuthorizeGrants ::
  "'x authz_db_scheme \<Rightarrow> Actor option \<Rightarrow> string \<Rightarrow> string \<Rightarrow> authz_error + Actor \<times> GrantSet" where
  "AuthorizeGrants db ctx object action =
     (case ActorFromContext ctx of Inl e \<Rightarrow> Inl e
      | Inr actor \<Rightarrow>
     (case GrantsFor db actor object action of Inl e \<Rightarrow> Inl e
      | Inr s \<Rightarrow> if \<not> AnyGrant s then Inl ErrPermissionDenied else Inr (actor, s)))"

definition AuthorizeRecord ::
  "(string \<Rightarrow> bool) \<Rightarrow> 'rec cel_eval \<Rightarrow> 'x authz_db_scheme \<Rightarrow> Actor option \<Rightarrow> string \<Rightarrow> string \<Rightarrow> 'rec \<Rightarrow>
     authz_error + Actor" where
  "AuthorizeRecord compiles eval db ctx object action rec =
     (case AuthorizeGrants db ctx object action of Inl e \<Rightarrow> Inl e
      | Inr (actor, s) \<Rightarrow> if \<not> Allow compiles eval s rec then Inl ErrPermissionDenied else Inr actor)"

section \<open>Facts about the gates\<close>

lemma set_held:
  "p \<in> set (held a db) \<longleftrightarrow> p \<in> set (role_permissions db) \<and> pe_tenant p = TenantID a \<and>
     (\<exists>u \<in> set (user_roles db). ur_role u = pe_role p \<and> ur_tenant u = TenantID a \<and> ur_user u = UserID a)"
  by (auto simp: held_def)

definition actor_facts :: "'x authz_db_scheme \<Rightarrow> Actor \<Rightarrow> expr_Actor" where
  "actor_facts db a = \<lparr>ea_ID = UserID a, ea_Tenant = TenantID a,
     ea_Roles = (case RolesFor db a of Inl _ \<Rightarrow> [] | Inr names \<Rightarrow> names)\<rparr>"

lemma allow_grants_iff:
  "allow_grants compiles eval a rec gs \<longleftrightarrow>
     (\<exists>g \<in> set gs. g_Condition g = '''' \<or> (compiles (g_Condition g) \<and> eval (g_Condition g) rec a = Some True))"
  by (induction compiles eval a rec gs rule: allow_grants.induct) (auto split: option.splits bool.splits)

lemma Allow_GrantsFor:
  assumes "GrantsFor db a object action = Inr s"
  shows "Allow compiles eval s rec \<longleftrightarrow>
    (\<exists>p \<in> set (held a db). pe_object p = object \<and> pe_action p = action \<and>
       (condition_text p = '''' \<or>
        (compiles (condition_text p) \<and> eval (condition_text p) rec (actor_facts db a) = Some True)))"
proof -
  have gs: "grants s = map (\<lambda>p. \<lparr>g_Object = object, g_Action = action, g_Condition = condition_text p\<rparr>)
      (filter (\<lambda>p. pe_object p = object \<and> pe_action p = action) (held a db))"
    using assms by (auto simp: GrantsFor_def Let_def split: if_splits sum.splits)
  have "set_actor s = actor_facts db a" if "\<exists>g \<in> set (grants s). g_Condition g \<noteq> ''''"
    using assms that unfolding gs
    by (auto simp: GrantsFor_def Let_def needsRoles_def actor_facts_def split: if_splits sum.splits)
  note facts = this
  show ?thesis
  proof (cases "\<exists>g \<in> set (grants s). g_Condition g \<noteq> ''''")
    case True
    show ?thesis unfolding Allow_def allow_grants_iff facts [OF True] gs by auto
  next
    case False
    then have "\<forall>p \<in> set (held a db). pe_object p = object \<and> pe_action p = action \<longrightarrow> condition_text p = ''''"
      unfolding gs by auto
    then show ?thesis unfolding Allow_def allow_grants_iff gs by auto
  qed
qed

lemma GrantsFor_Inr_iff:
  "(\<exists>s. GrantsFor db a object action = Inr s) \<longleftrightarrow> valid_actor a \<and> object \<noteq> '''' \<and> action \<noteq> ''''"
  by (auto simp: GrantsFor_def Let_def RolesFor_def)

lemma AnyGrant_GrantsFor:
  "GrantsFor db a object action = Inr s \<Longrightarrow>
     AnyGrant s \<longleftrightarrow> (\<exists>p \<in> set (held a db). pe_object p = object \<and> pe_action p = action)"
  by (auto simp: GrantsFor_def Let_def AnyGrant_def filter_empty_conv split: if_splits sum.splits)

lemma Allow_AnyGrant: "Allow compiles eval s rec \<Longrightarrow> AnyGrant s"
  by (auto simp: Allow_def AnyGrant_def)

lemma ActorFromContext_Inr [simp]: "ActorFromContext ctx = Inr a \<longleftrightarrow> ctx = Some a \<and> valid_actor a"
  by (auto simp: ActorFromContext_def split: option.splits)

lemma unconditional_text: "pe_condition p = None \<or> pe_condition p = Some '''' \<longleftrightarrow> condition_text p = ''''"
  by (auto simp: condition_text_def split: option.splits)

lemma Can_iff:
  "Can db a object action = Inr True \<longleftrightarrow> valid_actor a \<and>
     (\<exists>p \<in> set (held a db). pe_object p = object \<and> pe_action p = action \<and> condition_text p = '''')"
  by (auto simp: Can_def unconditional_text filter_empty_conv)

lemma Authorize_iff:
  "Authorize db ctx object action = Inr a \<longleftrightarrow> ctx = Some a \<and> Can db a object action = Inr True"
proof (cases "ctx = Some a \<and> valid_actor a")
  case True
  then show ?thesis by (auto simp: Authorize_def ActorFromContext_def split: sum.splits)
next
  case False
  then show ?thesis
    by (auto simp: Authorize_def ActorFromContext_def Can_iff split: sum.splits option.splits if_splits)
qed

lemma AuthorizeRecord_allow:
  "AuthorizeRecord compiles eval db ctx object action rec = Inr a \<longleftrightarrow>
     ctx = Some a \<and> valid_actor a \<and> (\<exists>s. GrantsFor db a object action = Inr s \<and> Allow compiles eval s rec)"
  by (auto simp: AuthorizeRecord_def AuthorizeGrants_def ActorFromContext_def dest: Allow_AnyGrant
      split: sum.splits option.splits if_splits prod.splits)

text \<open>An unconditional grant passes both gates.\<close>

lemma Authorize_AuthorizeRecord:
  assumes "Authorize db ctx object action = Inr a" "object \<noteq> ''''" "action \<noteq> ''''"
  shows "AuthorizeRecord compiles eval db ctx object action rec = Inr a"
proof -
  from assms obtain s where s: "GrantsFor db a object action = Inr s"
    using GrantsFor_Inr_iff [of db a object action] by (auto simp: Authorize_iff Can_iff)
  with assms show ?thesis
    by (auto simp: AuthorizeRecord_allow Allow_GrantsFor [OF s] Authorize_iff Can_iff)
qed

section \<open>Sequences of administrative operations\<close>

datatype authz_op =
    OpCreateRole string string string bool
  | OpGrant string string string string string string
  | OpRevoke string string string string
  | OpAssign string string string
  | OpDelete string string

fun op_tenant :: "authz_op \<Rightarrow> string" where
  "op_tenant (OpCreateRole fresh t name core) = t"
| "op_tenant (OpGrant fresh t role object action condition) = t"
| "op_tenant (OpRevoke t role object action) = t"
| "op_tenant (OpAssign t user role) = t"
| "op_tenant (OpDelete t role) = t"

fun authz_exec :: "dialect \<Rightarrow> (string \<Rightarrow> bool) \<Rightarrow> authz_op \<Rightarrow> 'x authz_db_scheme \<Rightarrow> 'x authz_db_scheme" where
  "authz_exec dial compiles (OpCreateRole fresh t name core) db = snd (CreateRole fresh t name core db)"
| "authz_exec dial compiles (OpGrant fresh t role object action condition) db =
     snd (GrantPermission dial compiles fresh t role object action condition db)"
| "authz_exec dial compiles (OpRevoke t role object action) db = snd (RevokePermission t role object action db)"
| "authz_exec dial compiles (OpAssign t user role) db = snd (AssignRole dial t user role db)"
| "authz_exec dial compiles (OpDelete t role) db = snd (DeleteRole dial t role db)"

inductive authz_reach :: "dialect \<Rightarrow> (string \<Rightarrow> bool) \<Rightarrow> 'x authz_db_scheme \<Rightarrow> 'x authz_db_scheme \<Rightarrow> bool"
  for dial compiles db0 where
  start: "authz_reach dial compiles db0 db0"
| step: "authz_reach dial compiles db0 db \<Longrightarrow> authz_reach dial compiles db0 (authz_exec dial compiles op db)"

inductive_cases authz_reachE: "authz_reach dial compiles db0 db"

definition roles_keyed :: "'x authz_db_scheme \<Rightarrow> bool" where
  "roles_keyed db \<longleftrightarrow> distinct (map ro_id (roles db))"

lemma role_is_core_keyed:
  assumes "roles_keyed db" "r \<in> set (roles db)" "role_is_core t (ro_id r) db = Some c"
  shows "c = ro_core r \<and> t = ro_tenant r"
proof -
  from assms(3) obtain r' where "r' \<in> set (roles db)" "ro_tenant r' = t" "ro_id r' = ro_id r" "c = ro_core r'"
    by (auto simp: role_is_core_def dest!: find_SomeD)
  with assms(1,2) have "r' = r" by (auto simp: roles_keyed_def distinct_map inj_on_def)
  with \<open>c = ro_core r'\<close> \<open>ro_tenant r' = t\<close> show ?thesis by simp
qed

lemma roles_keyed_exec: "roles_keyed db \<Longrightarrow> roles_keyed (authz_exec dial compiles op db)"
proof (cases op)
  case (OpDelete t role)
  assume "roles_keyed db"
  then have "distinct (map ro_id (filter P (roles db)))" for P
    by (simp add: roles_keyed_def distinct_map_filter)
  with OpDelete \<open>roles_keyed db\<close> show ?thesis
    by (auto simp: DeleteRole_def Let_def roles_keyed_def split: option.splits)
qed (auto simp: roles_keyed_def CreateRole_def GrantPermission_def RevokePermission_def AssignRole_def
    split: sum.splits option.splits)

lemma core_floor_exec:
  assumes "roles_keyed db" "r \<in> set (roles db)" "ro_core r"
  shows "r \<in> set (roles (authz_exec dial compiles op db))"
    and "p \<in> set (role_permissions db) \<Longrightarrow> pe_role p = ro_id r \<Longrightarrow>
      p \<in> set (role_permissions (authz_exec dial compiles op db))"
proof -
  have core: "role_is_core t (ro_id r) db \<noteq> Some False" for t
    using role_is_core_keyed [OF assms(1,2)] assms(3) by blast
  have "r \<in> set (roles (authz_exec dial compiles op db)) \<and>
    (p \<in> set (role_permissions db) \<longrightarrow> pe_role p = ro_id r \<longrightarrow> p \<in> set (role_permissions (authz_exec dial compiles op db)))"
  proof (cases op)
    case (OpRevoke t role object action)
    with core [of t] assms show ?thesis by (auto simp: RevokePermission_def split: option.splits)
  next
    case (OpDelete t role)
    with core [of t] assms show ?thesis by (auto simp: DeleteRole_def Let_def split: option.splits)
  qed (use assms in \<open>auto simp: CreateRole_def GrantPermission_def AssignRole_def split: sum.splits\<close>)
  then show "r \<in> set (roles (authz_exec dial compiles op db))"
    and "p \<in> set (role_permissions db) \<Longrightarrow> pe_role p = ro_id r \<Longrightarrow>
      p \<in> set (role_permissions (authz_exec dial compiles op db))" by blast+
qed

text \<open>What an actor holds depends on the rows of its own tenant only.\<close>

lemma held_own_rows:
  "held a db =
     [rp. rp \<leftarrow> filter (\<lambda>p. pe_tenant p = TenantID a) (role_permissions db),
          ur \<leftarrow> filter (\<lambda>u. ur_tenant u = TenantID a) (user_roles db), ur_role ur = pe_role rp \<and> ur_user ur = UserID a]"
proof -
  have inner: "concat (map (\<lambda>ur. if ur_role ur = pe_role rp \<and> ur_tenant ur = pe_tenant rp \<and> pe_tenant rp = t \<and> ur_user ur = w then [rp] else []) us) =
    (if pe_tenant rp = t then concat (map (\<lambda>ur. if ur_role ur = pe_role rp \<and> ur_user ur = w then [rp] else [])
       (filter (\<lambda>u. ur_tenant u = t) us)) else [])" for rp :: permission_row and t w us
    by (induction us) auto
  have "concat (map (\<lambda>rp. if pe_tenant rp = t then f rp else []) ps) = concat (map f (filter (\<lambda>p. pe_tenant p = t) ps))"
    for f :: "permission_row \<Rightarrow> permission_row list" and t ps
    by (induction ps) auto
  then show ?thesis unfolding held_def inner .
qed

lemma RolesFor_own_rows:
  "RolesFor db a = (if \<not> valid_actor a then Inl ErrNoActor
     else Inr (sort [ro_name r. r \<leftarrow> filter (\<lambda>r. ro_tenant r = TenantID a) (roles db),
       ur \<leftarrow> filter (\<lambda>u. ur_tenant u = TenantID a) (user_roles db), ur_role ur = ro_id r \<and> ur_user ur = UserID a]))"
proof -
  have inner: "concat (map (\<lambda>ur. if ur_role ur = ro_id r \<and> ur_tenant ur = ro_tenant r \<and> ro_tenant r = t \<and> ur_user ur = w then [ro_name r] else []) us) =
    (if ro_tenant r = t then concat (map (\<lambda>ur. if ur_role ur = ro_id r \<and> ur_user ur = w then [ro_name r] else [])
       (filter (\<lambda>u. ur_tenant u = t) us)) else [])" for r :: role_row and t w us
    by (induction us) auto
  have "concat (map (\<lambda>r. if ro_tenant r = t then f r else []) rs) = concat (map f (filter (\<lambda>r. ro_tenant r = t) rs))"
    for f :: "role_row \<Rightarrow> string list" and t rs
    by (induction rs) auto
  then show ?thesis unfolding RolesFor_def inner by simp
qed

lemma own_rows_exec:
  assumes "op_tenant op \<noteq> t"
  shows "filter (\<lambda>p. pe_tenant p = t) (role_permissions (authz_exec dial compiles op db)) =
      filter (\<lambda>p. pe_tenant p = t) (role_permissions db)"
    "filter (\<lambda>u. ur_tenant u = t) (user_roles (authz_exec dial compiles op db)) =
      filter (\<lambda>u. ur_tenant u = t) (user_roles db)"
    "filter (\<lambda>r. ro_tenant r = t) (roles (authz_exec dial compiles op db)) =
      filter (\<lambda>r. ro_tenant r = t) (roles db)"
  using assms
  by (cases op; auto simp: CreateRole_def GrantPermission_def RevokePermission_def AssignRole_def DeleteRole_def
      Let_def split: sum.splits option.splits intro!: filter_cong)+

lemmas own_rows_congs = held_own_rows RolesFor_own_rows own_rows_exec

lemma AuthorizeRecord_other_tenant:
  assumes "op_tenant op \<noteq> TenantID a"
  shows "AuthorizeRecord compiles eval (authz_exec dial compiles op db) (Some a) object action rec =
    AuthorizeRecord compiles eval db (Some a) object action rec"
proof -
  have "held a (authz_exec dial compiles op db) = held a db"
    "RolesFor (authz_exec dial compiles op db) a = RolesFor db a"
    by (simp_all add: held_own_rows RolesFor_own_rows own_rows_exec [OF assms])
  then have "GrantsFor (authz_exec dial compiles op db) a object action = GrantsFor db a object action"
    by (simp add: GrantsFor_def Let_def)
  then show ?thesis by (simp add: AuthorizeRecord_def AuthorizeGrants_def ActorFromContext_def)
qed

section \<open>Properties\<close>

text \<open>C25: the record gate opens exactly for granted records (INV-T2, INV-T3, INV-T4). \<open>AuthorizeRecord\<close>
  succeeds if and only if the context carries an attributable actor who holds, through a role of its own
  tenant, a grant of that object and action that is unconditional or whose condition compiles and
  evaluates to true on the record; the result is that actor.\<close>

theorem AuthorizeRecord_exact:
  "AuthorizeRecord compiles eval db ctx object action rec = Inr a \<longleftrightarrow>
     ctx = Some a \<and> TenantID a \<noteq> '''' \<and> UserID a \<noteq> '''' \<and> object \<noteq> '''' \<and> action \<noteq> '''' \<and>
     (\<exists>p \<in> set (role_permissions db). \<exists>u \<in> set (user_roles db).
        pe_tenant p = TenantID a \<and> ur_tenant u = TenantID a \<and> ur_user u = UserID a \<and> ur_role u = pe_role p \<and>
        pe_object p = object \<and> pe_action p = action \<and>
        (condition_text p = '''' \<or>
         (compiles (condition_text p) \<and> eval (condition_text p) rec (actor_facts db a) = Some True)))"
    (is "?L \<longleftrightarrow> ?R")
proof -
  have held: "(\<exists>p \<in> set (held a db). pe_object p = object \<and> pe_action p = action \<and> C p) \<longleftrightarrow>
      (\<exists>p \<in> set (role_permissions db). \<exists>u \<in> set (user_roles db).
        pe_tenant p = TenantID a \<and> ur_tenant u = TenantID a \<and> ur_user u = UserID a \<and> ur_role u = pe_role p \<and>
        pe_object p = object \<and> pe_action p = action \<and> C p)" for C
    unfolding set_held Bex_def by blast
  show ?thesis
  proof (cases "\<exists>s. GrantsFor db a object action = Inr s")
    case True
    then obtain s where s: "GrantsFor db a object action = Inr s" by blast
    moreover have "valid_actor a \<and> object \<noteq> '''' \<and> action \<noteq> ''''" using True GrantsFor_Inr_iff by blast
    ultimately show ?thesis
      by (simp add: AuthorizeRecord_allow Allow_GrantsFor [OF s] held valid_actor_def)
  next
    case False
    then show ?thesis
      using GrantsFor_Inr_iff [of db a object action] by (auto simp: AuthorizeRecord_allow valid_actor_def)
  qed
qed

text \<open>C26: core permission floors hold (INV-T3). Whatever sequence of role creations, grants, revocations,
  assignments and deletions any tenants run, a core role and every permission it had are still there.\<close>

theorem core_floor:
  assumes "authz_reach dial compiles db0 db" "distinct (map ro_id (roles db0))"
    and "r \<in> set (roles db0)" "ro_core r"
  shows "r \<in> set (roles db) \<and>
    {p \<in> set (role_permissions db0). pe_role p = ro_id r} \<subseteq> set (role_permissions db)"
proof -
  have "roles_keyed db \<and> r \<in> set (roles db) \<and>
    {p \<in> set (role_permissions db0). pe_role p = ro_id r} \<subseteq> set (role_permissions db)"
    using assms(1)
  proof induction
    case start
    then show ?case using assms by (simp add: roles_keyed_def)
  next
    case (step db op)
    then have k: "roles_keyed db" "r \<in> set (roles db)" by blast+
    show ?case
      using step.IH core_floor_exec [OF k assms(4)] roles_keyed_exec [OF k(1)] by blast
  qed
  then show ?thesis by blast
qed

definition core_db :: authz_db where
  "core_db = \<lparr>roles = [\<lparr>ro_id = ''r1'', ro_tenant = ''acme'', ro_name = ''admin'', ro_core = True\<rparr>],
     role_permissions = [\<lparr>pe_id = ''p1'', pe_tenant = ''acme'', pe_role = ''r1'', pe_object = ''Invoice'',
       pe_action = ''read'', pe_condition = None\<rparr>],
     user_roles = [\<lparr>ur_tenant = ''acme'', ur_user = ''u1'', ur_role = ''r1''\<rparr>]\<rparr>"

theorem core_floor_witness:
  "hd (roles core_db) \<in> set (roles (authz_exec Postgres (\<lambda>_. True) (OpDelete ''acme'' ''r1'') core_db)) \<and>
   {p \<in> set (role_permissions core_db). pe_role p = ''r1''} \<subseteq>
     set (role_permissions (authz_exec Postgres (\<lambda>_. True) (OpDelete ''acme'' ''r1'') core_db))"
proof -
  have "authz_reach Postgres (\<lambda>_. True) core_db (authz_exec Postgres (\<lambda>_. True) (OpDelete ''acme'' ''r1'') core_db)"
    by (intro authz_reach.intros)
  from core_floor [OF this, of "hd (roles core_db)"] show ?thesis
    by (simp add: core_db_def)
qed

text \<open>C27: administration stays inside its tenant (INV-T1). No sequence of operations run for other tenants
  changes what the record gate answers an actor.\<close>

theorem authz_isolated:
  assumes "list_all (\<lambda>op. op_tenant op \<noteq> TenantID a) ops"
  shows "AuthorizeRecord compiles eval (fold (authz_exec dial compiles) ops db) (Some a) object action rec =
    AuthorizeRecord compiles eval db (Some a) object action rec"
  using assms by (induction ops arbitrary: db) (simp_all add: AuthorizeRecord_other_tenant)

theorem authz_isolated_witness:
  "AuthorizeRecord (\<lambda>_. True) (\<lambda>_ _ _. None)
     (fold (authz_exec SQLite (\<lambda>_. True)) [OpDelete ''rival'' ''r1'', OpRevoke ''rival'' ''r1'' ''Invoice'' ''read''] core_db)
     (Some \<lparr>TenantID = ''acme'', UserID = ''u1''\<rparr>) ''Invoice'' ''read'' () =
   Inr \<lparr>TenantID = ''acme'', UserID = ''u1''\<rparr>"
  by (subst authz_isolated)
    (simp_all add: core_db_def AuthorizeRecord_def AuthorizeGrants_def ActorFromContext_def valid_actor_def
      GrantsFor_def held_def needsRoles_def condition_text_def AnyGrant_def Allow_def)

end
