(* ===== verification/ChangeFeed.thy ===== *)
theory ChangeFeed
  imports Authz Calendar
begin

text \<open>
  \<open>kernel/changefeed\<close>: the append-only feed of changes (\<open>feed.go\<close>), its scope keys (\<open>scope.go\<close>), the
  in-process bell (\<open>notify.go\<close>) and the key of the ordering lock (\<open>order.go\<close>). The table
  \<open>change_feed\<close> extends the database by its rows and the next value of its id sequence; the ids
  that rolled-back transactions burn on Postgres are not modelled here, and the interleaving of
  transactions is the subject of \<open>FeedOrder\<close>.
\<close>

record feed_Entry =
  fe_tenant :: string
  fe_source :: string
  fe_ref :: string
  fe_object :: string
  fe_scope :: string
  fe_recorded_at :: int
  fe_actor :: string

record Change = feed_Entry +
  Cursor :: int

record feed_db = authz_db +
  change_feed :: "Change list"
  feed_next :: int

datatype feed_error = ErrFeedTenant | ErrFeedSource | ErrFeedRecordedAt | ErrFeedLimit

definition ScopeKeyFor :: "string \<Rightarrow> string" where
  "ScopeKeyFor object = (if object = '''' then ''unscoped'' else object)"

section \<open>The ordering lock\<close>

unbundle bit_operations_syntax

text \<open>\<open>hash/fnv\<close>'s 64-bit FNV-1a over the bytes of the tenant id, read as a signed integer.\<close>

definition fnv1a :: "string \<Rightarrow> 64 word" where
  "fnv1a s = foldl (\<lambda>h c. (h XOR word_of_nat (of_char c)) * 1099511628211) 14695981039346656037 s"

definition advisoryKey :: "string \<Rightarrow> int" where
  "advisoryKey tenant = sint (fnv1a tenant)"

text \<open>The lock a writer takes before its append: one per tenant key on Postgres; on SQLite the write
  lock of the database, whoever the tenant is.\<close>

definition serializeAppend :: "dialect \<Rightarrow> string \<Rightarrow> int option" where
  "serializeAppend dial tenant = (if dial \<noteq> Postgres then None else Some (advisoryKey tenant))"

section \<open>Append and read\<close>

definition change_of :: "int \<Rightarrow> feed_Entry \<Rightarrow> Change" where
  "change_of c e = \<lparr>fe_tenant = fe_tenant e, fe_source = fe_source e, fe_ref = fe_ref e, fe_object = fe_object e,
     fe_scope = fe_scope e, fe_recorded_at = fe_recorded_at e, fe_actor = fe_actor e, Cursor = c\<rparr>"

definition validate_entry :: "feed_Entry \<Rightarrow> feed_error + unit" where
  "validate_entry e =
     (if fe_tenant e = '''' then Inl ErrFeedTenant
      else if fe_source e = '''' \<or> fe_ref e = '''' then Inl ErrFeedSource
      else if is_zero_time (fe_recorded_at e) then Inl ErrFeedRecordedAt
      else Inr ())"

definition feed_Append :: "feed_Entry \<Rightarrow> ('x feed_db_scheme, feed_error, unit) tx" where
  "feed_Append e db =
     (case validate_entry e of Inl err \<Rightarrow> (Inl err, db)
      | Inr _ \<Rightarrow> (Inr (), db\<lparr>change_feed := change_feed db @ [change_of (feed_next db) e],
                            feed_next := feed_next db + 1\<rparr>))"

definition in_scope :: "string list option \<Rightarrow> Change \<Rightarrow> bool" where
  "in_scope keys c \<longleftrightarrow> (case keys of None \<Rightarrow> True | Some ks \<Rightarrow> fe_scope c \<in> set ks)"

definition feed_Read ::
  "'x feed_db_scheme \<Rightarrow> string \<Rightarrow> int \<Rightarrow> int \<Rightarrow> string list option \<Rightarrow> feed_error + Change list" where
  "feed_Read db tenant after limit keys =
     (if tenant = '''' then Inl ErrFeedTenant
      else if limit \<le> 0 then Inl ErrFeedLimit
      else if keys = Some [] then Inr []
      else Inr (take (nat limit) (sort_key Cursor
             (filter (\<lambda>c. fe_tenant c = tenant \<and> Cursor c > after \<and> in_scope keys c) (change_feed db)))))"

definition HighWater :: "'x feed_db_scheme \<Rightarrow> string \<Rightarrow> feed_error + int" where
  "HighWater db tenant =
     (if tenant = '''' then Inl ErrFeedTenant
      else Inr (case map Cursor (filter (\<lambda>c. fe_tenant c = tenant) (change_feed db)) of
                  [] \<Rightarrow> 0 | c # cs \<Rightarrow> foldl max c cs))"

section \<open>The bell\<close>

text \<open>A subscription is a channel of depth one: its buffer holds a cursor or is empty.\<close>

record subscription =
  sub_id :: nat
  sub_tenant :: string
  sub_buffer :: "int option"

definition Subscribe :: "nat \<Rightarrow> string \<Rightarrow> subscription list \<Rightarrow> subscription list" where
  "Subscribe ch tenant subs = subs @ [\<lparr>sub_id = ch, sub_tenant = tenant, sub_buffer = None\<rparr>]"

fun Unsubscribe :: "nat \<Rightarrow> string \<Rightarrow> subscription list \<Rightarrow> subscription list" where
  "Unsubscribe ch tenant [] = []"
| "Unsubscribe ch tenant (s # subs) =
     (if sub_tenant s = tenant \<and> sub_id s = ch then subs else s # Unsubscribe ch tenant subs)"

definition Notify :: "string \<Rightarrow> int \<Rightarrow> subscription list \<Rightarrow> subscription list" where
  "Notify tenant cursor subs =
     map (\<lambda>s. if sub_tenant s = tenant
              then (case sub_buffer s of None \<Rightarrow> s\<lparr>sub_buffer := Some cursor\<rparr> | Some _ \<Rightarrow> s)
              else s) subs"

section \<open>Facts\<close>

text \<open>The feed is well formed when its cursors increase and stay below the next one.\<close>

definition feed_ok :: "'x feed_db_scheme \<Rightarrow> bool" where
  "feed_ok db \<longleftrightarrow> sorted_wrt (<) (map Cursor (change_feed db)) \<and>
     (\<forall>c \<in> set (change_feed db). 0 < Cursor c \<and> Cursor c < feed_next db) \<and> 0 < feed_next db"

lemma feed_Append_cases:
  obtains (failed) e where "feed_Append entry db = (Inl e, db)" "validate_entry entry = Inl e"
  | (appended) "feed_Append entry db = (Inr (), db\<lparr>change_feed := change_feed db @ [change_of (feed_next db) entry],
        feed_next := feed_next db + 1\<rparr>)" "validate_entry entry = Inr ()"
  by (cases "validate_entry entry") (auto simp: feed_Append_def)

lemma Cursor_change_of [simp]: "Cursor (change_of c e) = c" "fe_tenant (change_of c e) = fe_tenant e"
  by (simp_all add: change_of_def)

lemma feed_Append_ok: "feed_ok db \<Longrightarrow> feed_ok (snd (feed_Append e db))"
proof (cases rule: feed_Append_cases [of e db])
  case appended
  assume "feed_ok db"
  then show ?thesis unfolding appended(1)
    by (auto simp: feed_ok_def sorted_wrt_append intro: less_trans)
qed simp

definition visible_changes :: "'x feed_db_scheme \<Rightarrow> string \<Rightarrow> string list option \<Rightarrow> int \<Rightarrow> Change list" where
  "visible_changes db tenant keys after =
     filter (\<lambda>c. fe_tenant c = tenant \<and> Cursor c > after \<and> in_scope keys c) (change_feed db)"

lemma sorted_cursors: "feed_ok db \<Longrightarrow> sorted_wrt (<) (map Cursor (visible_changes db tenant keys after))"
  unfolding feed_ok_def visible_changes_def sorted_wrt_map by (intro sorted_wrt_filter) blast

lemma feed_Read_page:
  assumes "feed_ok db" "tenant \<noteq> ''''" "0 < limit"
  shows "feed_Read db tenant after limit keys = Inr (take (nat limit) (visible_changes db tenant keys after))"
proof -
  have "sorted (map Cursor (visible_changes db tenant keys after))"
    using sorted_cursors [OF assms(1)] strict_sorted_imp_sorted by blast
  then have "sort_key Cursor (visible_changes db tenant keys after) = visible_changes db tenant keys after"
    by (simp add: sort_key_id_if_sorted)
  moreover have "visible_changes db tenant (Some []) after = []"
    by (simp add: visible_changes_def in_scope_def)
  ultimately show ?thesis using assms by (auto simp: feed_Read_def visible_changes_def)
qed

text \<open>A client that resumes from the last cursor of each page.\<close>

fun read_pages :: "nat \<Rightarrow> 'x feed_db_scheme \<Rightarrow> string \<Rightarrow> int \<Rightarrow> int \<Rightarrow> string list option \<Rightarrow> Change list" where
  "read_pages 0 db tenant after limit keys = []"
| "read_pages (Suc n) db tenant after limit keys =
     (case feed_Read db tenant after limit keys of
        Inl _ \<Rightarrow> []
      | Inr [] \<Rightarrow> []
      | Inr page \<Rightarrow> page @ read_pages n db tenant (Cursor (last page)) limit keys)"

lemma visible_after_last:
  assumes "feed_ok db" "visible_changes db tenant keys after = xs @ ys" "xs \<noteq> []"
  shows "visible_changes db tenant keys (Cursor (last xs)) = ys"
proof -
  let ?P = "\<lambda>c. Cursor c > Cursor (last xs)"
  have s: "sorted_wrt (<) (map Cursor (xs @ ys))" using sorted_cursors [OF assms(1)] assms(2) by metis
  have lastx: "last xs \<in> set xs" using assms(3) by simp
  have after: "Cursor (last xs) > after"
  proof -
    have "last xs \<in> set (visible_changes db tenant keys after)" using lastx assms(2) by simp
    then show ?thesis by (simp add: visible_changes_def)
  qed
  have "visible_changes db tenant keys (Cursor (last xs)) = filter ?P (visible_changes db tenant keys after)"
    using after unfolding visible_changes_def filter_filter by (intro filter_cong) auto
  also have "\<dots> = filter ?P xs @ filter ?P ys" using assms(2) by simp
  also have "filter ?P xs = []"
  proof -
    have "sorted (map Cursor xs)" using s by (intro strict_sorted_imp_sorted) (simp add: sorted_wrt_append)
    then have "\<forall>x \<in> set xs. Cursor x \<le> Cursor (last xs)"
      by (induction xs) (auto simp: last_map)
    then show ?thesis by (auto simp: filter_empty_conv)
  qed
  also have "filter ?P ys = ys" using s lastx by (auto simp: sorted_wrt_append filter_id_conv)
  finally show ?thesis by simp
qed

lemma read_pages_complete:
  assumes "feed_ok db" "tenant \<noteq> ''''" "0 < limit" "length (visible_changes db tenant keys after) \<le> n"
  shows "read_pages n db tenant after limit keys = visible_changes db tenant keys after"
  using assms(4)
proof (induction n arbitrary: after)
  case (Suc n)
  let ?v = "visible_changes db tenant keys after"
  have page: "feed_Read db tenant after limit keys = Inr (take (nat limit) ?v)"
    using assms by (intro feed_Read_page)
  show ?case
  proof (cases "?v = []")
    case False
    then have ne: "take (nat limit) ?v \<noteq> []" using assms(3) by simp
    have split: "?v = take (nat limit) ?v @ drop (nat limit) ?v" by simp
    have rest: "visible_changes db tenant keys (Cursor (last (take (nat limit) ?v))) = drop (nat limit) ?v"
      by (rule visible_after_last [OF assms(1) split ne])
    have "length (drop (nat limit) ?v) \<le> n" using Suc.prems False assms(3) by (cases ?v) auto
    then have "read_pages n db tenant (Cursor (last (take (nat limit) ?v))) limit keys = drop (nat limit) ?v"
      using Suc.IH [of "Cursor (last (take (nat limit) ?v))"] rest by simp
    moreover obtain p ps where t: "take (nat limit) ?v = p # ps" using ne by (meson list.exhaust)
    ultimately have "read_pages (Suc n) db tenant after limit keys = take (nat limit) ?v @ drop (nat limit) ?v"
      by (simp only: read_pages.simps page t sum.case list.case)
    then show ?thesis by simp
  qed (use page in simp)
qed (simp add: visible_changes_def)

lemma Notify_pending:
  "s \<in> set (Notify tenant cursor subs) \<Longrightarrow> sub_tenant s = tenant \<Longrightarrow> sub_buffer s \<noteq> None"
  by (auto simp: Notify_def split: option.splits if_splits)

section \<open>Properties\<close>

definition empty_feed_db :: feed_db where
  "empty_feed_db = \<lparr>roles = [], role_permissions = [], user_roles = [], change_feed = [], feed_next = 1\<rparr>"

lemma empty_feed_ok: "feed_ok empty_feed_db"
  by (simp add: feed_ok_def empty_feed_db_def)

lemma feed_ok_appends: "feed_ok db \<Longrightarrow> feed_ok (fold (\<lambda>e db. snd (feed_Append e db)) es db)"
  by (induction es arbitrary: db) (simp_all add: feed_Append_ok)

text \<open>C28: paging loses and repeats nothing (INV-S5). After any sequence of appends to an empty feed, a reader
  who pages with any positive limit, resuming each time from the cursor of the last change received,
  collects exactly the changes of its tenant and scope past the starting cursor, each once, in commit
  order.\<close>

theorem paging_exact:
  assumes "db = fold (\<lambda>e db. snd (feed_Append e db)) es empty_feed_db"
    and "tenant \<noteq> ''''" "0 < limit" "length es \<le> n"
  shows "read_pages n db tenant after limit keys =
    filter (\<lambda>c. fe_tenant c = tenant \<and> Cursor c > after \<and> in_scope keys c) (change_feed db)"
proof -
  have ok: "feed_ok db" using assms(1) empty_feed_ok feed_ok_appends by blast
  have "length (change_feed (fold (\<lambda>e db. snd (feed_Append e db)) es d)) \<le> length (change_feed d) + length es"
    for d :: feed_db
  proof (induction es arbitrary: d)
    case (Cons e es)
    show ?case
      using Cons.IH [of "snd (feed_Append e d)"] by (cases rule: feed_Append_cases [of e d]) auto
  qed simp
  from this [of empty_feed_db] have "length (change_feed db) \<le> n"
    using assms(1,4) by (simp add: empty_feed_db_def)
  then have "length (visible_changes db tenant keys after) \<le> n"
    unfolding visible_changes_def by (meson le_trans length_filter_le)
  from read_pages_complete [OF ok assms(2,3) this] show ?thesis by (simp add: visible_changes_def)
qed

definition sample_entry :: "string \<Rightarrow> string \<Rightarrow> feed_Entry" where
  "sample_entry t ref = \<lparr>fe_tenant = t, fe_source = ''audit'', fe_ref = ref, fe_object = ''Invoice'',
     fe_scope = ''Invoice'', fe_recorded_at = 0, fe_actor = ''u1''\<rparr>"

theorem paging_exact_witness:
  "map fe_ref (read_pages 3 (fold (\<lambda>e db. snd (feed_Append e db))
     [sample_entry ''acme'' ''a'', sample_entry ''rival'' ''b'', sample_entry ''acme'' ''c''] empty_feed_db)
     ''acme'' 0 1 None) = [''a'', ''c'']"
  by (subst paging_exact [OF refl])
    (simp_all add: sample_entry_def empty_feed_db_def feed_Append_def validate_entry_def is_zero_time_def
      zero_time_def day_ns_def change_of_def in_scope_def)

end
