(* ===== verification/FeedOrder.thy ===== *)
theory FeedOrder
  imports ChangeFeed
begin

text \<open>
  The ordering protocol of \<open>kernel/changefeed/order.go\<close>. Several transactions run at once; each
  append first takes the ordering lock of its tenant (\<open>serializeAppend\<close>; on SQLite the database's
  write lock), then draws the next id, and the lock is held until the transaction commits or rolls
  back. The state machine below has one step per append, commit and rollback of a transaction; ids drawn
  by a transaction that rolls back are burnt, as a Postgres sequence does.
\<close>

record feed_state =
  lock_of :: "int option \<Rightarrow> nat option"
  next_id :: int
  pending :: "(nat \<times> Change) list"
  committed :: "Change list"

definition lock_free :: "dialect \<Rightarrow> nat \<Rightarrow> string \<Rightarrow> feed_state \<Rightarrow> bool" where
  "lock_free dial txn tenant s \<longleftrightarrow>
     (case lock_of s (serializeAppend dial tenant) of None \<Rightarrow> True | Some holder \<Rightarrow> holder = txn)"

definition do_append :: "dialect \<Rightarrow> nat \<Rightarrow> feed_Entry \<Rightarrow> feed_state \<Rightarrow> feed_state" where
  "do_append dial txn e s =
     s\<lparr>lock_of := (lock_of s)(serializeAppend dial (fe_tenant e) := Some txn),
       next_id := next_id s + 1,
       pending := pending s @ [(txn, change_of (next_id s) e)]\<rparr>"

definition release :: "nat \<Rightarrow> feed_state \<Rightarrow> feed_state" where
  "release txn s =
     s\<lparr>lock_of := (\<lambda>k. if lock_of s k = Some txn then None else lock_of s k),
       pending := filter (\<lambda>p. fst p \<noteq> txn) (pending s)\<rparr>"

definition do_commit :: "nat \<Rightarrow> feed_state \<Rightarrow> feed_state" where
  "do_commit txn s =
     (release txn s)\<lparr>committed := committed s @ map snd (filter (\<lambda>p. fst p = txn) (pending s))\<rparr>"

inductive feed_step :: "dialect \<Rightarrow> feed_state \<Rightarrow> feed_state \<Rightarrow> bool" for dial where
  append: "lock_free dial txn (fe_tenant e) s \<Longrightarrow> feed_step dial s (do_append dial txn e s)"
| commit: "feed_step dial s (do_commit txn s)"
| rollback: "feed_step dial s (release txn s)"

inductive_cases feed_stepE: "feed_step dial s s'"

inductive feed_steps :: "dialect \<Rightarrow> feed_state \<Rightarrow> feed_state \<Rightarrow> bool" for dial where
  refl: "feed_steps dial s s"
| step: "feed_steps dial s s' \<Longrightarrow> feed_step dial s' s'' \<Longrightarrow> feed_steps dial s s''"

definition feed_start :: feed_state where
  "feed_start = \<lparr>lock_of = (\<lambda>_. None), next_id = 1, pending = [], committed = []\<rparr>"

section \<open>The invariant\<close>

text \<open>Pending changes belong to the holder of their lock and come after everything committed for their
  tenant, and committed changes of a tenant increase.\<close>

definition tenant_cursors :: "string \<Rightarrow> Change list \<Rightarrow> int list" where
  "tenant_cursors t cs = map Cursor (filter (\<lambda>c. fe_tenant c = t) cs)"

definition feed_inv :: "dialect \<Rightarrow> feed_state \<Rightarrow> bool" where
  "feed_inv dial s \<longleftrightarrow>
     (\<forall>(txn, c) \<in> set (pending s). lock_of s (serializeAppend dial (fe_tenant c)) = Some txn \<and> Cursor c < next_id s) \<and>
     (\<forall>c \<in> set (committed s). Cursor c < next_id s) \<and>
     (\<forall>t. sorted_wrt (<) (tenant_cursors t (committed s @ map snd (pending s))))"

lemma tenant_cursors_append [simp]: "tenant_cursors t (xs @ ys) = tenant_cursors t xs @ tenant_cursors t ys"
  "tenant_cursors t [] = []" "tenant_cursors t (c # cs) = (if fe_tenant c = t then [Cursor c] else []) @ tenant_cursors t cs"
  by (simp_all add: tenant_cursors_def)

lemma sorted_wrt_append_filter:
  "sorted_wrt R (xs @ map f ys) \<Longrightarrow> sorted_wrt R (xs @ map f (filter P ys))"
  by (auto simp: sorted_wrt_append sorted_wrt_map intro: sorted_wrt_filter)

lemma tenant_cursors_pending:
  "tenant_cursors t (map snd ps) = map (\<lambda>p. Cursor (snd p)) (filter (\<lambda>p. fe_tenant (snd p) = t) ps)"
  by (simp add: tenant_cursors_def filter_map comp_def)

lemma tenant_cursors_filter:
  assumes "sorted_wrt (<) (xs @ tenant_cursors t (map snd ps))"
  shows "sorted_wrt (<) (xs @ tenant_cursors t (map snd (filter P ps)))"
proof -
  have "filter (\<lambda>p. fe_tenant (snd p) = t) (filter P ps) = filter P (filter (\<lambda>p. fe_tenant (snd p) = t) ps)"
    by (simp add: conj_commute)
  then show ?thesis
    using assms sorted_wrt_append_filter [of "(<)" xs "\<lambda>p. Cursor (snd p)" _ P]
    by (simp only: tenant_cursors_pending)
qed

lemma one_holder:
  assumes "feed_inv dial s" "(txn, c) \<in> set (pending s)" "(txn', c') \<in> set (pending s)" "fe_tenant c = fe_tenant c'"
  shows "txn = txn'"
proof -
  have "lock_of s (serializeAppend dial (fe_tenant c)) = Some txn" using assms(1,2) by (auto simp: feed_inv_def)
  moreover have "lock_of s (serializeAppend dial (fe_tenant c')) = Some txn'" using assms(1,3) by (auto simp: feed_inv_def)
  ultimately show ?thesis using assms(4) by simp
qed

text \<open>The pending changes of one tenant all belong to one transaction, so a commit takes all or none.\<close>

lemma pending_split:
  assumes "feed_inv dial s"
  shows "tenant_cursors t (map snd (filter (\<lambda>p. fst p = txn) (pending s))) = [] \<or>
    tenant_cursors t (map snd (filter (\<lambda>p. fst p \<noteq> txn) (pending s))) = []"
proof (rule ccontr)
  assume "\<not> ?thesis"
  then obtain p q where "p \<in> set (pending s)" "fst p = txn" "fe_tenant (snd p) = t"
    "q \<in> set (pending s)" "fst q \<noteq> txn" "fe_tenant (snd q) = t"
    by (auto simp: tenant_cursors_def filter_empty_conv)
  then show False using one_holder [OF assms, of "fst p" "snd p" "fst q" "snd q"] by (cases p; cases q) auto
qed

lemma feed_inv_release:
  assumes "feed_inv dial s"
  shows "feed_inv dial (release txn s)"
proof -
  have "sorted_wrt (<) (tenant_cursors t (committed s) @ tenant_cursors t (map snd (filter (\<lambda>p. fst p \<noteq> txn) (pending s))))"
    for t
    using assms by (intro tenant_cursors_filter) (simp add: feed_inv_def)
  with assms show ?thesis by (auto simp: feed_inv_def release_def)
qed

lemma feed_inv_commit:
  assumes "feed_inv dial s"
  shows "feed_inv dial (do_commit txn s)"
proof -
  let ?mine = "map snd (filter (\<lambda>p. fst p = txn) (pending s))"
  let ?rest = "map snd (filter (\<lambda>p. fst p \<noteq> txn) (pending s))"
  have all: "sorted_wrt (<) (tenant_cursors t (committed s) @ tenant_cursors t (map snd (pending s)))" for t
    using assms by (simp add: feed_inv_def)
  have "sorted_wrt (<) (tenant_cursors t (committed s) @ tenant_cursors t ?mine @ tenant_cursors t ?rest)" for t
    using pending_split [OF assms, of t txn] tenant_cursors_filter [OF all [of t], of "\<lambda>p. fst p = txn"]
      tenant_cursors_filter [OF all [of t], of "\<lambda>p. fst p \<noteq> txn"]
    by auto
  moreover have "\<forall>c \<in> set (committed s @ ?mine). Cursor c < next_id s"
    using assms by (force simp: feed_inv_def)
  moreover have "\<forall>(txn', c) \<in> set (filter (\<lambda>p. fst p \<noteq> txn) (pending s)).
      lock_of s (serializeAppend dial (fe_tenant c)) = Some txn' \<and> txn' \<noteq> txn \<and> Cursor c < next_id s"
    using assms by (auto simp: feed_inv_def)
  ultimately show ?thesis by (auto simp: feed_inv_def do_commit_def release_def)
qed

lemma feed_inv_append:
  assumes "feed_inv dial s" "lock_free dial txn (fe_tenant e) s"
  shows "feed_inv dial (do_append dial txn e s)"
proof -
  have b: "\<forall>c \<in> set (committed s @ map snd (pending s)). Cursor c < next_id s"
    using assms(1) by (auto simp: feed_inv_def)
  have "sorted_wrt (<) (tenant_cursors t (committed s @ map snd (pending s)) @ tenant_cursors t [change_of (next_id s) e])" for t
    using assms(1) b by (auto simp: feed_inv_def sorted_wrt_append tenant_cursors_def)
  moreover have "lock_of s k = None \<or> lock_of s k = Some txn" if "k = serializeAppend dial (fe_tenant e)" for k
    using assms(2) that by (auto simp: lock_free_def split: option.splits)
  then have "\<forall>(txn', c) \<in> set (pending s).
      ((lock_of s)(serializeAppend dial (fe_tenant e) := Some txn)) (serializeAppend dial (fe_tenant c)) = Some txn' \<and>
      Cursor c < next_id s + 1"
    using assms(1) b by (fastforce simp: feed_inv_def)
  moreover have "\<forall>c \<in> set (committed s). Cursor c < next_id s + 1"
    using b by force
  ultimately show ?thesis by (simp add: feed_inv_def do_append_def)
qed

lemma feed_inv_step: "feed_inv dial s \<Longrightarrow> feed_step dial s s' \<Longrightarrow> feed_inv dial s'"
  by (auto elim!: feed_stepE intro: feed_inv_release feed_inv_commit feed_inv_append)

lemma feed_inv_steps: "feed_steps dial s s' \<Longrightarrow> feed_inv dial s \<Longrightarrow> feed_inv dial s'"
  by (induction rule: feed_steps.induct) (auto intro: feed_inv_step)

lemma feed_inv_start: "feed_inv dial feed_start"
  by (simp add: feed_inv_def feed_start_def)

lemma committed_grows: "feed_steps dial s s' \<Longrightarrow> \<exists>new. committed s' = committed s @ new"
proof (induction rule: feed_steps.induct)
  case (step s s' s'')
  from step.hyps(2) have "\<exists>new. committed s'' = committed s' @ new"
    by (auto elim!: feed_stepE simp: do_append_def do_commit_def release_def)
  with step.IH show ?case by auto
qed simp

section \<open>Properties\<close>

text \<open>C29: cursors commit in order (INV-S5). However transactions interleave, when a change of a tenant
  becomes visible, its cursor is larger than every cursor of that tenant visible before. So a reader that
  has reached a cursor never misses a change that commits later.\<close>

theorem late_changes_are_ahead:
  assumes "feed_steps dial feed_start s" "feed_steps dial s s'"
    and "c \<in> set (drop (length (committed s)) (committed s'))" "c0 \<in> set (committed s)" "fe_tenant c0 = fe_tenant c"
  shows "Cursor c0 < Cursor c"
proof -
  obtain new where new: "committed s' = committed s @ new" using committed_grows [OF assms(2)] by blast
  have "feed_inv dial s'" using assms(1,2) feed_inv_start feed_inv_steps by blast
  then have "sorted_wrt (<) (tenant_cursors (fe_tenant c) (committed s) @ tenant_cursors (fe_tenant c) new)"
    using new by (auto simp: feed_inv_def sorted_wrt_append)
  moreover have "c \<in> set new" using assms(3) new by simp
  ultimately show ?thesis using assms(4,5) by (auto simp: sorted_wrt_append tenant_cursors_def)
qed

theorem late_changes_are_ahead_witness:
  "Cursor (change_of 1 (sample_entry ''acme'' ''a'')) < Cursor (change_of 2 (sample_entry ''acme'' ''b''))"
proof -
  let ?e = "\<lambda>r. sample_entry ''acme'' r"
  let ?s1 = "do_commit 7 (do_append Postgres 7 (?e ''a'') feed_start)"
  let ?s2 = "do_commit 8 (do_append Postgres 8 (?e ''b'') ?s1)"
  have f: "lock_free Postgres 7 (fe_tenant (?e ''a'')) feed_start" "lock_free Postgres 8 (fe_tenant (?e ''b'')) ?s1"
    by (simp_all add: lock_free_def feed_start_def do_commit_def do_append_def release_def sample_entry_def)
  have 1: "feed_steps Postgres feed_start ?s1" and 2: "feed_steps Postgres ?s1 ?s2"
    by (rule feed_steps.step [OF feed_steps.step [OF feed_steps.refl feed_step.append [OF f(1)]] feed_step.commit]
        feed_steps.step [OF feed_steps.step [OF feed_steps.refl feed_step.append [OF f(2)]] feed_step.commit])+
  show ?thesis
    by (rule late_changes_are_ahead [OF 1 2])
      (simp_all add: feed_start_def do_commit_def do_append_def release_def sample_entry_def change_of_def)
qed

end
