(* ===== verification/JsonTree.thy ===== *)
theory JsonTree
  imports GoText
begin

text \<open>
  JSON values as trees. \<open>encoding/json\<close> turns Go values into text and back; the model keeps the tree
  between the two, so a payload is what the code marshals and what it later unmarshals. Numbers are
  integers: the modelled code stores no other.
\<close>

datatype json =
    JNull
  | JBool bool
  | JInt int
  | JStr string
  | JArr "json list"
  | JObj "(string \<times> json) list"

fun jfield :: "string \<Rightarrow> json \<Rightarrow> json option" where
  "jfield k (JObj kvs) = map_of kvs k"
| "jfield k _ = None"

fun jstr :: "json option \<Rightarrow> string" where
  "jstr (Some (JStr s)) = s"
| "jstr _ = ''''"

fun jint :: "json option \<Rightarrow> int" where
  "jint (Some (JInt i)) = i"
| "jint _ = 0"

fun jarr :: "json option \<Rightarrow> json list" where
  "jarr (Some (JArr js)) = js"
| "jarr _ = []"

fun jbool :: "json option \<Rightarrow> bool" where
  "jbool (Some (JBool b)) = b"
| "jbool _ = False"

end
