(* ===== verification/CommandLog.thy ===== *)
theory CommandLog
  imports Prelude
begin

text \<open>
  The contract of a write that is identified by a command id: the first success records a result under
  the tenant and the id, and every later attempt with that id gives back the recorded result and changes
  nothing, whatever else was written in between. \<open>kernel/eventstore.Append\<close>, the ledger's posting
  path and the invoicing handlers are its providers.
\<close>

locale command_log =
  fixes recorded :: "'db \<Rightarrow> string \<Rightarrow> string \<Rightarrow> 'ev option"
    and exec :: "'arg \<Rightarrow> string \<Rightarrow> string \<Rightarrow> 'db \<Rightarrow> ('err + 'ev) \<times> 'db"
  assumes replay: "recorded db t c = Some e \<Longrightarrow>
      snd (exec arg t c db) = db \<and> (\<forall>e'. fst (exec arg t c db) = Inr e' \<longrightarrow> e' = e)"
    and records: "fst (exec arg t c db) = Inr e \<Longrightarrow> recorded (snd (exec arg t c db)) t c = Some e"
    and stable: "recorded db t c = Some e \<Longrightarrow> recorded (snd (exec arg t' c' db)) t c = Some e"
    and failed: "fst (exec arg t c db) = Inl err \<Longrightarrow> snd (exec arg t c db) = db"
begin

definition run :: "('arg \<times> string \<times> string) list \<Rightarrow> 'db \<Rightarrow> 'db" where
  "run cmds db = fold (\<lambda>(arg, t, c) db. snd (exec arg t c db)) cmds db"

lemma run_stable: "recorded db t c = Some e \<Longrightarrow> recorded (run cmds db) t c = Some e"
proof (induction cmds arbitrary: db)
  case (Cons x cmds)
  obtain arg t' c' where "x = (arg, t', c')" by (metis prod_cases3)
  with Cons.IH [OF stable [OF Cons.prems, of arg t' c']] show ?case by (simp add: run_def)
qed (simp add: run_def)

text \<open>A retry returns the first result and has no effect, after any run of other commands.\<close>

lemma exactly_once:
  assumes "fst (exec arg t c db) = Inr e"
  shows "snd (exec arg' t c (run cmds (snd (exec arg t c db)))) = run cmds (snd (exec arg t c db))"
    and "fst (exec arg' t c (run cmds (snd (exec arg t c db)))) = Inr e' \<Longrightarrow> e' = e"
  using replay [OF run_stable [OF records [OF assms]], of arg'] by blast+

end

end
