(* ===== verification/EventStore.thy ===== *)
theory EventStore
  imports ChangeFeed JsonTree CommandLog
begin

text \<open>
  \<open>kernel/eventstore\<close>: the append-only event log (\<open>eventstore.go\<close>), its readers (\<open>feed.go\<close>), snapshots
  (\<open>snapshot.go\<close>) and upcasters (\<open>upcast.go\<close>), and the write engine of event-sourced objects
  (\<open>kernel/metadata/eventsourced.go\<close>). The table \<open>events\<close> has two unique indexes: one on tenant,
  stream and version, and one on the command id over all tenants.
\<close>

record NewEvent =
  ne_type :: string
  ne_schema_version :: int
  ne_payload :: json
  ne_actor :: string
  ne_occurred_at :: int

record Event =
  ev_id :: int
  ev_tenant :: string
  ev_stream :: string
  ev_version :: int
  ev_type :: string
  ev_schema_version :: int
  ev_payload :: json
  ev_actor :: string
  ev_command :: string
  ev_occurred_at :: int
  ev_recorded_at :: int

record Snapshot =
  sn_tenant :: string
  sn_stream :: string
  sn_version :: int
  sn_state :: json
  sn_recorded_at :: int

record event_db = feed_db +
  events :: "Event list"
  event_next :: int
  stream_snapshots :: "Snapshot list"

datatype event_error =
    ErrEventTenantStream
  | ErrEventCommand
  | ErrEventActor
  | ErrEventType
  | ErrVersionConflict
  | ErrEventLimit
  | ErrEventFeed feed_error
  | ErrUpcast string int
  | ErrEmitAuthz authz_error

section \<open>Append\<close>

definition CurrentVersion :: "'x event_db_scheme \<Rightarrow> string \<Rightarrow> string \<Rightarrow> event_error + int" where
  "CurrentVersion db tenant stream =
     (if tenant = '''' \<or> stream = '''' then Inl ErrEventTenantStream
      else Inr (case map ev_version (filter (\<lambda>e. ev_tenant e = tenant \<and> ev_stream e = stream) (events db)) of
                  [] \<Rightarrow> 0 | v # vs \<Rightarrow> foldl max v vs))"

definition scanByCommandID :: "string \<Rightarrow> string \<Rightarrow> 'x event_db_scheme \<Rightarrow> Event option" where
  "scanByCommandID tenant command db =
     List.find (\<lambda>e. ev_tenant e = tenant \<and> ev_command e = command) (events db)"

definition unique_violation :: "Event \<Rightarrow> Event list \<Rightarrow> bool" where
  "unique_violation e es \<longleftrightarrow>
     (\<exists>x \<in> set es. ev_command x = ev_command e \<or>
        (ev_tenant x = ev_tenant e \<and> ev_stream x = ev_stream e \<and> ev_version x = ev_version e))"

text \<open>The insert of an event: the next id, or the unique violation.\<close>

definition insert_event :: "Event \<Rightarrow> 'x event_db_scheme \<Rightarrow> 'x event_db_scheme option" where
  "insert_event e db =
     (if unique_violation e (events db) then None
      else Some (db\<lparr>events := events db @ [e], event_next := event_next db + 1\<rparr>))"

definition validate_append :: "string \<Rightarrow> string \<Rightarrow> string \<Rightarrow> NewEvent \<Rightarrow> event_error + unit" where
  "validate_append tenant stream command ev =
     (if tenant = '''' \<or> stream = '''' then Inl ErrEventTenantStream
      else if command = '''' then Inl ErrEventCommand
      else if ne_actor ev = '''' then Inl ErrEventActor
      else if ne_type ev = '''' then Inl ErrEventType
      else Inr ())"

definition new_event :: "int \<Rightarrow> string \<Rightarrow> string \<Rightarrow> int \<Rightarrow> string \<Rightarrow> NewEvent \<Rightarrow> int \<Rightarrow> Event" where
  "new_event now tenant stream afterVersion command ev i =
     \<lparr>ev_id = i, ev_tenant = tenant, ev_stream = stream, ev_version = i64 (afterVersion + 1),
       ev_type = ne_type ev, ev_schema_version = ne_schema_version ev, ev_payload = ne_payload ev,
       ev_actor = ne_actor ev, ev_command = command,
       ev_occurred_at = (if is_zero_time (ne_occurred_at ev) then now else ne_occurred_at ev),
       ev_recorded_at = now\<rparr>"

definition event_entry :: "Event \<Rightarrow> feed_Entry" where
  "event_entry e =
     (let object = cut_before CHR '':'' (ev_stream e)
      in \<lparr>fe_tenant = ev_tenant e, fe_source = ''event'', fe_ref = format_int (ev_id e), fe_object = object,
           fe_scope = ScopeKeyFor object, fe_recorded_at = ev_recorded_at e, fe_actor = ev_actor e\<rparr>)"

definition Append ::
  "int \<Rightarrow> string \<Rightarrow> string \<Rightarrow> int \<Rightarrow> string \<Rightarrow> NewEvent \<Rightarrow> ('x event_db_scheme, event_error, Event) tx" where
  "Append now tenant stream afterVersion command ev db =
     (case validate_append tenant stream command ev of Inl err \<Rightarrow> (Inl err, db)
      | Inr _ \<Rightarrow>
     (case scanByCommandID tenant command db of Some existing \<Rightarrow> (Inr existing, db)
      | None \<Rightarrow>
          let e = new_event now tenant stream afterVersion command ev (event_next db) in
     (case insert_event e db of
        None \<Rightarrow>
          (case scanByCommandID tenant command db of Some existing \<Rightarrow> (Inr existing, db)
           | None \<Rightarrow> (Inl ErrVersionConflict, db))
      | Some db1 \<Rightarrow>
     (case feed_Append (event_entry e) db1 of
        (Inl err, _) \<Rightarrow> (Inl (ErrEventFeed err), db)
      | (Inr _, db2) \<Rightarrow> (Inr e, db2)))))"

text \<open>\<open>EventSourced.Emit\<close>: authorize, stamp the actor, append.\<close>

definition Emit ::
  "int \<Rightarrow> Actor option \<Rightarrow> string \<Rightarrow> string \<Rightarrow> string \<Rightarrow> string \<Rightarrow> int \<Rightarrow> string \<Rightarrow> NewEvent \<Rightarrow>
     ('x event_db_scheme, event_error, Event) tx" where
  "Emit now ctx object tenant action stream afterVersion command ev db =
     (case Authorize db ctx object action of Inl e \<Rightarrow> (Inl (ErrEmitAuthz e), db)
      | Inr actor \<Rightarrow> Append now tenant stream afterVersion command (ev\<lparr>ne_actor := UserID actor\<rparr>) db)"

section \<open>Reading\<close>

definition ReadFeed :: "'x event_db_scheme \<Rightarrow> string \<Rightarrow> int \<Rightarrow> int \<Rightarrow> event_error + Event list" where
  "ReadFeed db tenant afterCursor limit =
     (if tenant = '''' then Inl ErrEventTenantStream
      else if limit \<le> 0 then Inl ErrEventLimit
      else Inr (take (nat limit) (sort_key ev_id
             (filter (\<lambda>e. ev_tenant e = tenant \<and> ev_id e > afterCursor) (events db)))))"

type_synonym upcasters = "((string \<times> int) \<times> (json \<Rightarrow> json option)) list"

definition upcast_Register :: "string \<Rightarrow> int \<Rightarrow> (json \<Rightarrow> json option) \<Rightarrow> upcasters \<Rightarrow> upcasters" where
  "upcast_Register ty fromVersion fn fns = ((ty, fromVersion), fn) # fns"

function upcast_Apply :: "upcasters \<Rightarrow> Event \<Rightarrow> event_error + Event" where
  "upcast_Apply fns ev =
     (case map_of fns (ev_type ev, ev_schema_version ev) of
        None \<Rightarrow> Inr ev
      | Some fn \<Rightarrow>
     (case fn (ev_payload ev) of None \<Rightarrow> Inl (ErrUpcast (ev_type ev) (ev_schema_version ev))
      | Some payload \<Rightarrow> upcast_Apply fns (ev\<lparr>ev_payload := payload, ev_schema_version := ev_schema_version ev + 1\<rparr>)))"
  by pat_completeness auto

lemma registered_versions_decrease:
  fixes fns :: upcasters
  assumes "map_of fns (ty, v) = Some fn"
  shows "length (filter (\<lambda>k. v + 1 \<le> snd (fst k)) fns) < length (filter (\<lambda>k. v \<le> snd (fst k)) fns)"
proof -
  have mem: "((ty, v), fn) \<in> set fns" using assms by (rule map_of_SomeD)
  have "filter (\<lambda>k. v + 1 \<le> snd (fst k)) (filter (\<lambda>k. v \<le> snd (fst k)) fns) =
      filter (\<lambda>k. v + 1 \<le> snd (fst k)) fns"
    unfolding filter_filter by (rule filter_cong) auto
  moreover have "length (filter P xs) < length xs" if "x \<in> set xs" "\<not> P x" for P x and xs :: upcasters
    using that by (rule length_filter_less)
  note this [of "((ty, v), fn)" "filter (\<lambda>k. v \<le> snd (fst k)) fns" "\<lambda>k. v + 1 \<le> snd (fst k)"]
  ultimately show ?thesis using mem by simp
qed

termination upcast_Apply
  by (relation "measure (\<lambda>(fns, ev). length (filter (\<lambda>k. ev_schema_version ev \<le> snd (fst k)) fns))")
    (auto dest: registered_versions_decrease)

declare upcast_Apply.simps [simp del]

text \<open>A nil \<open>*Upcasters\<close> is \<open>None\<close>.\<close>

definition apply_upcasters :: "upcasters option \<Rightarrow> Event \<Rightarrow> event_error + Event" where
  "apply_upcasters u ev = (case u of None \<Rightarrow> Inr ev | Some fns \<Rightarrow> upcast_Apply fns ev)"

section \<open>Snapshots\<close>

definition SaveSnapshot ::
  "int \<Rightarrow> string \<Rightarrow> string \<Rightarrow> int \<Rightarrow> json \<Rightarrow> ('x event_db_scheme, event_error, unit) tx" where
  "SaveSnapshot now tenant stream version state db =
     (if tenant = '''' \<or> stream = '''' then (Inl ErrEventTenantStream, db)
      else
        let s = \<lparr>sn_tenant = tenant, sn_stream = stream, sn_version = version, sn_state = state, sn_recorded_at = now\<rparr>
        in (Inr (), db\<lparr>stream_snapshots :=
              (if (\<exists>x \<in> set (stream_snapshots db). sn_tenant x = tenant \<and> sn_stream x = stream)
               then map (\<lambda>x. if sn_tenant x = tenant \<and> sn_stream x = stream then s else x) (stream_snapshots db)
               else stream_snapshots db @ [s])\<rparr>))"

definition LoadSnapshot :: "'x event_db_scheme \<Rightarrow> string \<Rightarrow> string \<Rightarrow> event_error + Snapshot option" where
  "LoadSnapshot db tenant stream =
     (if tenant = '''' \<or> stream = '''' then Inl ErrEventTenantStream
      else Inr (List.find (\<lambda>s. sn_tenant s = tenant \<and> sn_stream s = stream) (stream_snapshots db)))"

definition LoadStream ::
  "'x event_db_scheme \<Rightarrow> string \<Rightarrow> string \<Rightarrow> upcasters option \<Rightarrow> event_error + Snapshot option \<times> Event list" where
  "LoadStream db tenant stream u =
     (if tenant = '''' \<or> stream = '''' then Inl ErrEventTenantStream
      else
     (case LoadSnapshot db tenant stream of Inl e \<Rightarrow> Inl e
      | Inr snapshot \<Rightarrow>
          let afterVersion = (case snapshot of None \<Rightarrow> 0 | Some s \<Rightarrow> sn_version s) in
     (case traverse (apply_upcasters u) (sort_key ev_version
             (filter (\<lambda>e. ev_tenant e = tenant \<and> ev_stream e = stream \<and> ev_version e > afterVersion) (events db))) of
        Inl e \<Rightarrow> Inl e
      | Inr list \<Rightarrow> Inr (snapshot, list))))"

section \<open>Facts about append\<close>

text \<open>The log is well formed: ids increase, both unique indexes hold, and the feed is well formed.\<close>

definition log_ok :: "'x event_db_scheme \<Rightarrow> bool" where
  "log_ok db \<longleftrightarrow> feed_ok db \<and> sorted_wrt (<) (map ev_id (events db)) \<and>
     (\<forall>e \<in> set (events db). ev_id e < event_next db) \<and>
     distinct (map ev_command (events db)) \<and>
     distinct (map (\<lambda>e. (ev_tenant e, ev_stream e, ev_version e)) (events db))"

lemma scan_SomeD:
  "scanByCommandID t c db = Some e \<Longrightarrow> e \<in> set (events db) \<and> ev_tenant e = t \<and> ev_command e = c"
  unfolding scanByCommandID_def by (drule find_SomeD) auto

lemma insert_event_Some:
  "insert_event e db = Some db' \<longleftrightarrow>
     \<not> unique_violation e (events db) \<and> db' = db\<lparr>events := events db @ [e], event_next := event_next db + 1\<rparr>"
  by (auto simp: insert_event_def)

lemma Append_cases:
  obtains (failed) err where "Append now t s v c ev db = (Inl err, db)"
  | (replayed) e where "Append now t s v c ev db = (Inr e, db)" "scanByCommandID t c db = Some e"
  | (appended) e where "Append now t s v c ev db = (Inr e, db\<lparr>events := events db @ [e], event_next := event_next db + 1,
        change_feed := change_feed db @ [change_of (feed_next db) (event_entry e)], feed_next := feed_next db + 1\<rparr>)"
      "e = new_event now t s v c ev (event_next db)" "\<not> unique_violation e (events db)"
      "scanByCommandID t c db = None" "validate_append t s c ev = Inr ()"
proof -
  let ?e = "new_event now t s v c ev (event_next db)"
  let ?db1 = "db\<lparr>events := events db @ [?e], event_next := event_next db + 1\<rparr>"
  show thesis
  proof (cases "validate_append t s c ev")
    case (Inl err)
    then show thesis by (intro failed) (simp add: Append_def)
  next
    case ok: (Inr u)
    show thesis
    proof (cases "scanByCommandID t c db")
      case (Some e)
      then show thesis by (intro replayed) (simp_all add: Append_def ok)
    next
      case None
      show thesis
      proof (cases "unique_violation ?e (events db)")
        case True
          then show thesis by (intro failed) (simp add: Append_def ok None insert_event_def Let_def)
      next
        case False
        then have ins: "insert_event ?e db = Some ?db1" by (simp add: insert_event_def)
        show thesis
        proof (cases rule: feed_Append_cases [of "event_entry ?e" ?db1])
          case (failed err)
          then have "Append now t s v c ev db = (Inl (ErrEventFeed err), db)"
            by (simp add: Append_def ok None ins Let_def)
          then show thesis by (rule that(1))
        next
          case appended
          then have "Append now t s v c ev db = (Inr ?e, db\<lparr>events := events db @ [?e], event_next := event_next db + 1,
              change_feed := change_feed db @ [change_of (feed_next db) (event_entry ?e)], feed_next := feed_next db + 1\<rparr>)"
            by (simp add: Append_def ok None ins Let_def)
          then show thesis using False None ok by (intro that(3)) simp_all
        qed
      qed
    qed
  qed
qed

lemma new_event_fields [simp]:
  "ev_tenant (new_event now t s v c ev i) = t" "ev_command (new_event now t s v c ev i) = c"
  "ev_stream (new_event now t s v c ev i) = s" "ev_id (new_event now t s v c ev i) = i"
  "ev_version (new_event now t s v c ev i) = i64 (v + 1)" "ev_type (new_event now t s v c ev i) = ne_type ev"
  "ev_payload (new_event now t s v c ev i) = ne_payload ev" "ev_actor (new_event now t s v c ev i) = ne_actor ev"
  "ev_recorded_at (new_event now t s v c ev i) = now"
  by (simp_all add: new_event_def)

lemma log_ok_feed_append:
  assumes "log_ok db"
  shows "feed_ok (db\<lparr>change_feed := change_feed db @ [change_of (feed_next db) e], feed_next := feed_next db + 1\<rparr>)"
  using assms by (auto simp: log_ok_def feed_ok_def sorted_wrt_append intro: less_trans)

lemma log_ok_insert:
  assumes "log_ok db" "\<not> unique_violation e (events db)" "ev_id e = event_next db"
  shows "log_ok (db\<lparr>events := events db @ [e], event_next := event_next db + 1\<rparr>)"
  using assms
  by (auto simp: log_ok_def feed_ok_def sorted_wrt_append unique_violation_def image_iff intro: less_trans)

lemma Append_log_ok:
  assumes "log_ok db"
  shows "log_ok (snd (Append now t s v c ev db))"
proof (cases rule: Append_cases [of now t s v c ev db])
  case (appended e)
  have "log_ok (db\<lparr>events := events db @ [e], event_next := event_next db + 1\<rparr>)"
    using appended by (intro log_ok_insert [OF assms]) simp_all
  from log_ok_feed_append [OF this, of "event_entry e"] this show ?thesis
    unfolding appended(1) by (simp add: log_ok_def)
qed (use assms in simp_all)

text \<open>The log only grows.\<close>

lemma Append_events: "\<exists>new. events (snd (Append now t s v c ev db)) = events db @ new"
  by (cases rule: Append_cases [of now t s v c ev db]) auto

lemma scan_append: "scanByCommandID t c db = Some e \<Longrightarrow> events db' = events db @ new \<Longrightarrow> scanByCommandID t c db' = Some e"
  by (simp add: scanByCommandID_def find_append)

lemma Append_records: "fst (Append now t s v c ev db) = Inr e \<Longrightarrow> scanByCommandID t c (snd (Append now t s v c ev db)) = Some e"
proof (cases rule: Append_cases [of now t s v c ev db])
  case (appended e')
  assume "fst (Append now t s v c ev db) = Inr e"
  moreover have "ev_tenant e' = t" "ev_command e' = c" using appended(2) by simp_all
  ultimately show ?thesis using appended(1,4) by (simp add: scanByCommandID_def find_append)
qed auto

text \<open>The event store is a command log: the arguments of an append are everything but tenant and command.\<close>

type_synonym append_args = "int \<times> string \<times> int \<times> NewEvent"

definition append_cmd :: "append_args \<Rightarrow> string \<Rightarrow> string \<Rightarrow> ('x event_db_scheme, event_error, Event) tx" where
  "append_cmd a t c db = (case a of (now, s, v, ev) \<Rightarrow> Append now t s v c ev db)"

interpretation event_log: command_log "\<lambda>db t c. scanByCommandID t c db" append_cmd
proof (unfold_locales, goal_cases)
  case (1 db t c e arg)
  obtain now s v ev where "arg = (now, s, v, ev)" by (metis prod_cases4)
  with 1 show ?case
    by (cases rule: Append_cases [of now t s v c ev db]) (auto simp: append_cmd_def)
next
  case (2 arg t c db e)
  then show ?case by (auto simp: append_cmd_def intro: Append_records split: prod.splits)
next
  case (3 db t c e arg t' c')
  obtain now s v ev where a: "arg = (now, s, v, ev)" by (metis prod_cases4)
  obtain new where "events (snd (Append now t' s v c' ev db)) = events db @ new"
    using Append_events by blast
  with 3 a show ?case using scan_append by (auto simp: append_cmd_def)
next
  case (4 arg t c db err)
  obtain now s v ev where "arg = (now, s, v, ev)" by (metis prod_cases4)
  with 4 show ?case
    by (cases rule: Append_cases [of now t s v c ev db]) (auto simp: append_cmd_def)
qed

lemma format_int_nonempty [simp]: "format_int x \<noteq> []"
  by (simp add: format_int_def)

lemma event_entry_valid:
  assumes "ev_tenant e \<noteq> ''''" "ev_recorded_at e \<noteq> zero_time"
  shows "validate_entry (event_entry e) = Inr ()"
  using assms by (simp add: validate_entry_def event_entry_def Let_def is_zero_time_def)

definition empty_event_db :: event_db where
  "empty_event_db = \<lparr>roles = [], role_permissions = [], user_roles = [], change_feed = [], feed_next = 1,
     events = [], event_next = 1, stream_snapshots = []\<rparr>"

lemma log_ok_empty: "log_ok empty_event_db"
  by (simp add: log_ok_def feed_ok_def empty_event_db_def)

definition run_appends :: "(append_args \<times> string \<times> string) list \<Rightarrow> 'x event_db_scheme \<Rightarrow> 'x event_db_scheme" where
  "run_appends cmds db = fold (\<lambda>(a, t, c) db. snd (append_cmd a t c db)) cmds db"

lemma run_appends_run: "run_appends cmds db = event_log.run cmds db"
  by (simp add: run_appends_def event_log.run_def)

lemma append_cmd_log:
  "log_ok db \<Longrightarrow> log_ok (snd (append_cmd a t c db))"
  "\<exists>new. events (snd (append_cmd a t c db)) = events db @ new"
  using Append_log_ok Append_events by (auto simp: append_cmd_def split: prod.splits)

lemma run_appends_log: "log_ok db \<Longrightarrow> log_ok (run_appends cmds db)"
proof (induction cmds arbitrary: db)
  case (Cons x cmds)
  then show ?case by (cases x) (simp add: run_appends_def append_cmd_log)
qed (simp add: run_appends_def)

lemma run_appends_grows: "\<exists>new. events (run_appends cmds db) = events db @ new"
proof (induction cmds arbitrary: db)
  case (Cons x cmds)
  obtain a t c where x: "x = (a, t, c)" by (metis prod_cases3)
  obtain new where new: "events (snd (append_cmd a t c db)) = events db @ new" using append_cmd_log(2) by blast
  obtain new' where "events (run_appends cmds (snd (append_cmd a t c db))) = events (snd (append_cmd a t c db)) @ new'"
    using Cons.IH by blast
  with x new show ?case by (simp add: run_appends_def)
qed (simp add: run_appends_def)

section \<open>Properties\<close>

definition sample_event :: "string \<Rightarrow> NewEvent" where
  "sample_event ty = \<lparr>ne_type = ty, ne_schema_version = 1, ne_payload = JNull, ne_actor = ''u1'', ne_occurred_at = 0\<rparr>"

text \<open>C30: a command takes effect once (INV-E4). After a successful \<open>Append\<close> and any run of further appends by
  any tenants, appending again under the same tenant and command id, with whatever stream, version and
  event, returns the event recorded first and changes nothing.\<close>

theorem Append_exactly_once:
  assumes "fst (Append now t s v c ev db) = Inr e"
    and "db' = run_appends cmds (snd (Append now t s v c ev db))" "validate_append t s' c ev' = Inr ()"
  shows "Append now' t s' v' c ev' db' = (Inr e, db')"
proof -
  have "scanByCommandID t c db' = Some e"
    unfolding assms(2) run_appends_run by (rule event_log.run_stable [OF Append_records [OF assms(1)]])
  with assms(3) show ?thesis by (simp add: Append_def)
qed

theorem Append_exactly_once_witness:
  "\<exists>e (db' :: event_db). Append 9 ''acme'' ''other:1'' 7 ''cmd'' (sample_event ''b'') db' = (Inr e, db') \<and> ev_type e = ''a'' \<and>
     ev_stream e = ''doc:1'' \<and> events db' = [e]"
proof -
  let ?A = "Append 5 ''acme'' ''doc:1'' 0 ''cmd'' (sample_event ''a'') empty_event_db"
  let ?e = "new_event 5 ''acme'' ''doc:1'' 0 ''cmd'' (sample_event ''a'') 1"
  have A: "fst ?A = Inr ?e" "events (snd ?A) = [?e]"
    by (simp_all add: Append_def validate_append_def sample_event_def scanByCommandID_def empty_event_db_def
        insert_event_def unique_violation_def feed_Append_def event_entry_valid zero_time_def day_ns_def Let_def)
  have v: "validate_append ''acme'' ''other:1'' ''cmd'' (sample_event ''b'') = Inr ()"
    by (simp add: validate_append_def sample_event_def)
  have "snd ?A = run_appends [] (snd ?A)" by (simp add: run_appends_def)
  from Append_exactly_once [OF A(1) this v] have "Append 9 ''acme'' ''other:1'' 7 ''cmd'' (sample_event ''b'') (snd ?A) = (Inr ?e, snd ?A)" .
  moreover have "ev_type ?e = ''a''" "ev_stream ?e = ''doc:1''" by (simp_all add: sample_event_def)
  ultimately show ?thesis using A(2) by blast
qed



text \<open>
  The version is not compared with the stream's current version: a version further ahead than the next
  one is accepted and leaves a gap, where the comment of \<open>Append\<close> promises a conflict.
\<close>

lemma Append_accepts_gap:
  "fst (Append 5 ''acme'' ''doc:1'' 41 ''cmd'' (sample_event ''a'') empty_event_db) =
     Inr (new_event 5 ''acme'' ''doc:1'' 41 ''cmd'' (sample_event ''a'') 1)"
  by (simp add: Append_def validate_append_def sample_event_def scanByCommandID_def empty_event_db_def
      insert_event_def unique_violation_def feed_Append_def event_entry_valid zero_time_def day_ns_def Let_def)

text \<open>A command id used by another tenant is reported as a version conflict, not as a replay.\<close>

lemma Append_foreign_command:
  assumes "validate_append t s c ev = Inr ()" "scanByCommandID t c db = None"
    and "x \<in> set (events db)" "ev_command x = c"
  shows "Append now t s v c ev db = (Inl ErrVersionConflict, db)"
  using assms by (auto simp: Append_def insert_event_def unique_violation_def Let_def)



section \<open>Reading a stream back\<close>

definition stream_events :: "'x event_db_scheme \<Rightarrow> string \<Rightarrow> string \<Rightarrow> Event list" where
  "stream_events db t s = sort_key ev_version (filter (\<lambda>e. ev_tenant e = t \<and> ev_stream e = s) (events db))"

lemma sort_key_filter_commute: "sort_key f (filter P xs) = filter P (sort_key f xs)"
  by (rule filter_sort [symmetric])

lemma filter_above_sorted:
  "sorted (map f xs) \<Longrightarrow> filter (\<lambda>x. f x > (k :: int)) xs = dropWhile (\<lambda>x. f x \<le> k) xs"
proof (induction xs)
  case (Cons x xs)
  show ?case
  proof (cases "f x \<le> k")
    case True
    with Cons show ?thesis by simp
  next
    case False
    with Cons.prems have "\<forall>y \<in> set (x # xs). f y > k" by force
    with False show ?thesis by (simp only: filter_True dropWhile.simps if_False)
  qed
qed simp

lemma stream_events_after:
  "sort_key ev_version (filter (\<lambda>e. ev_tenant e = t \<and> ev_stream e = s \<and> ev_version e > v) (events db)) =
     dropWhile (\<lambda>e. ev_version e \<le> v) (stream_events db t s)"
proof -
  have "filter (\<lambda>e. ev_tenant e = t \<and> ev_stream e = s \<and> ev_version e > v) (events db) =
      filter (\<lambda>e. ev_version e > v) (filter (\<lambda>e. ev_tenant e = t \<and> ev_stream e = s) (events db))"
    unfolding filter_filter by (rule filter_cong) auto
  then show ?thesis
    using sort_key_filter_commute [of ev_version "\<lambda>e. ev_version e > v" "filter (\<lambda>e. ev_tenant e = t \<and> ev_stream e = s) (events db)"]
      filter_above_sorted [OF sorted_sort_key [of ev_version "filter (\<lambda>e. ev_tenant e = t \<and> ev_stream e = s) (events db)"], of v]
    by (simp only: stream_events_def)
qed

lemma traverse_Inr: "traverse Inr xs = Inr xs"
  by (induction xs) simp_all

lemma apply_no_upcasters: "apply_upcasters None = Inr"
  by (simp add: apply_upcasters_def fun_eq_iff)

lemma stored_snapshot:
  "t \<noteq> '''' \<Longrightarrow> s \<noteq> '''' \<Longrightarrow> LoadSnapshot (snd (SaveSnapshot now t s v st db)) t s =
     Inr (Some \<lparr>sn_tenant = t, sn_stream = s, sn_version = v, sn_state = st, sn_recorded_at = now\<rparr>)"
proof -
  let ?n = "\<lparr>sn_tenant = t, sn_stream = s, sn_version = v, sn_state = st, sn_recorded_at = now\<rparr>"
  have "List.find (\<lambda>x. sn_tenant x = t \<and> sn_stream x = s) (map (\<lambda>x. if sn_tenant x = t \<and> sn_stream x = s then ?n else x) xs) =
      (if \<exists>x \<in> set xs. sn_tenant x = t \<and> sn_stream x = s then Some ?n else None)" for xs
    by (induction xs) auto
  note replaced = this
  show ?thesis if "t \<noteq> ''''" "s \<noteq> ''''"
  proof (cases "\<exists>x \<in> set (stream_snapshots db). sn_tenant x = t \<and> sn_stream x = s")
    case True
    with that replaced show ?thesis by (simp add: LoadSnapshot_def SaveSnapshot_def Let_def)
  next
    case False
    then have "List.find (\<lambda>x. sn_tenant x = t \<and> sn_stream x = s) (stream_snapshots db) = None"
      by (simp add: find_None_set)
    with that False show ?thesis by (auto simp: LoadSnapshot_def SaveSnapshot_def Let_def find_append)
  qed
qed

text \<open>C33: a snapshot replaces the events it folds. If the state saved for a version is the fold of the events
  of the stream up to that version, then folding what \<open>LoadStream\<close> returns, from the snapshot's state,
  gives the fold of the whole stream in version order, whichever projection is folded.\<close>

theorem LoadStream_snapshot_fold:
  assumes "t \<noteq> ''''" "s \<noteq> ''''"
    and "decode st = foldl f init (takeWhile (\<lambda>e. ev_version e \<le> v) (stream_events db t s))"
  shows "\<exists>sn es. LoadStream (snd (SaveSnapshot now t s v st db)) t s None = Inr (Some sn, es) \<and>
    foldl f (decode (sn_state sn)) es = foldl f init (stream_events db t s)"
proof -
  let ?db = "snd (SaveSnapshot now t s v st db)"
  have same: "events ?db = events db"
    by (simp add: SaveSnapshot_def Let_def)
  let ?sn = "\<lparr>sn_tenant = t, sn_stream = s, sn_version = v, sn_state = st, sn_recorded_at = now\<rparr>"
  have "LoadStream ?db t s None = Inr (Some ?sn, dropWhile (\<lambda>e. ev_version e \<le> v) (stream_events db t s))"
    unfolding LoadStream_def stored_snapshot [OF assms(1,2)] same
    using assms(1,2) by (simp add: stream_events_after apply_no_upcasters traverse_Inr)
  moreover have "foldl f (decode st) (dropWhile (\<lambda>e. ev_version e \<le> v) (stream_events db t s)) =
      foldl f init (stream_events db t s)"
    unfolding assms(3) foldl_append [symmetric] takeWhile_dropWhile_id ..
  ultimately show ?thesis by simp
qed

theorem LoadStream_snapshot_fold_witness:
  "\<exists>sn es. LoadStream (snd (SaveSnapshot 6 ''acme'' ''doc:1'' 1 (JInt 1)
      (run_appends [((5, ''doc:1'', 0, sample_event ''a''), ''acme'', ''c1''), ((5, ''doc:1'', 1, sample_event ''b''), ''acme'', ''c2'')]
        empty_event_db))) ''acme'' ''doc:1'' None = Inr (Some sn, es) \<and>
    foldl (\<lambda>n e. n + 1) (jint (Some (sn_state sn))) es = (2 :: int)"
proof -
  let ?db = "run_appends [((5, ''doc:1'', 0, sample_event ''a''), ''acme'', ''c1''), ((5, ''doc:1'', 1, sample_event ''b''), ''acme'', ''c2'')]
        empty_event_db"
  have "events ?db = [new_event 5 ''acme'' ''doc:1'' 0 ''c1'' (sample_event ''a'') 1,
      new_event 5 ''acme'' ''doc:1'' 1 ''c2'' (sample_event ''b'') 2]"
    by (simp add: run_appends_def append_cmd_def Append_def validate_append_def sample_event_def scanByCommandID_def
        empty_event_db_def insert_event_def unique_violation_def feed_Append_def event_entry_valid zero_time_def
        day_ns_def Let_def int64_def)
  then have es: "stream_events ?db ''acme'' ''doc:1'' = [new_event 5 ''acme'' ''doc:1'' 0 ''c1'' (sample_event ''a'') 1,
      new_event 5 ''acme'' ''doc:1'' 1 ''c2'' (sample_event ''b'') 2]"
    by (simp add: stream_events_def int64_def)
  have "jint (Some (JInt 1)) = foldl (\<lambda>n e. n + 1) 0 (takeWhile (\<lambda>e. ev_version e \<le> 1) (stream_events ?db ''acme'' ''doc:1''))"
    unfolding es by (simp add: int64_def)
  from LoadStream_snapshot_fold [of "''acme''" "''doc:1''" "\<lambda>j. jint (Some j)", OF _ _ this, of 6] show ?thesis
    unfolding es by simp
qed

section \<open>Upcasting\<close>

text \<open>upcasting ends at the newest version it can reach. For any registry the loop of \<open>Apply\<close> returns: an
  error of one upcaster, or the same event (identity, stream, type, actor, command) at a schema version not
  below its own for which no upcaster is registered.\<close>

theorem upcast_Apply_final:
  "case upcast_Apply fns ev of
     Inl err \<Rightarrow> \<exists>v. err = ErrUpcast (ev_type ev) v \<and> ev_schema_version ev \<le> v
   | Inr ev' \<Rightarrow> map_of fns (ev_type ev', ev_schema_version ev') = None \<and> ev_schema_version ev \<le> ev_schema_version ev' \<and>
       ev' = ev\<lparr>ev_payload := ev_payload ev', ev_schema_version := ev_schema_version ev'\<rparr>"
proof (induction fns ev rule: upcast_Apply.induct)
  case (1 fns ev)
  show ?case
  proof (cases "map_of fns (ev_type ev, ev_schema_version ev)")
    case None
    then show ?thesis by (simp add: upcast_Apply.simps [of fns ev])
  next
    case (Some fn)
    show ?thesis
    proof (cases "fn (ev_payload ev)")
      case None
      with Some show ?thesis by (simp add: upcast_Apply.simps [of fns ev])
    next
      case p: (Some payload)
      let ?ev = "ev\<lparr>ev_payload := payload, ev_schema_version := ev_schema_version ev + 1\<rparr>"
      have step: "upcast_Apply fns ev = upcast_Apply fns ?ev"
        using Some p by (simp add: upcast_Apply.simps [of fns ev])
      note IH = "1.IH" [OF Some p]
      show ?thesis
      proof (cases "upcast_Apply fns ?ev")
        case (Inl err)
        with IH obtain w where "err = ErrUpcast (ev_type ev) w" "ev_schema_version ev + 1 \<le> w" by auto
        then show ?thesis unfolding step Inl by auto
      next
        case (Inr ev')
        with IH have "map_of fns (ev_type ev', ev_schema_version ev') = None"
          "ev_schema_version ev + 1 \<le> ev_schema_version ev'"
          "ev' = ?ev\<lparr>ev_payload := ev_payload ev', ev_schema_version := ev_schema_version ev'\<rparr>" by auto
        then show ?thesis unfolding step Inr using Some by simp
      qed
    qed
  qed
qed

lemma upcast_example:
  "\<exists>ev'. upcast_Apply (upcast_Register ''a'' 1 (\<lambda>_. Some (JInt 2)) []) (new_event 5 ''acme'' ''doc:1'' 0 ''c'' (sample_event ''a'') 1) =
      Inr ev' \<and> ev_schema_version ev' = 2 \<and> ev_payload ev' = JInt 2"
  by (simp add: upcast_Apply.simps upcast_Register_def new_event_def sample_event_def)

end
