(* ===== verification/MetaSchema.thy ===== *)
theory MetaSchema
  imports GoText ChangeFeed
begin

text \<open>
  \<open>kernel/metadata\<close>, schemas: object definitions and their validation (\<open>schema.go\<close>), overlays and how
  they merge into an effective schema (\<open>overlay.go\<close>, and the stored layers of \<open>tenant_overlay.go\<close>),
  column types and generated tables (\<open>ddl.go\<close>), and additive schema evolution (\<open>evolve.go\<close>). YAML
  documents are decoded by \<open>gopkg.in/yaml.v3\<close> outside the model; a Go map is an association list with one
  entry per key. Error values keep the sentinel and the name it reports.
\<close>

datatype Persistence = PersistenceCRUD | PersistenceEventSourced | PersistenceOther string

datatype FieldType =
    FieldText | FieldLongText | FieldRichText | FieldInt | FieldDecimal | FieldMoney | FieldCurrency
  | FieldDate | FieldDatetime | FieldBool | FieldEnum | FieldLink | FieldTable | FieldJSON | FieldFile
  | FieldEmail | FieldPhone | FieldAddress | FieldDuration | FieldPercent | FieldComputed
  | FieldUnknown string

record Field =
  f_name :: string
  f_type :: FieldType
  f_required :: bool
  f_target :: string
  f_index :: bool
  f_options :: "string list"
  f_order :: int
  f_group :: string
  f_widget :: string
  f_localized :: bool
  f_from_overlay :: bool

type_synonym Permissions = "(string \<times> string list) list"

record MetaObject =
  ObjectName :: string
  Module :: string
  Persistence :: Persistence
  Fields :: "Field list"
  Permissions :: Permissions

record Overlay =
  ov_Object :: string
  ov_AddFields :: "Field list"
  ov_Permissions :: Permissions
  ov_NarrowOptions :: "(string \<times> string list) list"

datatype meta_error =
    ErrInvalidObject string
  | ErrOverlayConflict string
  | ErrPermissionFloorLowered string
  | ErrOptionSetWidened string
  | ErrDestructiveDiff string
  | ErrNonMonotonicVersion
  | ErrUnsupportedFieldType
  | ErrOverlayTarget string
  | ErrParseOverlay
  | ErrMetaTenant
  | ErrMetaLayer
  | ErrNoSnapshot
  | ErrWrongPersistence
  | ErrValidation string
  | ErrRecordNotFound
  | ErrMarshal
  | ErrDatabase
  | ErrIDTaken
  | ErrHookRejected
  | ErrNotLocalized string
  | ErrMetaLimit
  | ErrImmutable
  | MetaAuthz authz_error
  | MetaFeed feed_error

section \<open>Validation\<close>

definition validFieldType :: "FieldType \<Rightarrow> bool" where
  "validFieldType t \<longleftrightarrow> (case t of FieldUnknown _ \<Rightarrow> False | _ \<Rightarrow> True)"

definition localizableType :: "FieldType \<Rightarrow> bool" where
  "localizableType t \<longleftrightarrow> t = FieldText \<or> t = FieldLongText \<or> t = FieldRichText"

definition reservedFieldName :: "string \<Rightarrow> bool" where
  "reservedFieldName s \<longleftrightarrow> s = ''translations'' \<or> s = ''i18n''"

definition is_lower :: "char \<Rightarrow> bool" where
  "is_lower c \<longleftrightarrow> 97 \<le> (of_char c :: nat) \<and> (of_char c :: nat) \<le> 122"

text \<open>The regular expression \<open>^[a-z][a-z0-9_]*$\<close>\<close>

fun fieldNameRE :: "string \<Rightarrow> bool" where
  "fieldNameRE [] = False"
| "fieldNameRE (c # cs) = (is_lower c \<and> list_all (\<lambda>x. is_lower x \<or> is_digit x \<or> x = CHR ''_'') cs)"

text \<open>\<open>widgetApplies\<close>: the types a widget may override, or \<open>None\<close> for an unknown widget.\<close>

definition widgetApplies :: "string \<Rightarrow> (FieldType \<Rightarrow> bool) option" where
  "widgetApplies w =
     (if w = ''textarea'' then Some (\<lambda>t. t = FieldText \<or> t = FieldLongText \<or> t = FieldRichText)
      else if w = ''radio'' then Some (\<lambda>t. t = FieldEnum)
      else None)"

fun validate_option_list :: "string \<Rightarrow> string list \<Rightarrow> string set \<Rightarrow> meta_error + unit" where
  "validate_option_list name [] seen = Inr ()"
| "validate_option_list name (opt # opts) seen =
     (if opt = '''' \<or> trim_space opt \<noteq> opt then Inl (ErrInvalidObject name)
      else if opt \<in> seen then Inl (ErrInvalidObject name)
      else validate_option_list name opts (insert opt seen))"

definition validateOptions :: "Field \<Rightarrow> meta_error + unit" where
  "validateOptions f =
     (if f_type f \<noteq> FieldEnum then
        (if f_options f \<noteq> [] then Inl (ErrInvalidObject (f_name f)) else Inr ())
      else if f_options f = [] then Inl (ErrInvalidObject (f_name f))
      else validate_option_list (f_name f) (f_options f) {})"

definition validate_field :: "Field \<Rightarrow> meta_error + unit" where
  "validate_field f =
     (if f_name f = '''' then Inl (ErrInvalidObject '''')
      else if \<not> fieldNameRE (f_name f) then Inl (ErrInvalidObject (f_name f))
      else if reservedFieldName (f_name f) then Inl (ErrInvalidObject (f_name f))
      else if \<not> validFieldType (f_type f) then Inl (ErrInvalidObject (f_name f))
      else if f_localized f \<and> \<not> localizableType (f_type f) then Inl (ErrInvalidObject (f_name f))
      else
     (case validateOptions f of Inl e \<Rightarrow> Inl e
      | Inr _ \<Rightarrow>
          if f_widget f = '''' then Inr ()
          else (case widgetApplies (f_widget f) of None \<Rightarrow> Inl (ErrInvalidObject (f_name f))
                | Some applies \<Rightarrow> if \<not> applies (f_type f) then Inl (ErrInvalidObject (f_name f)) else Inr ())))"

fun validate_fields :: "Field list \<Rightarrow> string set \<Rightarrow> meta_error + unit" where
  "validate_fields [] seen = Inr ()"
| "validate_fields (f # fs) seen =
     (case validate_field f of Inl e \<Rightarrow> Inl e
      | Inr _ \<Rightarrow> if f_name f \<in> seen then Inl (ErrInvalidObject (f_name f))
                 else validate_fields fs (insert (f_name f) seen))"

definition validate_object :: "MetaObject \<Rightarrow> meta_error + unit" where
  "validate_object o' =
     (if ObjectName o' = '''' then Inl (ErrInvalidObject '''')
      else if Persistence o' \<noteq> PersistenceCRUD \<and> Persistence o' \<noteq> PersistenceEventSourced
      then Inl (ErrInvalidObject (ObjectName o'))
      else if Fields o' = [] then Inl (ErrInvalidObject (ObjectName o'))
      else validate_fields (Fields o') {})"

definition allows :: "Field \<Rightarrow> string \<Rightarrow> bool" where
  "allows f v \<longleftrightarrow> v \<in> set (f_options f)"

definition PresentationOrder :: "MetaObject \<Rightarrow> Field list" where
  "PresentationOrder s = sort_key f_order (Fields s)"

section \<open>Overlays\<close>

definition missing :: "string list \<Rightarrow> string list \<Rightarrow> string list" where
  "missing of' in' = filter (\<lambda>s. s \<notin> set in') of'"

definition isSuperset :: "string list \<Rightarrow> string list \<Rightarrow> bool" where
  "isSuperset xs sub \<longleftrightarrow> missing sub xs = []"

definition lookup_list :: "(string \<times> string list) list \<Rightarrow> string \<Rightarrow> string list" where
  "lookup_list m k = (case map_of m k of None \<Rightarrow> [] | Some v \<Rightarrow> v)"

fun put_list :: "string \<Rightarrow> 'v \<Rightarrow> (string \<times> 'v) list \<Rightarrow> (string \<times> 'v) list" where
  "put_list k v [] = [(k, v)]"
| "put_list k v ((k', v') # m) = (if k' = k then (k, v) # m else (k', v') # put_list k v m)"

fun merge_fields :: "Field list \<Rightarrow> Field list \<Rightarrow> meta_error + Field list" where
  "merge_fields [] fs = Inr fs"
| "merge_fields (f # adds) fs =
     (if f_name f \<in> f_name ` set fs then Inl (ErrOverlayConflict (f_name f))
      else
     (case validate_field f of Inl e \<Rightarrow> Inl e
      | Inr _ \<Rightarrow> merge_fields adds (fs @ [f\<lparr>f_from_overlay := True\<rparr>])))"

fun merge_permissions :: "Permissions \<Rightarrow> Permissions \<Rightarrow> meta_error + Permissions" where
  "merge_permissions [] ps = Inr ps"
| "merge_permissions ((action, rs) # adds) ps =
     (if \<not> isSuperset rs (lookup_list ps action) then Inl (ErrPermissionFloorLowered action)
      else merge_permissions adds (put_list action rs ps))"

fun set_options :: "string \<Rightarrow> string list \<Rightarrow> Field list \<Rightarrow> Field list" where
  "set_options name opts [] = []"
| "set_options name opts (f # fs) = (if f_name f = name then f\<lparr>f_options := opts\<rparr> # fs else f # set_options name opts fs)"

definition find_field :: "Field list \<Rightarrow> string \<Rightarrow> Field option" where
  "find_field fs name = List.find (\<lambda>f. f_name f = name) fs"

fun narrow_names :: "(string \<times> string list) list \<Rightarrow> Field list \<Rightarrow> meta_error + Field list" where
  "narrow_names [] fs = Inr fs"
| "narrow_names ((name, opts) # ns) fs =
     (case find_field fs name of None \<Rightarrow> Inl (ErrOverlayConflict name)
      | Some f \<Rightarrow>
          if f_type f \<noteq> FieldEnum then Inl (ErrOverlayConflict name)
          else if opts = [] then Inl (ErrOverlayConflict name)
          else if missing opts (f_options f) \<noteq> [] then Inl (ErrOptionSetWidened name)
          else narrow_names ns (set_options name opts fs))"

definition narrow :: "(string \<times> string list) list \<Rightarrow> Field list \<Rightarrow> meta_error + Field list" where
  "narrow ns fs = narrow_names (sort_key fst ns) fs"

definition merge_overlay :: "MetaObject \<Rightarrow> Overlay \<Rightarrow> meta_error + MetaObject" where
  "merge_overlay eff ov =
     (case merge_fields (ov_AddFields ov) (Fields eff) of Inl e \<Rightarrow> Inl e
      | Inr fs \<Rightarrow>
     (case merge_permissions (ov_Permissions ov) (Permissions eff) of Inl e \<Rightarrow> Inl e
      | Inr ps \<Rightarrow>
     (case narrow (ov_NarrowOptions ov) fs of Inl e \<Rightarrow> Inl e
      | Inr fs' \<Rightarrow> Inr (eff\<lparr>Fields := fs', Permissions := ps\<rparr>))))"

fun merge_overlays :: "MetaObject \<Rightarrow> Overlay list \<Rightarrow> meta_error + MetaObject" where
  "merge_overlays eff [] = Inr eff"
| "merge_overlays eff (ov # ovs) =
     (case merge_overlay eff ov of Inl e \<Rightarrow> Inl e | Inr eff' \<Rightarrow> merge_overlays eff' ovs)"

definition Merge :: "MetaObject \<Rightarrow> Overlay list \<Rightarrow> meta_error + MetaObject" where
  "Merge core ovs = (case validate_object core of Inl e \<Rightarrow> Inl e | Inr _ \<Rightarrow> merge_overlays core ovs)"

section \<open>Merging only extends\<close>

definition field_kept :: "Field \<Rightarrow> Field \<Rightarrow> bool" where
  "field_kept f g \<longleftrightarrow> g = f\<lparr>f_options := f_options g\<rparr> \<and> set (f_options g) \<subseteq> set (f_options f) \<and>
     (f_options f \<noteq> [] \<longrightarrow> f_options g \<noteq> [])"

definition fields_extend :: "Field list \<Rightarrow> Field list \<Rightarrow> bool" where
  "fields_extend fs gs \<longleftrightarrow> (\<exists>kept extra. gs = kept @ extra \<and> list_all2 field_kept fs kept \<and>
     (\<forall>f \<in> set extra. f_from_overlay f))"

definition permissions_extend :: "Permissions \<Rightarrow> Permissions \<Rightarrow> bool" where
  "permissions_extend ps qs \<longleftrightarrow> (\<forall>a. set (lookup_list ps a) \<subseteq> set (lookup_list qs a))"

definition extends :: "MetaObject \<Rightarrow> MetaObject \<Rightarrow> bool" where
  "extends core eff \<longleftrightarrow> ObjectName eff = ObjectName core \<and> Module eff = Module core \<and>
     Persistence eff = Persistence core \<and> fields_extend (Fields core) (Fields eff) \<and>
     permissions_extend (Permissions core) (Permissions eff)"

lemma field_kept_refl [simp]: "field_kept f f"
  by (simp add: field_kept_def)

lemma field_kept_trans: "field_kept f g \<Longrightarrow> field_kept g h \<Longrightarrow> field_kept f h"
  unfolding field_kept_def by (metis Field.surjective Field.update_convs(6) subset_trans)

lemma field_kept_overlay: "field_kept f g \<Longrightarrow> f_from_overlay g = f_from_overlay f"
  unfolding field_kept_def by (metis Field.select_convs(11) Field.surjective Field.update_convs(6))

lemma field_kept_name: "field_kept f g \<Longrightarrow> f_name g = f_name f \<and> f_type g = f_type f \<and> f_required g = f_required f"
  unfolding field_kept_def
  by (metis Field.select_convs(1,2,3) Field.surjective Field.update_convs(6))

lemma fields_extend_refl: "fields_extend fs fs"
  unfolding fields_extend_def by (intro exI [of _ fs] exI [of _ "[]"]) (simp add: list_all2_same)

lemma fields_extend_trans:
  assumes "fields_extend fs gs" "fields_extend gs hs"
  shows "fields_extend fs hs"
proof -
  from assms(1) obtain k1 e1 where 1: "gs = k1 @ e1" "list_all2 field_kept fs k1" "\<forall>f \<in> set e1. f_from_overlay f"
    by (auto simp: fields_extend_def)
  from assms(2) obtain k2 e2 where 2: "hs = k2 @ e2" "list_all2 field_kept gs k2" "\<forall>f \<in> set e2. f_from_overlay f"
    by (auto simp: fields_extend_def)
  from 1(1) 2(2) obtain a b where k2: "k2 = a @ b" "list_all2 field_kept k1 a" "list_all2 field_kept e1 b"
    by (auto simp: list_all2_append1)
  have "list_all2 field_kept fs a" by (rule list_all2_trans [OF _ 1(2) k2(2)]) (rule field_kept_trans)
  moreover have "\<forall>f \<in> set b. f_from_overlay f"
    using k2(3) 1(3) by (auto simp: list_all2_conv_all_nth in_set_conv_nth) (metis field_kept_overlay nth_mem)
  ultimately show ?thesis
    unfolding fields_extend_def using 2(1,3) k2(1)
    by (intro exI [of _ a] exI [of _ "b @ e2"]) auto
qed

lemma extends_refl: "extends c c"
  by (simp add: extends_def fields_extend_refl permissions_extend_def)

lemma extends_trans: "extends a b \<Longrightarrow> extends b c \<Longrightarrow> extends a c"
  unfolding extends_def permissions_extend_def using fields_extend_trans by (auto, blast)

lemma merge_fields_extend:
  "merge_fields adds fs = Inr gs \<Longrightarrow> fields_extend fs gs \<and> (distinct (map f_name fs) \<longrightarrow> distinct (map f_name gs))"
proof (induction adds fs rule: merge_fields.induct)
  case (1 fs)
  then show ?case by (simp add: fields_extend_refl)
next
  case (2 f adds fs)
  let ?f = "f\<lparr>f_from_overlay := True\<rparr>"
  from "2.prems" have new: "f_name f \<notin> f_name ` set fs" and ok: "validate_field f = Inr ()"
    and rest: "merge_fields adds (fs @ [?f]) = Inr gs" by (auto split: if_splits sum.splits)
  have "fields_extend fs (fs @ [?f])"
    unfolding fields_extend_def by (intro exI [of _ fs] exI [of _ "[?f]"]) (simp add: list_all2_same)
  then show ?case using "2.IH" [OF new ok rest] new fields_extend_trans by (auto simp: image_iff)
qed

lemma isSuperset_iff [simp]: "isSuperset xs ys \<longleftrightarrow> set ys \<subseteq> set xs"
  by (auto simp: isSuperset_def missing_def filter_empty_conv)

lemma lookup_put_list: "lookup_list (put_list k v m) k' = (if k' = k then v else lookup_list m k')"
  by (induction m) (auto simp: lookup_list_def)

lemma merge_permissions_extend: "merge_permissions adds ps = Inr qs \<Longrightarrow> permissions_extend ps qs"
proof (induction adds ps rule: merge_permissions.induct)
  case (2 action rs adds ps)
  then have rest: "permissions_extend (put_list action rs ps) qs" and sup: "set (lookup_list ps action) \<subseteq> set rs"
    by (auto split: if_splits)
  have "set (lookup_list ps a) \<subseteq> set (lookup_list (put_list action rs ps) a)" for a
    using sup by (simp add: lookup_put_list)
  with rest show ?case unfolding permissions_extend_def by blast
qed (simp add: permissions_extend_def)

lemma set_options_kept:
  assumes "find_field fs name = Some f" "set opts \<subseteq> set (f_options f)" "opts \<noteq> []"
  shows "list_all2 field_kept fs (set_options name opts fs)"
  using assms
proof (induction fs)
  case (Cons g fs)
  show ?case
  proof (cases "f_name g = name")
    case True
    with Cons.prems have "field_kept g (g\<lparr>f_options := opts\<rparr>)"
      by (simp add: find_field_def field_kept_def)
    with True show ?thesis by (simp add: list_all2_same)
  next
    case False
    with Cons show ?thesis by (simp add: find_field_def)
  qed
qed simp

lemma set_options_names: "map f_name (set_options name opts fs) = map f_name fs"
  by (induction fs) auto

lemma narrow_names_extend:
  "narrow_names ns fs = Inr gs \<Longrightarrow> fields_extend fs gs \<and> map f_name gs = map f_name fs"
proof (induction ns fs rule: narrow_names.induct)
  case (2 name opts ns fs)
  from "2.prems" obtain f where f: "find_field fs name = Some f" "f_type f = FieldEnum" "opts \<noteq> []"
    "missing opts (f_options f) = []" and rest: "narrow_names ns (set_options name opts fs) = Inr gs"
    by (auto split: option.splits if_splits)
  have "list_all2 field_kept fs (set_options name opts fs)"
    using f by (intro set_options_kept [OF f(1)]) (auto simp: missing_def filter_empty_conv)
  then have "fields_extend fs (set_options name opts fs)"
    unfolding fields_extend_def by (intro exI [of _ "set_options name opts fs"] exI [of _ "[]"]) simp
  moreover have "fields_extend (set_options name opts fs) gs \<and> map f_name gs = map f_name (set_options name opts fs)"
    using "2.IH" f rest by simp
  ultimately show ?case using fields_extend_trans by (auto simp: set_options_names)
qed (simp add: fields_extend_refl)

lemma merge_overlay_extends:
  assumes "merge_overlay eff ov = Inr eff'"
  shows "extends eff eff' \<and> (distinct (map f_name (Fields eff)) \<longrightarrow> distinct (map f_name (Fields eff')))"
proof -
  from assms obtain fs ps fs' where m: "merge_fields (ov_AddFields ov) (Fields eff) = Inr fs"
    "merge_permissions (ov_Permissions ov) (Permissions eff) = Inr ps"
    "narrow_names (sort_key fst (ov_NarrowOptions ov)) fs = Inr fs'" "eff' = eff\<lparr>Fields := fs', Permissions := ps\<rparr>"
    by (auto simp: merge_overlay_def narrow_def split: sum.splits)
  from merge_fields_extend [OF m(1)] narrow_names_extend [OF m(3)] merge_permissions_extend [OF m(2)] m(4)
  show ?thesis unfolding extends_def using fields_extend_trans by auto
qed

lemma merge_overlays_extends:
  "merge_overlays eff ovs = Inr eff' \<Longrightarrow>
     extends eff eff' \<and> (distinct (map f_name (Fields eff)) \<longrightarrow> distinct (map f_name (Fields eff')))"
proof (induction eff ovs rule: merge_overlays.induct)
  case (2 eff ov ovs)
  from "2.prems" obtain mid where "merge_overlay eff ov = Inr mid" "merge_overlays mid ovs = Inr eff'"
    by (auto split: sum.splits)
  with "2.IH" merge_overlay_extends show ?case using extends_trans by blast
qed (simp add: extends_refl)

lemma merge_overlays_append:
  "merge_overlays eff (ovs @ ovs') = (case merge_overlays eff ovs of Inl e \<Rightarrow> Inl e | Inr mid \<Rightarrow> merge_overlays mid ovs')"
  by (induction eff ovs rule: merge_overlays.induct) (auto split: sum.splits)

lemma validate_fields_distinct:
  "validate_fields fs seen = Inr () \<Longrightarrow>
     distinct (map f_name fs) \<and> f_name ` set fs \<inter> seen = {} \<and> (\<forall>f \<in> set fs. validate_field f = Inr ())"
  by (induction fs seen rule: validate_fields.induct) (auto split: sum.splits if_splits)

lemma validate_object_fields:
  "validate_object o' = Inr () \<Longrightarrow> distinct (map f_name (Fields o')) \<and> (\<forall>f \<in> set (Fields o'). validate_field f = Inr ())"
  using validate_fields_distinct [of "Fields o'" "{}"] by (auto simp: validate_object_def split: if_splits)

text \<open>C34: overlays only extend (INV-T3): a merged schema keeps every core field in place with its type and
  attributes, an option set at most narrowed and never emptied, every role an action required is still
  required, added fields are marked as overlay fields, and no name occurs twice.\<close>

theorem Merge_extends:
  assumes "Merge core ovs = Inr eff"
  shows "ObjectName eff = ObjectName core \<and> Persistence eff = Persistence core \<and>
    (\<exists>kept extra. Fields eff = kept @ extra \<and>
       list_all2 (\<lambda>f g. g = f\<lparr>f_options := f_options g\<rparr> \<and> set (f_options g) \<subseteq> set (f_options f) \<and>
         (f_options f \<noteq> [] \<longrightarrow> f_options g \<noteq> [])) (Fields core) kept \<and>
       (\<forall>f \<in> set extra. f_from_overlay f)) \<and>
    (\<forall>a. set (lookup_list (Permissions core) a) \<subseteq> set (lookup_list (Permissions eff) a)) \<and>
    distinct (map f_name (Fields eff))"
proof -
  from assms have v: "validate_object core = Inr ()" and m: "merge_overlays core ovs = Inr eff"
    by (auto simp: Merge_def split: sum.splits)
  from merge_overlays_extends [OF m] validate_object_fields [OF v]
  have e: "extends core eff" and d: "distinct (map f_name (Fields eff))" by auto
  from e obtain kept extra where k: "Fields eff = kept @ extra" "list_all2 field_kept (Fields core) kept"
      "\<forall>f \<in> set extra. f_from_overlay f"
    by (auto simp: extends_def fields_extend_def)
  show ?thesis
    using e d k unfolding extends_def permissions_extend_def field_kept_def by blast
qed

definition sample_field :: "string \<Rightarrow> FieldType \<Rightarrow> Field" where
  "sample_field name t = \<lparr>f_name = name, f_type = t, f_required = False, f_target = '''', f_index = False,
     f_options = (if t = FieldEnum then [''open'', ''closed''] else []), f_order = 0, f_group = '''', f_widget = '''',
     f_localized = False, f_from_overlay = False\<rparr>"

definition sample_object :: MetaObject where
  "sample_object = \<lparr>ObjectName = ''Invoice'', Module = ''invoicing'', Persistence = PersistenceCRUD,
     Fields = [sample_field ''number'' FieldText, sample_field ''state'' FieldEnum],
     Permissions = [(''read'', [''clerk''])]\<rparr>"

definition sample_overlay :: Overlay where
  "sample_overlay = \<lparr>ov_Object = ''Invoice'', ov_AddFields = [sample_field ''note'' FieldText],
     ov_Permissions = [(''read'', [''clerk'', ''owner''])], ov_NarrowOptions = [(''state'', [''open''])]\<rparr>"

lemmas sample_defs = sample_field_def sample_object_def sample_overlay_def

lemma sample_object_valid: "validate_object sample_object = Inr ()"
  by code_simp

lemma sample_merge: "is_ok (Merge sample_object [sample_overlay])"
  by code_simp

theorem Merge_extends_witness:
  "\<exists>eff. Merge sample_object [sample_overlay] = Inr eff \<and> distinct (map f_name (Fields eff))"
proof -
  obtain eff where eff: "Merge sample_object [sample_overlay] = Inr eff" using sample_merge by (auto simp: is_ok_iff)
  from Merge_extends [OF eff] eff show ?thesis by blast
qed

end
