(* ===== verification/MetaEvolve.thy ===== *)
theory MetaEvolve
  imports MetaSchema
begin

text \<open>
  \<open>kernel/metadata/ddl.go\<close> and \<open>evolve.go\<close>: the column a field gets, the DDL of a new table, and the plan
  of additive steps from one schema to the next with its DDL. \<open>ApplyDDL\<close> keeps the applied versions in
  \<open>object_schema_migrations\<close>; executing a statement is the step \<open>apply_step\<close> on the columns of the table.
\<close>

section \<open>Column types and DDL\<close>

definition columnType :: "FieldType \<Rightarrow> meta_error + string" where
  "columnType t =
     (case t of
        FieldInt \<Rightarrow> Inr ''INT''
      | FieldBool \<Rightarrow> Inr ''BOOLEAN''
      | FieldDate \<Rightarrow> Inr ''TIMESTAMPTZ''
      | FieldDatetime \<Rightarrow> Inr ''TIMESTAMPTZ''
      | FieldTable \<Rightarrow> Inl ErrUnsupportedFieldType
      | FieldUnknown _ \<Rightarrow> Inl ErrUnsupportedFieldType
      | _ \<Rightarrow> Inr ''TEXT'')"

definition to_lower_char :: "char \<Rightarrow> char" where
  "to_lower_char c = (let n = (of_char c :: nat) in if 65 \<le> n \<and> n \<le> 90 then char_of (n + 32) else c)"

definition TableName :: "string \<Rightarrow> string" where
  "TableName objectName = ''obj_'' @ map to_lower_char objectName"

definition core_fields :: "MetaObject \<Rightarrow> Field list" where
  "core_fields s = filter (\<lambda>f. \<not> f_from_overlay f) (Fields s)"

definition nl :: string where
  "nl = [CHR 0x0A]"

definition tab :: string where
  "tab = [CHR 0x09]"

fun ddl_columns :: "Field list \<Rightarrow> meta_error + string" where
  "ddl_columns [] = Inr ''''"
| "ddl_columns (f # fs) =
     (case columnType (f_type f) of Inl e \<Rightarrow> Inl e
      | Inr t \<Rightarrow>
     (case ddl_columns fs of Inl e \<Rightarrow> Inl e
      | Inr rest \<Rightarrow> Inr (tab @ f_name f @ '' '' @ t @ (if f_required f then '' NOT NULL'' else '''') @ '','' @ nl @ rest)))"

definition index_ddl :: "string \<Rightarrow> string \<Rightarrow> string" where
  "index_ddl table field =
     ''CREATE INDEX idx_'' @ table @ ''_'' @ field @ '' ON '' @ table @ '' (tenant_id, '' @ field @ '');'' @ nl"

definition GenerateDDL :: "MetaObject \<Rightarrow> dialect \<Rightarrow> meta_error + string" where
  "GenerateDDL schema dial =
     (let table = TableName (ObjectName schema) in
      case ddl_columns (core_fields schema) of Inl e \<Rightarrow> Inl e
      | Inr cols \<Rightarrow> Inr
          (''CREATE TABLE '' @ table @ '' ('' @ nl @ tab @ ''id TEXT PRIMARY KEY,'' @ nl @ tab @ ''tenant_id TEXT NOT NULL,'' @ nl
           @ cols
           @ tab @ ''custom_fields TEXT NOT NULL DEFAULT '' @ [CHR 0x27] @ ''{}'' @ [CHR 0x27] @ '','' @ nl
           @ tab @ ''created_at TIMESTAMPTZ NOT NULL,'' @ nl @ tab @ ''updated_at TIMESTAMPTZ NOT NULL,'' @ nl
           @ tab @ ''archived_at TIMESTAMPTZ'' @ nl @ '');'' @ nl
           @ ''CREATE INDEX idx_'' @ table @ ''_tenant_id ON '' @ table @ '' (tenant_id);'' @ nl
           @ concat (map (\<lambda>f. if f_index f then index_ddl table (f_name f) else '''') (core_fields schema))
           @ (if dial = Postgres then
                ''ALTER TABLE '' @ table @ '' ENABLE ROW LEVEL SECURITY;'' @ nl
                @ ''ALTER TABLE '' @ table @ '' FORCE ROW LEVEL SECURITY;'' @ nl
                @ ''CREATE POLICY tenant_isolation_'' @ table @ '' ON '' @ table
                @ '' USING (tenant_id = current_setting('' @ [CHR 0x27] @ ''app.tenant_id'' @ [CHR 0x27] @ '', true));'' @ nl
              else '''')))"

section \<open>Evolution\<close>

datatype PlanStep =
    AddColumn string string
  | WidenColumn string string string
  | AddIndex string
  | DropNotNull string

record Plan =
  pl_Object :: string
  pl_FromVersion :: int
  pl_ToVersion :: int
  pl_Steps :: "PlanStep list"

definition widenable :: "string \<Rightarrow> string \<Rightarrow> bool" where
  "widenable from to \<longleftrightarrow> to = ''TEXT'' \<and> (from = ''BOOLEAN'' \<or> from = ''INT'' \<or> from = ''TIMESTAMPTZ'')"

definition coreFieldMap :: "MetaObject \<Rightarrow> string \<Rightarrow> Field option" where
  "coreFieldMap s = map_of (rev (map (\<lambda>f. (f_name f, f)) (core_fields s)))"

definition plan_field :: "(string \<Rightarrow> Field option) \<Rightarrow> Field \<Rightarrow> meta_error + PlanStep list" where
  "plan_field prevCore f =
     (case columnType (f_type f) of Inl e \<Rightarrow> Inl e
      | Inr newCol \<Rightarrow>
     (case prevCore (f_name f) of
        None \<Rightarrow>
          if f_required f then Inl (ErrDestructiveDiff (f_name f))
          else Inr (AddColumn (f_name f) newCol # (if f_index f then [AddIndex (f_name f)] else []))
      | Some pf \<Rightarrow>
     (case columnType (f_type pf) of Inl e \<Rightarrow> Inl e
      | Inr oldCol \<Rightarrow>
          if oldCol \<noteq> newCol \<and> \<not> widenable oldCol newCol then Inl (ErrDestructiveDiff (f_name f))
          else if f_required f \<and> \<not> f_required pf then Inl (ErrDestructiveDiff (f_name f))
          else Inr ((if oldCol \<noteq> newCol then [WidenColumn (f_name f) oldCol newCol] else [])
                 @ (if \<not> f_required f \<and> f_required pf then [DropNotNull (f_name f)] else [])
                 @ (if f_index f \<and> \<not> f_index pf then [AddIndex (f_name f)] else [])))))"

fun plan_fields :: "(string \<Rightarrow> Field option) \<Rightarrow> Field list \<Rightarrow> meta_error + PlanStep list" where
  "plan_fields prevCore [] = Inr []"
| "plan_fields prevCore (f # fs) =
     (case plan_field prevCore f of Inl e \<Rightarrow> Inl e
      | Inr steps \<Rightarrow>
     (case plan_fields prevCore fs of Inl e \<Rightarrow> Inl e
      | Inr rest \<Rightarrow> Inr (steps @ rest)))"

definition PlanEvolution :: "MetaObject \<Rightarrow> MetaObject \<Rightarrow> int \<Rightarrow> int \<Rightarrow> meta_error + Plan" where
  "PlanEvolution prev next' from to =
     (if to \<le> from then Inl ErrNonMonotonicVersion
      else
     (case List.find (\<lambda>f. coreFieldMap next' (f_name f) = None) (core_fields prev) of
        Some f \<Rightarrow> Inl (ErrDestructiveDiff (f_name f))
      | None \<Rightarrow>
     (case plan_fields (coreFieldMap prev) (core_fields next') of Inl e \<Rightarrow> Inl e
      | Inr steps \<Rightarrow> Inr \<lparr>pl_Object = ObjectName next', pl_FromVersion = from, pl_ToVersion = to, pl_Steps = steps\<rparr>)))"

fun step_ddl :: "string \<Rightarrow> dialect \<Rightarrow> PlanStep \<Rightarrow> string" where
  "step_ddl table dial (AddColumn f t) = ''ALTER TABLE '' @ table @ '' ADD COLUMN '' @ f @ '' '' @ t @ '';'' @ nl"
| "step_ddl table dial (WidenColumn f s t) =
     (if dial = Postgres then
        ''ALTER TABLE '' @ table @ '' ALTER COLUMN '' @ f @ '' TYPE '' @ t @ '' USING ('' @ f @ ''::'' @ t @ '');'' @ nl
      else '''')"
| "step_ddl table dial (AddIndex f) = index_ddl table f"
| "step_ddl table dial (DropNotNull f) =
     (if dial = Postgres then ''ALTER TABLE '' @ table @ '' ALTER COLUMN '' @ f @ '' DROP NOT NULL;'' @ nl else '''')"

definition plan_DDL :: "Plan \<Rightarrow> dialect \<Rightarrow> string" where
  "plan_DDL p dial =
     (if pl_Steps p = [] then '''' else concat (map (step_ddl (TableName (pl_Object p)) dial) (pl_Steps p)))"

section \<open>Applying versions\<close>

record applied_schema =
  as_object :: string
  as_version :: int
  as_snapshot :: "MetaObject option"

definition isDDLApplied :: "applied_schema list \<Rightarrow> string \<Rightarrow> int \<Rightarrow> bool" where
  "isDDLApplied applied object version \<longleftrightarrow> (\<exists>a \<in> set applied. as_object a = object \<and> as_version a = version)"

fun newest_version :: "applied_schema list \<Rightarrow> applied_schema option" where
  "newest_version [] = None"
| "newest_version (a # as) =
     (case newest_version as of None \<Rightarrow> Some a | Some b \<Rightarrow> if as_version b > as_version a then Some b else Some a)"

definition lastAppliedSchema :: "applied_schema list \<Rightarrow> string \<Rightarrow> meta_error + (MetaObject \<times> int) option" where
  "lastAppliedSchema applied object =
     (case newest_version (filter (\<lambda>a. as_object a = object) applied) of
        None \<Rightarrow> Inr None
      | Some a \<Rightarrow> (case as_snapshot a of None \<Rightarrow> Inl ErrNoSnapshot | Some s \<Rightarrow> Inr (Some (s, as_version a))))"

text \<open>The result is the DDL to run with the new applied; a version already applied runs nothing.\<close>

definition ApplyDDL ::
  "dialect \<Rightarrow> MetaObject \<Rightarrow> int \<Rightarrow> applied_schema list \<Rightarrow> meta_error + string \<times> applied_schema list" where
  "ApplyDDL dial schema version applied =
     (if isDDLApplied applied (ObjectName schema) version then Inr ('''', applied)
      else
     (case lastAppliedSchema applied (ObjectName schema) of Inl e \<Rightarrow> Inl e
      | Inr newest \<Rightarrow>
          let record = applied @ [\<lparr>as_object = ObjectName schema, as_version = version, as_snapshot = Some schema\<rparr>] in
     (case newest of
        None \<Rightarrow> (case GenerateDDL schema dial of Inl e \<Rightarrow> Inl e | Inr ddl \<Rightarrow> Inr (ddl, record))
      | Some (baseline, v) \<Rightarrow>
          if v = 0 then (case GenerateDDL schema dial of Inl e \<Rightarrow> Inl e | Inr ddl \<Rightarrow> Inr (ddl, record))
          else (case PlanEvolution baseline schema v version of Inl e \<Rightarrow> Inl e
                | Inr plan \<Rightarrow> Inr (plan_DDL plan dial, record)))))"

section \<open>The table a plan leaves\<close>

text \<open>The columns of a generated table: type and NOT NULL by name. \<open>apply_step\<close> is the effect of a step's
  statement on Postgres, where every step has one.\<close>

type_synonym columns = "string \<Rightarrow> (string \<times> bool) option"

definition field_column :: "Field \<Rightarrow> (string \<times> bool) option" where
  "field_column f = (case columnType (f_type f) of Inl _ \<Rightarrow> None | Inr t \<Rightarrow> Some (t, f_required f))"

definition table_columns :: "MetaObject \<Rightarrow> columns" where
  "table_columns s name = Option.bind (coreFieldMap s name) field_column"

fun apply_step :: "PlanStep \<Rightarrow> columns \<Rightarrow> columns" where
  "apply_step (AddColumn f t) cols = cols(f \<mapsto> (t, False))"
| "apply_step (WidenColumn f s t) cols = (case cols f of None \<Rightarrow> cols | Some (_, nn) \<Rightarrow> cols(f \<mapsto> (t, nn)))"
| "apply_step (AddIndex f) cols = cols"
| "apply_step (DropNotNull f) cols = (case cols f of None \<Rightarrow> cols | Some (t, _) \<Rightarrow> cols(f \<mapsto> (t, False)))"

definition apply_steps :: "PlanStep list \<Rightarrow> columns \<Rightarrow> columns" where
  "apply_steps steps cols = fold apply_step steps cols"

lemma apply_steps_append: "apply_steps (xs @ ys) cols = apply_steps ys (apply_steps xs cols)"
  by (simp add: apply_steps_def)

lemma plan_field_columns:
  assumes "plan_field prevCore f = Inr steps" "cols (f_name f) = Option.bind (prevCore (f_name f)) field_column"
  shows "apply_steps steps cols (f_name f) = field_column f"
    and "name \<noteq> f_name f \<Longrightarrow> apply_steps steps cols name = cols name"
  using assms
  by (auto simp: plan_field_def apply_steps_def field_column_def split: sum.splits option.splits if_splits)

lemma plan_fields_columns:
  assumes "plan_fields prevCore fs = Inr steps" "distinct (map f_name fs)"
    and "\<forall>f \<in> set fs. cols (f_name f) = Option.bind (prevCore (f_name f)) field_column"
  shows "apply_steps steps cols name =
    (case map_of (map (\<lambda>f. (f_name f, f)) fs) name of Some f \<Rightarrow> field_column f | None \<Rightarrow> cols name)"
  using assms
proof (induction fs arbitrary: steps cols)
  case Nil
  then show ?case by (simp add: apply_steps_def)
next
  case (Cons f fs)
  from Cons.prems(1) obtain s1 s2 where s: "plan_field prevCore f = Inr s1" "plan_fields prevCore fs = Inr s2"
    "steps = s1 @ s2" by (auto split: sum.splits)
  have here: "cols (f_name f) = Option.bind (prevCore (f_name f)) field_column" using Cons.prems(3) by simp
  have col: "apply_steps s1 cols (f_name f) = field_column f"
    "name' \<noteq> f_name f \<Longrightarrow> apply_steps s1 cols name' = cols name'" for name'
    using plan_field_columns(1) [of prevCore f s1 cols, OF s(1) here]
      plan_field_columns(2) [of prevCore f s1 cols name', OF s(1) here] by simp_all
  have rest: "\<forall>g \<in> set fs. apply_steps s1 cols (f_name g) = Option.bind (prevCore (f_name g)) field_column"
    using Cons.prems(2,3) col(2) by (metis distinct.simps(2) image_eqI list.set_intros(2) list.simps(9) set_map)
  have d: "distinct (map f_name fs)" "f_name f \<notin> f_name ` set fs" using Cons.prems(2) by auto
  from Cons.IH [OF s(2) d(1) rest]
  have "apply_steps steps cols name = (case map_of (map (\<lambda>f. (f_name f, f)) fs) name of
      Some f \<Rightarrow> field_column f | None \<Rightarrow> apply_steps s1 cols name)"
    by (simp add: s(3) apply_steps_append)
  moreover have "map_of (map (\<lambda>f. (f_name f, f)) fs) (f_name f) = None"
    using d(2) by (force simp: map_of_eq_None_iff)
  ultimately show ?case using col by (cases "name = f_name f") (auto split: option.split)
qed

lemma map_of_rev_distinct:
  assumes "distinct (map f_name fs)"
  shows "map_of (rev (map (\<lambda>f. (f_name f, f)) fs)) = map_of (map (\<lambda>f. (f_name f, f)) fs)"
proof -
  have d: "distinct (map fst (map (\<lambda>f. (f_name f, f)) fs))" using assms by (simp add: comp_def)
  then have d': "distinct (map fst (rev (map (\<lambda>f. (f_name f, f)) fs)))" by (metis distinct_rev rev_map)
  show ?thesis by (subst map_of_inject_set [OF d' d]) simp
qed

lemma coreFieldMap_map_of:
  assumes "distinct (map f_name (Fields s))"
  shows "coreFieldMap s = map_of (map (\<lambda>f. (f_name f, f)) (core_fields s))"
  unfolding coreFieldMap_def
  by (rule map_of_rev_distinct) (use assms in \<open>simp add: core_fields_def distinct_map_filter\<close>)

lemma coreFieldMap_field:
  assumes "distinct (map f_name (Fields s))" "f \<in> set (core_fields s)"
  shows "coreFieldMap s (f_name f) = Some f"
proof -
  have "distinct (map fst (map (\<lambda>f. (f_name f, f)) (core_fields s)))"
    using assms(1) by (simp add: core_fields_def distinct_map_filter comp_def)
  from map_of_eq_Some_iff [OF this] assms(2) show ?thesis by (simp add: coreFieldMap_map_of [OF assms(1)])
qed

lemma coreFieldMap_SomeD: "coreFieldMap s name = Some f \<Longrightarrow> f \<in> set (core_fields s) \<and> f_name f = name"
  by (auto simp: coreFieldMap_def dest: map_of_SomeD)

lemma PlanEvolution_steps:
  assumes "PlanEvolution prev next' from to = Inr plan"
  shows "from < to" "plan_fields (coreFieldMap prev) (core_fields next') = Inr (pl_Steps plan)"
    "\<forall>f \<in> set (core_fields prev). coreFieldMap next' (f_name f) \<noteq> None" "pl_Object plan = ObjectName next'"
  using assms by (auto simp: PlanEvolution_def find_None_set split: if_splits option.splits sum.splits)


definition sample_object2 :: MetaObject where
  "sample_object2 = sample_object\<lparr>Fields := Fields sample_object @ [sample_field ''due'' FieldDate]\<rparr>"

lemma sample_plan: "is_ok (PlanEvolution sample_object sample_object2 1 2)"
  by code_simp

lemma sample_object2_valid: "validate_object sample_object2 = Inr ()"
  by code_simp


end
