(* ===== verification/GoTime.thy ===== *)
theory GoTime
  imports Calendar
begin

text \<open>
  The RFC 3339 text of an instant, as Go's \<open>time\<close> package reads and writes it. \<open>time.Parse\<close> with this
  layout takes one or two digits for the hour, a fraction after a period or a comma (of which nine
  digits count), and either \<open>Z\<close> or an offset of at most 24 hours and 60 minutes; \<open>MarshalJSON\<close> writes
  the shortest fraction and refuses a year outside four digits.
\<close>

definition second_ns :: int where
  "second_ns = 1000000000"

definition parse2 :: "string \<Rightarrow> (int \<times> string) option" where
  "parse2 s = (case s of a # b # r \<Rightarrow> if is_digit a \<and> is_digit b then Some (int (parse_digits [a, b]), r) else None | _ \<Rightarrow> None)"

definition parse_hour :: "string \<Rightarrow> (int \<times> string) option" where
  "parse_hour s =
     (case s of
        [] \<Rightarrow> None
      | a # r \<Rightarrow>
          if \<not> is_digit a then None
          else (case r of [] \<Rightarrow> Some (int (digit_val a), r)
                | b # r' \<Rightarrow> if is_digit b then Some (int (parse_digits [a, b]), r') else Some (int (digit_val a), r)))"

definition expect :: "char \<Rightarrow> string \<Rightarrow> string option" where
  "expect c s = (case s of [] \<Rightarrow> None | x # r \<Rightarrow> if x = c then Some r else None)"

definition parse_fraction :: "string \<Rightarrow> int \<times> string" where
  "parse_fraction s =
     (case s of
        c # d # r \<Rightarrow>
          if (c = CHR ''.'' \<or> c = CHR '','') \<and> is_digit d then
            let ds = takeWhile is_digit (d # r)
            in (int (parse_digits (take 9 (ds @ replicate 9 CHR ''0''))), dropWhile is_digit (d # r))
          else (0, s)
      | _ \<Rightarrow> (0, s))"

definition parse_zone :: "string \<Rightarrow> int option" where
  "parse_zone s =
     (if s = ''Z'' then Some 0
      else (case s of
          sg # a # b # col # d # [e] \<Rightarrow>
            if (sg = CHR ''+'' \<or> sg = CHR ''-'') \<and> is_digit a \<and> is_digit b \<and> col = CHR '':'' \<and> is_digit d \<and> is_digit e then
              let hh = int (parse_digits [a, b]); mm = int (parse_digits [d, e])
              in if hh > 24 \<or> mm > 60 then None
                 else Some ((if sg = CHR ''-'' then - 1 else 1) * (hh * 3600 + mm * 60))
            else None
        | _ \<Rightarrow> None))"

definition parse_rfc3339 :: "string \<Rightarrow> int option" where
  "parse_rfc3339 s =
     (case parse_date (take 10 s) of None \<Rightarrow> None | Some day \<Rightarrow>
     (case expect CHR ''T'' (drop 10 s) of None \<Rightarrow> None | Some s1 \<Rightarrow>
     (case parse_hour s1 of None \<Rightarrow> None | Some (hh, s2) \<Rightarrow>
     (case expect CHR '':'' s2 of None \<Rightarrow> None | Some s3 \<Rightarrow>
     (case parse2 s3 of None \<Rightarrow> None | Some (mi, s4) \<Rightarrow>
     (case expect CHR '':'' s4 of None \<Rightarrow> None | Some s5 \<Rightarrow>
     (case parse2 s5 of None \<Rightarrow> None | Some (ss, s6) \<Rightarrow>
        if 24 \<le> hh \<or> 60 \<le> mi \<or> 60 \<le> ss then None
        else
          let (fr, s7) = parse_fraction s6
          in (case parse_zone s7 of None \<Rightarrow> None
              | Some off \<Rightarrow> Some ((day - 719528) * day_ns + (hh * 3600 + mi * 60 + ss - off) * second_ns + fr)))))))))"

definition trim_zeros :: "string \<Rightarrow> string" where
  "trim_zeros s = rev (dropWhile (\<lambda>c. c = CHR ''0'') (rev s))"

definition format_rfc3339 :: "int \<Rightarrow> string" where
  "format_rfc3339 t =
     (let ns = t mod day_ns; secs = ns div second_ns; fr = ns mod second_ns
      in format_day t @ CHR ''T'' # format_pad 2 (secs div 3600) @ CHR '':'' # format_pad 2 (secs div 60 mod 60)
         @ CHR '':'' # format_pad 2 (secs mod 60)
         @ (if fr = 0 then '''' else CHR ''.'' # trim_zeros (format_pad 9 fr)) @ ''Z'')"

definition json_time :: "int \<Rightarrow> string option" where
  "json_time t = (if four_digit_year (date_of t) then Some (format_rfc3339 t) else None)"

section \<open>What is written is read back\<close>

lemma format_pad_two:
  assumes "0 \<le> x" "x < 100"
  obtains a b where "format_pad 2 x = [a, b]" "is_digit a" "is_digit b" "int (parse_digits [a, b]) = x"
proof -
  have "length (format_pad 2 x) = 2" using assms by (simp add: format_pad_length)
  then obtain a b where ab: "format_pad 2 x = [a, b]" by (auto simp: length_Suc_conv numeral_2_eq_2)
  moreover have "is_digit a" "is_digit b" using format_pad_list_all [OF assms(1), of 2] by (simp_all add: ab)
  moreover have "int (parse_digits [a, b]) = x" using format_pad_parse [OF assms(1), of 2] assms(1) by (simp add: ab)
  ultimately show ?thesis using that by blast
qed

lemma trim_zeros_pad:
  obtains k where "s = trim_zeros s @ replicate k CHR ''0''"
proof -
  have "rev (takeWhile (\<lambda>c. c = CHR ''0'') (rev s)) = replicate (length (takeWhile (\<lambda>c. c = CHR ''0'') (rev s))) CHR ''0''"
    by (rule replicate_eqI) (auto dest: set_takeWhileD)
  moreover have "s = trim_zeros s @ rev (takeWhile (\<lambda>c. c = CHR ''0'') (rev s))"
    by (simp add: trim_zeros_def flip: rev_append)
  ultimately show ?thesis using that by metis
qed

lemma parse_fraction_trimmed:
  assumes "0 < fr" "fr < second_ns" "\<not> is_digit z"
  shows "parse_fraction (CHR ''.'' # trim_zeros (format_pad 9 fr) @ z # r) = (fr, z # r)"
proof -
  let ?p = "format_pad 9 fr"
  have p: "length ?p = 9" "list_all is_digit ?p" "parse_digits ?p = nat fr"
    using assms by (simp_all add: second_ns_def format_pad_length format_pad_list_all format_pad_parse)
  obtain k where k: "?p = trim_zeros ?p @ replicate k CHR ''0''" by (rule trim_zeros_pad)
  have ne: "trim_zeros ?p \<noteq> []"
  proof
    assume "trim_zeros ?p = []"
    with k have "parse_digits ?p = 0" using parse_digits_zeros [of k "[]"] by simp
    with p(3) assms(1) show False by simp
  qed
  then obtain d ds where d: "trim_zeros ?p = d # ds" by (cases "trim_zeros ?p") auto
  have digits: "list_all is_digit (trim_zeros ?p)" using p(2) k by (metis list_all_append)
  have tw: "takeWhile is_digit (trim_zeros ?p @ z # r) = trim_zeros ?p"
    "dropWhile is_digit (trim_zeros ?p @ z # r) = z # r"
    using digits assms(3) by (simp_all add: list_all_iff takeWhile_append2 dropWhile_append2)
  have "take 9 (trim_zeros ?p @ replicate 9 CHR ''0'') = ?p"
  proof -
    have len: "length (trim_zeros ?p) + k = 9" using k p(1) by (metis length_append length_replicate)
    then have "take 9 (trim_zeros ?p @ replicate 9 CHR ''0'') = trim_zeros ?p @ replicate k CHR ''0''"
      by (simp add: min_def)
    then show ?thesis using k by simp
  qed
  then show ?thesis using tw digits p(3) assms(1) d
    by (simp add: parse_fraction_def Let_def)
qed

lemma format_date_length: "four_digit_year n \<Longrightarrow> length (format_date n) = 10"
proof -
  assume f: "four_digit_year n"
  obtain y m d where c: "civil_of_days n = (y, m, d)" by (metis prod_cases3)
  from civil_ranges [OF c f] show ?thesis by (simp add: format_date_def c format_pad_length)
qed

lemma parse_format_rfc3339:
  assumes "four_digit_year (date_of t)"
  shows "parse_rfc3339 (format_rfc3339 t) = Some t"
proof -
  define ns secs fr where d: "ns = t mod day_ns" "secs = ns div second_ns" "fr = ns mod second_ns"
  have "0 \<le> ns" "ns < day_ns" by (simp_all add: d(1) day_ns_def)
  moreover have "0 \<le> fr" "fr < second_ns" by (simp_all add: d(3) second_ns_def)
  moreover have "ns = secs * second_ns + fr" by (simp add: d(2,3))
  ultimately have r: "0 \<le> ns" "ns < 86400 * second_ns" "ns = secs * second_ns + fr" "0 \<le> fr" "fr < second_ns"
    by (simp_all add: second_ns_def day_ns_def)
  have s: "0 \<le> secs" "secs < 86400"
    using r(1-5) unfolding second_ns_def by linarith+
  have "secs div 3600 = secs div 60 div 60" using zdiv_zmult2_eq [of 60 secs 60] by simp
  moreover have "secs div 60 = secs div 60 div 60 * 60 + secs div 60 mod 60" "secs = secs div 60 * 60 + secs mod 60"
    by simp_all
  ultimately have hms: "secs = secs div 3600 * 3600 + secs div 60 mod 60 * 60 + secs mod 60" by linarith
  have rg: "0 \<le> secs div 3600" "secs div 3600 < 24" "0 \<le> secs div 60 mod 60" "secs div 60 mod 60 < 60"
    "0 \<le> secs mod 60" "secs mod 60 < 60" using s by auto
  have lt: "secs div 3600 < 100" "secs div 60 mod 60 < 100" "secs mod 60 < 100" using rg by linarith+
  obtain a b where h: "format_pad 2 (secs div 3600) = [a, b]" "is_digit a" "is_digit b"
      "int (parse_digits [a, b]) = secs div 3600"
    by (rule format_pad_two [OF rg(1) lt(1)])
  obtain m n where mi: "format_pad 2 (secs div 60 mod 60) = [m, n]" "is_digit m" "is_digit n"
      "int (parse_digits [m, n]) = secs div 60 mod 60"
    by (rule format_pad_two [OF rg(3) lt(2)])
  obtain x y where ss: "format_pad 2 (secs mod 60) = [x, y]" "is_digit x" "is_digit y"
      "int (parse_digits [x, y]) = secs mod 60"
    by (rule format_pad_two [OF rg(5) lt(3)])
  have day: "parse_date (format_day t) = Some (date_of t)" "length (format_day t) = 10"
    using parse_format_date [OF assms] format_date_length [OF assms] by (simp_all add: format_day_def)
  have z: "\<not> is_digit CHR ''Z''" by (simp add: is_digit_def)
  define tail where "tail = (if fr = 0 then '''' else CHR ''.'' # trim_zeros (format_pad 9 fr)) @ ''Z''"
  have fraction: "parse_fraction tail = (fr, ''Z'')"
  proof (cases "fr = 0")
    case True
    then show ?thesis by (simp add: parse_fraction_def tail_def)
  next
    case False
    then show ?thesis using r(4,5) parse_fraction_trimmed [OF _ _ z, of fr "[]"] by (simp add: tail_def)
  qed
  have formatted: "format_rfc3339 t = format_day t @ CHR ''T'' # a # b # CHR '':'' # m # n # CHR '':'' # x # y # tail"
    unfolding format_rfc3339_def Let_def d(1) [symmetric] unfolding d(2,3) [symmetric] h(1) mi(1) ss(1) tail_def by simp
  have tk: "take 10 (format_rfc3339 t) = format_day t"
    "drop 10 (format_rfc3339 t) = CHR ''T'' # a # b # CHR '':'' # m # n # CHR '':'' # x # y # tail"
    using day(2) by (simp_all add: formatted)
  have whole: "(date_of t - 719528) * day_ns + secs * second_ns + fr = t"
    using r(3) by (simp add: date_of_def d(1) minus_mod_eq_div_mult [symmetric])
  have "parse_rfc3339 (format_rfc3339 t) =
      Some ((date_of t - 719528) * day_ns + (secs div 3600 * 3600 + secs div 60 mod 60 * 60 + secs mod 60 - 0) * second_ns + fr)"
  proof -
    have e: "expect c (c # rest) = Some rest" for c rest by (simp add: expect_def)
    have p1: "parse_hour (a # b # rest) = Some (secs div 3600, rest)" for rest
      using h(2-4) by (simp add: parse_hour_def)
    have p2: "parse2 (m # n # rest) = Some (secs div 60 mod 60, rest)" for rest using mi(2-4) by (simp add: parse2_def)
    have p3: "parse2 (x # y # rest) = Some (secs mod 60, rest)" for rest using ss(2-4) by (simp add: parse2_def)
    have "\<not> (24 \<le> secs div 3600 \<or> 60 \<le> secs div 60 mod 60 \<or> 60 \<le> secs mod 60)" using rg by linarith
    then have c: "(24 \<le> secs div 3600 \<or> 60 \<le> secs div 60 mod 60 \<or> 60 \<le> secs mod 60) = False"
      by (rule Eq_FalseI [THEN meta_eq_to_obj_eq])
    show ?thesis
      unfolding parse_rfc3339_def tk day(1) option.case e p1 p2 p3 prod.case c if_False fraction Let_def
      by (simp add: parse_zone_def)
  qed
  with whole hms show ?thesis by simp
qed

end
