(* ===== verification/JsonText.thy ===== *)
theory JsonText
  imports JsonTree
begin

text \<open>
  \<open>json.Valid\<close>: the scanner of \<open>encoding/json\<close>, a pushdown automaton that takes one byte at a time. Its
  stack says which arrays and objects are open, at most ten thousand deep.
\<close>

datatype jframe = InArray | InObjectKey | InObjectValue

datatype jscan =
    BeginValue | BeginValueOrEmpty | BeginString | BeginStringOrEmpty | EndValue
  | InString | InStringEsc | InStringEscU nat
  | NumNeg | NumInt | NumZero | NumDot | NumFrac | NumE | NumESign | NumExp
  | InLiteral string | ScanError

definition json_space :: "char \<Rightarrow> bool" where
  "json_space c \<longleftrightarrow> (let n = (of_char c :: nat) in n = 32 \<or> n = 9 \<or> n = 10 \<or> n = 13)"

definition is_hex :: "char \<Rightarrow> bool" where
  "is_hex c \<longleftrightarrow> is_digit c \<or> (let n = (of_char c :: nat) in (65 \<le> n \<and> n \<le> 70) \<or> (97 \<le> n \<and> n \<le> 102))"

type_synonym jstack = "jframe list"

definition push_frame :: "jframe \<Rightarrow> jscan \<Rightarrow> jstack \<Rightarrow> jscan \<times> jstack" where
  "push_frame f next st = (if 10000 < length st + 1 then (ScanError, st) else (next, f # st))"

definition begin_value :: "char \<Rightarrow> jstack \<Rightarrow> jscan \<times> jstack" where
  "begin_value c st =
     (if c = CHR ''{'' then push_frame InObjectKey BeginStringOrEmpty st
      else if c = CHR ''['' then push_frame InArray BeginValueOrEmpty st
      else if c = CHR 0x22 then (InString, st)
      else if c = CHR ''-'' then (NumNeg, st)
      else if c = CHR ''0'' then (NumZero, st)
      else if is_digit c then (NumInt, st)
      else if c = CHR ''t'' then (InLiteral ''rue'', st)
      else if c = CHR ''f'' then (InLiteral ''alse'', st)
      else if c = CHR ''n'' then (InLiteral ''ull'', st)
      else (ScanError, st))"

definition end_value :: "char \<Rightarrow> jstack \<Rightarrow> jscan \<times> jstack" where
  "end_value c st =
     (if json_space c then (EndValue, st)
      else (case st of
          [] \<Rightarrow> (ScanError, st)
        | InObjectKey # r \<Rightarrow> if c = CHR '':'' then (BeginValue, InObjectValue # r) else (ScanError, st)
        | InObjectValue # r \<Rightarrow>
            if c = CHR '','' then (BeginString, InObjectKey # r)
            else if c = CHR ''}'' then (EndValue, r) else (ScanError, st)
        | InArray # r \<Rightarrow>
            if c = CHR '','' then (BeginValue, st)
            else if c = CHR '']'' then (EndValue, r) else (ScanError, st)))"

fun scan_byte :: "jscan \<Rightarrow> jstack \<Rightarrow> char \<Rightarrow> jscan \<times> jstack" where
  "scan_byte BeginValue st c = (if json_space c then (BeginValue, st) else begin_value c st)"
| "scan_byte BeginValueOrEmpty st c =
     (if json_space c then (BeginValueOrEmpty, st)
      else if c = CHR '']'' then end_value c st else begin_value c st)"
| "scan_byte BeginString st c =
     (if json_space c then (BeginString, st) else if c = CHR 0x22 then (InString, st) else (ScanError, st))"
| "scan_byte BeginStringOrEmpty st c =
     (if json_space c then (BeginStringOrEmpty, st)
      else if c = CHR ''}'' then (EndValue, tl st)
      else if c = CHR 0x22 then (InString, st) else (ScanError, st))"
| "scan_byte EndValue st c = end_value c st"
| "scan_byte InString st c =
     (if c = CHR 0x22 then (EndValue, st)
      else if c = CHR 0x5C then (InStringEsc, st)
      else if (of_char c :: nat) < 32 then (ScanError, st) else (InString, st))"
| "scan_byte InStringEsc st c =
     (if c \<in> {CHR ''b'', CHR ''f'', CHR ''n'', CHR ''r'', CHR ''t'', CHR 0x5C, CHR ''/'', CHR 0x22} then (InString, st)
      else if c = CHR ''u'' then (InStringEscU 4, st) else (ScanError, st))"
| "scan_byte (InStringEscU n) st c =
     (if is_hex c then (if n \<le> 1 then InString else InStringEscU (n - 1), st) else (ScanError, st))"
| "scan_byte NumNeg st c =
     (if c = CHR ''0'' then (NumZero, st) else if is_digit c then (NumInt, st) else (ScanError, st))"
| "scan_byte NumInt st c =
     (if is_digit c then (NumInt, st)
      else if c = CHR ''.'' then (NumDot, st)
      else if c = CHR ''e'' \<or> c = CHR ''E'' then (NumE, st) else end_value c st)"
| "scan_byte NumZero st c =
     (if c = CHR ''.'' then (NumDot, st)
      else if c = CHR ''e'' \<or> c = CHR ''E'' then (NumE, st) else end_value c st)"
| "scan_byte NumDot st c = (if is_digit c then (NumFrac, st) else (ScanError, st))"
| "scan_byte NumFrac st c =
     (if is_digit c then (NumFrac, st)
      else if c = CHR ''e'' \<or> c = CHR ''E'' then (NumE, st) else end_value c st)"
| "scan_byte NumE st c =
     (if c = CHR ''+'' \<or> c = CHR ''-'' then (NumESign, st)
      else if is_digit c then (NumExp, st) else (ScanError, st))"
| "scan_byte NumESign st c = (if is_digit c then (NumExp, st) else (ScanError, st))"
| "scan_byte NumExp st c = (if is_digit c then (NumExp, st) else end_value c st)"
| "scan_byte (InLiteral lit) st c =
     (case lit of [] \<Rightarrow> (ScanError, st)
      | x # r \<Rightarrow> if c = x then (if r = [] then EndValue else InLiteral r, st) else (ScanError, st))"
| "scan_byte ScanError st c = (ScanError, st)"

text \<open>At the end of the text the scanner is fed one space; a value must have ended with nothing open.\<close>

definition scan_text :: "string \<Rightarrow> jscan \<times> jstack" where
  "scan_text s = foldl (\<lambda>(q, st) c. scan_byte q st c) (BeginValue, []) s"

definition json_Valid :: "string \<Rightarrow> bool" where
  "json_Valid s = (case scan_text s of (q, st) \<Rightarrow> scan_byte q st CHR '' '' = (EndValue, []))"

text \<open>\<open>json.Unmarshal\<close> into a \<open>map[string]any\<close>: an object, or \<open>null\<close>. (A number too large for a
  \<open>float64\<close>, which it also refuses, is outside the model.)\<close>

definition json_is_object :: "string \<Rightarrow> bool" where
  "json_is_object s \<longleftrightarrow> json_Valid s \<and>
     (case dropWhile json_space s of [] \<Rightarrow> False | c # _ \<Rightarrow> c = CHR ''{'' \<or> c = CHR ''n'')"

lemma json_Valid_examples:
  "json_Valid ''[1, -0.5e3, {}]''" "\<not> json_Valid ''[01]''" "\<not> json_Valid ''''" "json_Valid '' null ''"
  by code_simp+

end
