(* ===== verification/Values.thy ===== *)
theory Values
  imports MetaSchema GoTime JsonText Money
begin

text \<open>
  \<open>kernel/metadata/value.go\<close> and \<open>localized.go\<close>: the values a record holds, the rule per field type that
  checks and normalises one (INV-T5), and the per-locale texts of localized fields.

  A value of Go's \<open>any\<close> is a \<open>val\<close>: the integer types are one constructor, a \<open>float64\<close> is the rational it
  denotes, a time is its UTC instant, \<open>VText\<close> is a string holding the JSON text of an object or array. Address parsing
  of \<open>net/mail\<close> is the parameter \<open>mail\<close>, the currency table is \<open>iso\<close>.
\<close>

datatype val =
    VNil
  | VStr string
  | VInt int
  | VNum rat
  | VBool bool
  | VTime int
  | VMap "(string \<times> val) list"
  | VList "val list"
  | VText json
  | VTrans "(string \<times> (string \<times> string) list) list"

type_synonym Record = "(string \<times> val) list"

type_synonym Translations = "(string \<times> (string \<times> string) list) list"

record value_env =
  env_mail :: "string \<Rightarrow> bool"
  env_iso :: iso_table

section \<open>JSON and back\<close>

text \<open>An integer read back as a \<open>float64\<close>: the nearest one, ties to even.\<close>

definition float64_of_int :: "int \<Rightarrow> rat" where
  "float64_of_int n =
     (if \<bar>n\<bar> \<le> 9007199254740992 then of_int n
      else let e = 2 ^ (length (filter (\<lambda>k. 2 ^ (k + 53) \<le> \<bar>n\<bar>) [0..<1024]))
           in of_int (roundRat (of_int n / of_int e) HalfEven * e))"

text \<open>What \<open>json.Marshal\<close> followed by \<open>json.Unmarshal\<close> makes of a value; \<open>None\<close> where marshalling fails.\<close>

definition trans_val :: "Translations \<Rightarrow> val" where
  "trans_val t = VMap (map (\<lambda>(f, ls). (f, VMap (map (\<lambda>(l, s). (l, VStr s)) ls))) t)"

fun json_back :: "val \<Rightarrow> val option"
  and json_back_map :: "(string \<times> val) list \<Rightarrow> (string \<times> val) list option"
  and json_back_list :: "val list \<Rightarrow> val list option" where
  "json_back VNil = Some VNil"
| "json_back (VStr s) = Some (VStr s)"
| "json_back (VInt n) = Some (VNum (float64_of_int n))"
| "json_back (VNum r) = Some (VNum r)"
| "json_back (VBool b) = Some (VBool b)"
| "json_back (VTime t) = map_option VStr (json_time t)"
| "json_back (VMap m) = map_option VMap (json_back_map m)"
| "json_back (VList vs) = map_option VList (json_back_list vs)"
| "json_back (VText j) = Some (VText j)"
| "json_back (VTrans t) = Some (trans_val t)"
| "json_back_map [] = Some []"
| "json_back_map ((k, v) # m) =
     (case json_back v of None \<Rightarrow> None
      | Some v' \<Rightarrow> (case json_back_map m of None \<Rightarrow> None | Some m' \<Rightarrow> Some ((k, v') # m')))"
| "json_back_list [] = Some []"
| "json_back_list (v # vs) =
     (case json_back v of None \<Rightarrow> None
      | Some v' \<Rightarrow> (case json_back_list vs of None \<Rightarrow> None | Some vs' \<Rightarrow> Some (v' # vs')))"

section \<open>Rules\<close>

type_synonym rule = "Field \<Rightarrow> val \<Rightarrow> meta_error + val"

definition ruleString :: rule where
  "ruleString f v = (case v of VStr s \<Rightarrow> Inr v | VText j \<Rightarrow> Inr v | _ \<Rightarrow> Inl (ErrValidation (f_name f)))"

definition ruleEmail :: "value_env \<Rightarrow> rule" where
  "ruleEmail env f v =
     (case v of VStr s \<Rightarrow> if env_mail env s then Inr v else Inl (ErrValidation (f_name f))
      | _ \<Rightarrow> Inl (ErrValidation (f_name f)))"

text \<open>A \<open>float64\<close> outside the range of \<open>int64\<close> never equals its conversion (which gives \<open>-2^63\<close>).\<close>

definition ruleInt :: rule where
  "ruleInt f v =
     (case v of VInt n \<Rightarrow> Inr (VInt n)
      | VNum r \<Rightarrow> if r = of_int \<lfloor>r\<rfloor> \<and> int64 \<lfloor>r\<rfloor> then Inr (VInt \<lfloor>r\<rfloor>) else Inl (ErrValidation (f_name f))
      | _ \<Rightarrow> Inl (ErrValidation (f_name f)))"

definition ruleBool :: rule where
  "ruleBool f v = (case v of VBool b \<Rightarrow> Inr v | _ \<Rightarrow> Inl (ErrValidation (f_name f)))"

text \<open>\<open>^-?\d+$\<close> and \<open>^-?\d+(\.\d+)?$\<close>\<close>

definition strip_minus :: "string \<Rightarrow> string" where
  "strip_minus s = (case s of [] \<Rightarrow> [] | c # r \<Rightarrow> if c = CHR ''-'' then r else s)"

definition exactInteger :: "string \<Rightarrow> bool" where
  "exactInteger s \<longleftrightarrow> strip_minus s \<noteq> [] \<and> list_all is_digit (strip_minus s)"

definition exactDecimal :: "string \<Rightarrow> bool" where
  "exactDecimal s \<longleftrightarrow>
     (case split_char CHR ''.'' (strip_minus s) of
        [w] \<Rightarrow> w \<noteq> [] \<and> list_all is_digit w
      | [w, d] \<Rightarrow> w \<noteq> [] \<and> list_all is_digit w \<and> d \<noteq> [] \<and> list_all is_digit d
      | _ \<Rightarrow> False)"

definition ruleExactDecimal :: rule where
  "ruleExactDecimal f v =
     (case v of VStr s \<Rightarrow> if exactDecimal s then Inr v else Inl (ErrValidation (f_name f))
      | _ \<Rightarrow> Inl (ErrValidation (f_name f)))"

definition ruleMoneyMinor :: rule where
  "ruleMoneyMinor f v =
     (case v of VStr s \<Rightarrow> if exactInteger s then Inr v else Inl (ErrValidation (f_name f))
      | _ \<Rightarrow> Inl (ErrValidation (f_name f)))"

definition ruleCurrency :: "value_env \<Rightarrow> rule" where
  "ruleCurrency env f v =
     (case v of VStr s \<Rightarrow> (case Lookup (env_iso env) s of Inl _ \<Rightarrow> Inl (ErrValidation (f_name f)) | Inr c \<Rightarrow> Inr (VStr (Code c)))
      | _ \<Rightarrow> Inl (ErrValidation (f_name f)))"

definition parseTime :: "(string \<Rightarrow> int option) \<Rightarrow> rule" where
  "parseTime layout f v =
     (case v of VTime t \<Rightarrow> Inr (VTime t)
      | VStr s \<Rightarrow> (case layout s of None \<Rightarrow> Inl (ErrValidation (f_name f)) | Some t \<Rightarrow> Inr (VTime t))
      | _ \<Rightarrow> Inl (ErrValidation (f_name f)))"

definition ruleDate :: rule where
  "ruleDate = parseTime (\<lambda>s. map_option (\<lambda>d. (d - 719528) * day_ns) (parse_date s))"

definition ruleDatetime :: rule where
  "ruleDatetime = parseTime parse_rfc3339"

definition ruleEnum :: rule where
  "ruleEnum f v =
     (case v of VStr s \<Rightarrow> if allows f s then Inr v else Inl (ErrValidation (f_name f))
      | _ \<Rightarrow> Inl (ErrValidation (f_name f)))"

definition ruleJSON :: rule where
  "ruleJSON f v =
     (case v of VStr s \<Rightarrow> if json_Valid s then Inr v else Inl (ErrValidation (f_name f))
      | _ \<Rightarrow> if json_back v = None then Inl (ErrValidation (f_name f)) else Inr v)"

definition ruleAddress :: rule where
  "ruleAddress f v =
     (case v of VMap m \<Rightarrow> Inr v
      | VStr s \<Rightarrow> if json_is_object s then Inr v else Inl (ErrValidation (f_name f))
      | VText (JObj m) \<Rightarrow> Inr v
      | _ \<Rightarrow> Inl (ErrValidation (f_name f)))"

definition ruleTable :: rule where
  "ruleTable f v = (case v of VList rows \<Rightarrow> Inr v | _ \<Rightarrow> Inl (ErrValidation (f_name f)))"

definition ruleComputed :: rule where
  "ruleComputed f v = Inl (ErrValidation (f_name f))"

definition valueRules :: "value_env \<Rightarrow> FieldType \<Rightarrow> rule option" where
  "valueRules env t =
     (case t of
        FieldText \<Rightarrow> Some ruleString | FieldLongText \<Rightarrow> Some ruleString | FieldRichText \<Rightarrow> Some ruleString
      | FieldPhone \<Rightarrow> Some ruleString | FieldDuration \<Rightarrow> Some ruleString | FieldFile \<Rightarrow> Some ruleString
      | FieldLink \<Rightarrow> Some ruleString | FieldEmail \<Rightarrow> Some (ruleEmail env) | FieldInt \<Rightarrow> Some ruleInt
      | FieldBool \<Rightarrow> Some ruleBool | FieldDecimal \<Rightarrow> Some ruleExactDecimal | FieldPercent \<Rightarrow> Some ruleExactDecimal
      | FieldMoney \<Rightarrow> Some ruleMoneyMinor | FieldCurrency \<Rightarrow> Some (ruleCurrency env) | FieldDate \<Rightarrow> Some ruleDate
      | FieldDatetime \<Rightarrow> Some ruleDatetime | FieldEnum \<Rightarrow> Some ruleEnum | FieldJSON \<Rightarrow> Some ruleJSON
      | FieldAddress \<Rightarrow> Some ruleAddress | FieldTable \<Rightarrow> Some ruleTable | FieldComputed \<Rightarrow> Some ruleComputed
      | FieldUnknown _ \<Rightarrow> None)"

definition is_blank :: "val \<Rightarrow> bool" where
  "is_blank v \<longleftrightarrow> v = VNil \<or> v = VStr ''''"

definition validateValue :: "value_env \<Rightarrow> rule" where
  "validateValue env f v =
     (if is_blank v then Inr v
      else (case valueRules env (f_type f) of None \<Rightarrow> Inl (ErrValidation (f_name f)) | Some rule \<Rightarrow> rule f v))"

section \<open>Localized texts\<close>

definition TranslationsKey :: string where
  "TranslationsKey = ''translations''"

definition translationsBlobKey :: string where
  "translationsBlobKey = ''i18n''"

fun string_map :: "string \<Rightarrow> (string \<times> val) list \<Rightarrow> meta_error + (string \<times> string) list" where
  "string_map field [] = Inr []"
| "string_map field ((locale, v) # m) =
     (case v of
        VStr s \<Rightarrow> (case string_map field m of Inl e \<Rightarrow> Inl e | Inr r \<Rightarrow> Inr ((locale, s) # r))
      | _ \<Rightarrow> Inl (ErrValidation field))"

definition parseLocalized :: "string \<Rightarrow> val \<Rightarrow> meta_error + (string \<times> string) list" where
  "parseLocalized field raw = (case raw of VMap m \<Rightarrow> string_map field m | _ \<Rightarrow> Inl (ErrValidation field))"

fun localized_map :: "(string \<times> val) list \<Rightarrow> meta_error + Translations" where
  "localized_map [] = Inr []"
| "localized_map ((field, v) # m) =
     (case parseLocalized field v of Inl e \<Rightarrow> Inl e
      | Inr ls \<Rightarrow> (case localized_map m of Inl e \<Rightarrow> Inl e | Inr r \<Rightarrow> Inr ((field, ls) # r)))"

definition parseTranslations :: "val \<Rightarrow> meta_error + Translations" where
  "parseTranslations raw =
     (case raw of
        VNil \<Rightarrow> Inr []
      | VTrans t \<Rightarrow> Inr t
      | VMap m \<Rightarrow> localized_map m
      | _ \<Rightarrow> Inl (ErrValidation TranslationsKey))"

definition localizedField :: "MetaObject \<Rightarrow> string \<Rightarrow> bool" where
  "localizedField s name \<longleftrightarrow> (\<exists>f \<in> set (Fields s). f_localized f \<and> f_name f = name)"

text \<open>\<open>None\<close> is no translations supplied.\<close>

definition translationsFrom :: "MetaObject \<Rightarrow> Record \<Rightarrow> meta_error + Translations option" where
  "translationsFrom s rec =
     (case map_of rec TranslationsKey of None \<Rightarrow> Inr None
      | Some raw \<Rightarrow>
     (case parseTranslations raw of Inl e \<Rightarrow> Inl e
      | Inr t \<Rightarrow>
     (case List.find (\<lambda>(field, _). \<not> localizedField s field) t of
        Some (field, _) \<Rightarrow> Inl (ErrNotLocalized field)
      | None \<Rightarrow> Inr (Some t))))"

definition blob_trans :: "Translations \<Rightarrow> Translations" where
  "blob_trans t =
     filter (\<lambda>(field, ls). ls \<noteq> []) (map (\<lambda>(field, ls). (field, filter (\<lambda>(locale, s). s \<noteq> '''') ls)) t)"

definition blobValue :: "Translations \<Rightarrow> val option" where
  "blobValue t = (if blob_trans t = [] then None else Some (trans_val (blob_trans t)))"

definition translationsFromBlob :: "Record \<Rightarrow> Translations" where
  "translationsFromBlob custom =
     (case map_of custom translationsBlobKey of None \<Rightarrow> []
      | Some raw \<Rightarrow> (case parseTranslations raw of Inl _ \<Rightarrow> [] | Inr t \<Rightarrow> t))"

section \<open>Conforming values\<close>

text \<open>The type and option set a field declares, as a predicate on the values it may hold (INV-T5). A value
  supplied by a caller is \<open>val_ok\<close> when its integers are 64-bit ones.\<close>

definition conforms :: "value_env \<Rightarrow> Field \<Rightarrow> val \<Rightarrow> bool" where
  "conforms env f v \<longleftrightarrow> is_blank v \<or>
     (case f_type f of
        FieldInt \<Rightarrow> (\<exists>n. v = VInt n \<and> int64 n)
      | FieldBool \<Rightarrow> (\<exists>b. v = VBool b)
      | FieldDate \<Rightarrow> (\<exists>t. v = VTime t)
      | FieldDatetime \<Rightarrow> (\<exists>t. v = VTime t)
      | FieldDecimal \<Rightarrow> (\<exists>s. v = VStr s \<and> exactDecimal s)
      | FieldPercent \<Rightarrow> (\<exists>s. v = VStr s \<and> exactDecimal s)
      | FieldMoney \<Rightarrow> (\<exists>s. v = VStr s \<and> exactInteger s)
      | FieldCurrency \<Rightarrow> (\<exists>s c. v = VStr s \<and> Lookup (env_iso env) s = Inr c \<and> Code c = s)
      | FieldEnum \<Rightarrow> (\<exists>s. v = VStr s \<and> s \<in> set (f_options f))
      | FieldEmail \<Rightarrow> (\<exists>s. v = VStr s \<and> env_mail env s)
      | FieldJSON \<Rightarrow> (case v of VStr s \<Rightarrow> json_Valid s | _ \<Rightarrow> json_back v \<noteq> None)
      | FieldAddress \<Rightarrow> (\<exists>s. v = VStr s \<and> json_is_object s) \<or> (\<exists>m. v = VMap m) \<or> (\<exists>m. v = VText (JObj m))
      | FieldTable \<Rightarrow> (\<exists>rows. v = VList rows)
      | FieldComputed \<Rightarrow> False
      | FieldUnknown _ \<Rightarrow> False
      | _ \<Rightarrow> (\<exists>s. v = VStr s) \<or> (\<exists>j. v = VText j))"

definition val_ok :: "val \<Rightarrow> bool" where
  "val_ok v \<longleftrightarrow> (case v of VInt n \<Rightarrow> int64 n | _ \<Rightarrow> True)"

lemmas rule_defs = ruleString_def ruleEmail_def ruleInt_def ruleBool_def ruleExactDecimal_def ruleMoneyMinor_def
  ruleDate_def ruleDatetime_def parseTime_def ruleEnum_def ruleJSON_def ruleAddress_def
  ruleTable_def ruleComputed_def allows_def

lemma validateValue_blank: "is_blank v \<Longrightarrow> validateValue env f v = Inr v"
  by (simp add: validateValue_def)

lemma ruleCurrency_fixed:
  assumes "iso_canonical (env_iso env)" "ruleCurrency env f v = Inr v'"
  shows "\<exists>s c. v' = VStr s \<and> Lookup (env_iso env) s = Inr c \<and> Code c = s"
  using assms Lookup_canonical [OF assms(1)] by (auto simp: ruleCurrency_def split: val.splits sum.splits)

lemma validateValue_conforms:
  assumes "validateValue env f v = Inr v'" "val_ok v" "iso_canonical (env_iso env)"
  shows "conforms env f v'"
proof (cases "is_blank v")
  case True
  with assms(1) show ?thesis by (simp add: validateValue_def conforms_def)
next
  case False
  with assms(1) obtain rule where r: "valueRules env (f_type f) = Some rule" "rule f v = Inr v'"
    by (auto simp: validateValue_def split: option.splits)
  have "f_type f = FieldCurrency \<Longrightarrow> ?thesis"
    using r ruleCurrency_fixed [OF assms(3), of f v v'] by (auto simp: valueRules_def conforms_def)
  then show ?thesis
    using r assms(2)
    by (cases "f_type f")
      (auto simp: valueRules_def conforms_def rule_defs val_ok_def split: val.splits if_splits option.splits json.splits)
qed

lemma conforms_validated:
  assumes "conforms env f v"
  shows "validateValue env f v = Inr v"
proof (cases "is_blank v")
  case False
  with assms show ?thesis
    by (cases "f_type f")
      (auto simp: validateValue_def valueRules_def conforms_def rule_defs ruleCurrency_def split: val.splits if_splits)
qed (rule validateValue_blank)

end
