(* ===== verification/Crud.thy ===== *)
theory Crud
  imports EventStore Values MetaEvolve
begin

text \<open>
  \<open>kernel/metadata/crud.go\<close>, \<open>hooks.go\<close> and \<open>audit.go\<close>: the generic engine for records of one object, driven
  by its effective schema. A record is an association list with one entry per key. A generated table holds
  rows of core columns plus the decoded \<open>custom_fields\<close> blob; the primary key is the id alone, over all
  tenants. Timestamps are taken at the resolution the databases keep.

  Outside the model, as parameters: the SQL drivers (\<open>env_drv\<close>: what a column of a field type yields when
  read back after a value was written to it, or \<open>None\<close> when the write is refused), UUIDs (\<open>env_v7\<close> and the
  fresh ids passed to the operations), the expression engine (\<open>env_compiles\<close>, \<open>env_eval\<close>) and plugin hooks.
\<close>

record audit_row =
  au_id :: string
  au_tenant :: string
  au_object :: string
  au_record :: string
  au_action :: string
  au_changes :: val
  au_actor :: string
  au_at :: int

record crud_row =
  cr_table :: string
  cr_id :: string
  cr_tenant :: string
  cr_core :: Record
  cr_custom :: Record
  cr_created :: int
  cr_updated :: int
  cr_archived :: "int option"

record crud_db = event_db +
  obj_rows :: "crud_row list"
  audit_log :: "audit_row list"

type_synonym hooks = "string \<Rightarrow> string \<Rightarrow> string \<Rightarrow> Record \<Rightarrow> unit + Record option"

record crud_env = value_env +
  env_dial :: dialect
  env_v7 :: "string \<Rightarrow> bool"
  env_compiles :: "string \<Rightarrow> bool"
  env_eval :: "Record cel_eval"
  env_drv :: "dialect \<Rightarrow> FieldType \<Rightarrow> val \<Rightarrow> val option"
  env_hooks :: "hooks option"

abbreviation venv :: "crud_env \<Rightarrow> value_env" where
  "venv env \<equiv> \<lparr>env_mail = env_mail env, env_iso = env_iso env\<rparr>"

section \<open>Validation of a record\<close>

definition NewCRUD :: "MetaObject \<Rightarrow> meta_error + MetaObject" where
  "NewCRUD schema = (if Persistence schema \<noteq> PersistenceCRUD then Inl ErrWrongPersistence else Inr schema)"

definition refuseUnknownFields :: "MetaObject \<Rightarrow> Record \<Rightarrow> meta_error + unit" where
  "refuseUnknownFields schema rec =
     (if (\<exists>(name, v) \<in> set rec. name \<noteq> ''id'' \<and> name \<noteq> TranslationsKey \<and> find_field (Fields schema) name = None)
      then Inl (ErrValidation (ObjectName schema)) else Inr ())"

fun validate_record :: "value_env \<Rightarrow> bool \<Rightarrow> Record \<Rightarrow> Field list \<Rightarrow> Record \<Rightarrow> meta_error + Record" where
  "validate_record env partial rec [] out = Inr out"
| "validate_record env partial rec (f # fs) out =
     (case map_of rec (f_name f) of
        None \<Rightarrow>
          if \<not> partial \<and> f_required f then Inl (ErrValidation (f_name f))
          else validate_record env partial rec fs out
      | Some v \<Rightarrow>
          if f_required f \<and> is_blank v then Inl (ErrValidation (f_name f))
          else
         (case validateValue env f v of Inl e \<Rightarrow> Inl e
          | Inr v' \<Rightarrow> validate_record env partial rec fs (put_list (f_name f) v' out)))"

definition validated :: "crud_env \<Rightarrow> MetaObject \<Rightarrow> Record \<Rightarrow> bool \<Rightarrow> meta_error + Record" where
  "validated env schema rec partial =
     (case refuseUnknownFields schema rec of Inl e \<Rightarrow> Inl e
      | Inr _ \<Rightarrow> validate_record (venv env) partial rec (Fields schema) rec)"

definition recordID :: "crud_env \<Rightarrow> string \<Rightarrow> Record \<Rightarrow> meta_error + string" where
  "recordID env fresh rec =
     (case map_of rec ''id'' of None \<Rightarrow> Inr fresh
      | Some v \<Rightarrow>
          if is_blank v then Inr fresh
          else (case v of VStr s \<Rightarrow> if env_v7 env s then Inr s else Inl (ErrValidation ''id'')
                | _ \<Rightarrow> Inl (ErrValidation ''id'')))"

definition runBefore ::
  "crud_env \<Rightarrow> MetaObject \<Rightarrow> string \<Rightarrow> string \<Rightarrow> Record \<Rightarrow> bool \<Rightarrow> meta_error + Record" where
  "runBefore env schema tenant verb rec partial =
     (case env_hooks env of None \<Rightarrow> Inr rec
      | Some before \<Rightarrow>
     (case before tenant (ObjectName schema) verb rec of
        Inl _ \<Rightarrow> Inl ErrHookRejected
      | Inr None \<Rightarrow> Inr rec
      | Inr (Some out) \<Rightarrow> validated env schema out partial))"

section \<open>Rows\<close>

definition put_all :: "(string \<times> 'v) list \<Rightarrow> (string \<times> 'v) list \<Rightarrow> (string \<times> 'v) list" where
  "put_all kvs r = foldl (\<lambda>r (k, v). put_list k v r) r kvs"

definition delete_key :: "string \<Rightarrow> (string \<times> 'v) list \<Rightarrow> (string \<times> 'v) list" where
  "delete_key k r = filter (\<lambda>(k', v). k' \<noteq> k) r"

definition rec_value :: "Record \<Rightarrow> string \<Rightarrow> val" where
  "rec_value r name = (case map_of r name of None \<Rightarrow> VNil | Some v \<Rightarrow> v)"

definition setTranslations :: "Record \<Rightarrow> Translations \<Rightarrow> Record" where
  "setTranslations rec t = (if t = [] then delete_key TranslationsKey rec else put_list TranslationsKey (VTrans t) rec)"

definition overlay_fields :: "MetaObject \<Rightarrow> Field list" where
  "overlay_fields s = filter f_from_overlay (Fields s)"

definition present :: "Record \<Rightarrow> Field list \<Rightarrow> Record" where
  "present rec fs = map (\<lambda>f. (f_name f, rec_value rec (f_name f))) (filter (\<lambda>f. map_of rec (f_name f) \<noteq> None) fs)"

text \<open>The columns a statement writes, one driver value per field.\<close>

fun write_columns :: "crud_env \<Rightarrow> Record \<Rightarrow> Field list \<Rightarrow> Record option" where
  "write_columns env rec [] = Some []"
| "write_columns env rec (f # fs) =
     (case env_drv env (env_dial env) (f_type f) (rec_value rec (f_name f)) of None \<Rightarrow> None
      | Some v \<Rightarrow> (case write_columns env rec fs of None \<Rightarrow> None | Some cols \<Rightarrow> Some ((f_name f, v) # cols)))"

text \<open>\<open>derefFieldValue\<close> after \<open>Scan\<close> into the nullable type of the field; \<open>None\<close> is a scan error.\<close>

definition derefFieldValue :: "FieldType \<Rightarrow> val \<Rightarrow> val option" where
  "derefFieldValue t v =
     (if v = VNil then Some VNil
      else (case t of
          FieldInt \<Rightarrow> (case v of VInt n \<Rightarrow> Some v | VStr s \<Rightarrow> map_option VInt (atoi s) | _ \<Rightarrow> None)
        | FieldBool \<Rightarrow> (case v of VBool b \<Rightarrow> Some v | _ \<Rightarrow> None)
        | FieldDate \<Rightarrow> (case v of VTime x \<Rightarrow> Some v | _ \<Rightarrow> None)
        | FieldDatetime \<Rightarrow> (case v of VTime x \<Rightarrow> Some v | _ \<Rightarrow> None)
        | _ \<Rightarrow> (case v of VStr s \<Rightarrow> Some v | VText j \<Rightarrow> Some v | _ \<Rightarrow> None)))"

fun scan_columns :: "Record \<Rightarrow> Field list \<Rightarrow> Record option" where
  "scan_columns cols [] = Some []"
| "scan_columns cols (f # fs) =
     (case derefFieldValue (f_type f) (rec_value cols (f_name f)) of None \<Rightarrow> None
      | Some v \<Rightarrow> (case scan_columns cols fs of None \<Rightarrow> None | Some r \<Rightarrow> Some ((f_name f, v) # r)))"

definition scanRecord :: "MetaObject \<Rightarrow> crud_row \<Rightarrow> meta_error + Record" where
  "scanRecord schema row =
     (case scan_columns (cr_core row) (core_fields schema) of None \<Rightarrow> Inl ErrDatabase
      | Some cols \<Rightarrow>
          Inr (setTranslations
            (put_all (present (cr_custom row) (overlay_fields schema))
              (put_all cols
                ([(''id'', VStr (cr_id row)), (''tenant_id'', VStr (cr_tenant row)),
                  (''created_at'', VTime (cr_created row)), (''updated_at'', VTime (cr_updated row))]
                 @ (case cr_archived row of None \<Rightarrow> [] | Some t \<Rightarrow> [(''archived_at'', VTime t)]))))
            (translationsFromBlob (cr_custom row))))"

definition tenant_rows :: "MetaObject \<Rightarrow> string \<Rightarrow> 'x crud_db_scheme \<Rightarrow> crud_row list" where
  "tenant_rows schema tenant db =
     filter (\<lambda>r. cr_table r = TableName (ObjectName schema) \<and> cr_tenant r = tenant) (obj_rows db)"

definition getTx :: "MetaObject \<Rightarrow> string \<Rightarrow> string \<Rightarrow> 'x crud_db_scheme \<Rightarrow> meta_error + Record option" where
  "getTx schema tenant rid db =
     (case List.find (\<lambda>r. cr_id r = rid) (tenant_rows schema tenant db) of None \<Rightarrow> Inr None
      | Some row \<Rightarrow> (case scanRecord schema row of Inl e \<Rightarrow> Inl e | Inr rec \<Rightarrow> Inr (Some rec)))"

section \<open>Audit\<close>

definition recordAudit ::
  "int \<Rightarrow> string \<Rightarrow> string \<Rightarrow> string \<Rightarrow> string \<Rightarrow> string \<Rightarrow> val \<Rightarrow> string \<Rightarrow> ('x crud_db_scheme, meta_error, unit) tx" where
  "recordAudit now auid tenant object rid action changes actor db =
     (let db1 = db\<lparr>audit_log := audit_log db @ [\<lparr>au_id = auid, au_tenant = tenant, au_object = object, au_record = rid,
            au_action = action, au_changes = changes, au_actor = actor, au_at = now\<rparr>]\<rparr>;
          entry = \<lparr>fe_tenant = tenant, fe_source = ''audit'', fe_ref = rid, fe_object = object,
            fe_scope = ScopeKeyFor object, fe_recorded_at = now, fe_actor = actor\<rparr>
      in case feed_Append entry db1 of (Inl e, _) \<Rightarrow> (Inl (MetaFeed e), db) | (Inr _, db2) \<Rightarrow> (Inr (), db2))"

section \<open>Writes\<close>

definition custom_fields :: "MetaObject \<Rightarrow> Record \<Rightarrow> Translations \<Rightarrow> Record" where
  "custom_fields schema rec t =
     put_all (present rec (overlay_fields schema)) (case blobValue t of None \<Rightarrow> [] | Some b \<Rightarrow> [(translationsBlobKey, b)])"

definition create_tx ::
  "crud_env \<Rightarrow> int \<Rightarrow> string \<Rightarrow> MetaObject \<Rightarrow> string \<Rightarrow> Actor \<Rightarrow> Record \<Rightarrow> Translations \<Rightarrow> string \<Rightarrow>
     ('x crud_db_scheme, meta_error, Record) tx" where
  "create_tx env now auid schema tenant actor rec t rid db =
     (let table = TableName (ObjectName schema) in
      case json_back_map (custom_fields schema rec t) of None \<Rightarrow> (Inl ErrMarshal, db)
      | Some blob \<Rightarrow>
     (case write_columns env rec (core_fields schema) of None \<Rightarrow> (Inl ErrDatabase, db)
      | Some cols \<Rightarrow>
          if (\<exists>r \<in> set (obj_rows db). cr_table r = table \<and> cr_id r = rid) then (Inl ErrIDTaken, db)
          else
            let row = \<lparr>cr_table = table, cr_id = rid, cr_tenant = tenant, cr_core = cols, cr_custom = blob,
                        cr_created = now, cr_updated = now, cr_archived = None\<rparr>
            in (case json_back (VMap rec) of None \<Rightarrow> (Inl ErrMarshal, db)
                | Some changes \<Rightarrow>
               (case recordAudit now auid tenant (ObjectName schema) rid ''create'' changes (UserID actor)
                       (db\<lparr>obj_rows := obj_rows db @ [row]\<rparr>) of
                  (Inl e, _) \<Rightarrow> (Inl e, db)
                | (Inr _, db') \<Rightarrow>
                    (Inr (setTranslations
                       (put_all [(''id'', VStr rid), (''tenant_id'', VStr tenant), (''created_at'', VTime now),
                          (''updated_at'', VTime now)] rec) t), db')))))"

definition Create ::
  "crud_env \<Rightarrow> Actor option \<Rightarrow> int \<Rightarrow> string \<Rightarrow> string \<Rightarrow> MetaObject \<Rightarrow> string \<Rightarrow> Record \<Rightarrow>
     ('x crud_db_scheme, meta_error, Record) tx" where
  "Create env ctx now fresh auid schema tenant rec db =
     (case AuthorizeGrants db ctx (ObjectName schema) ''create'' of Inl e \<Rightarrow> (Inl (MetaAuthz e), db)
      | Inr (actor, gs) \<Rightarrow>
     (case validated env schema rec False of Inl e \<Rightarrow> (Inl e, db)
      | Inr rec1 \<Rightarrow>
     (case runBefore env schema tenant ''create'' rec1 False of Inl e \<Rightarrow> (Inl e, db)
      | Inr rec2 \<Rightarrow>
          if \<not> Allow (env_compiles env) (env_eval env) gs rec2 then (Inl (MetaAuthz ErrPermissionDenied), db)
          else
         (case translationsFrom schema rec2 of Inl e \<Rightarrow> (Inl e, db)
          | Inr t \<Rightarrow>
         (case recordID env fresh rec2 of Inl e \<Rightarrow> (Inl e, db)
          | Inr rid \<Rightarrow> create_tx env now auid schema tenant actor rec2 (case t of None \<Rightarrow> [] | Some t \<Rightarrow> t) rid db)))))"

text \<open>The fields an update touches, and the blob it writes: the current overlay values and translations with
  the touched ones replaced.\<close>

definition touched :: "Record \<Rightarrow> Field list \<Rightarrow> Field list" where
  "touched changes fs = filter (\<lambda>f. map_of changes (f_name f) \<noteq> None) fs"

definition stored_translations :: "Record \<Rightarrow> Translations" where
  "stored_translations current = (case map_of current TranslationsKey of Some (VTrans t) \<Rightarrow> t | _ \<Rightarrow> [])"

definition update_custom :: "MetaObject \<Rightarrow> Record \<Rightarrow> Record \<Rightarrow> Translations option \<Rightarrow> Record" where
  "update_custom schema current changes t =
     (let seeded = custom_fields schema current (stored_translations current);
          translated = (case t of None \<Rightarrow> seeded
             | Some t' \<Rightarrow> (case blobValue t' of None \<Rightarrow> delete_key translationsBlobKey seeded
                          | Some b \<Rightarrow> put_list translationsBlobKey b seeded))
      in put_all (present changes (overlay_fields schema)) translated)"

definition update_diff :: "MetaObject \<Rightarrow> Record \<Rightarrow> Record \<Rightarrow> Translations option \<Rightarrow> Record" where
  "update_diff schema current changes t =
     put_all (map (\<lambda>f. (f_name f, VMap [(''old'', rec_value current (f_name f)), (''new'', rec_value changes (f_name f))]))
               (touched changes (Fields schema)))
       (case t of None \<Rightarrow> []
        | Some t' \<Rightarrow> [(TranslationsKey, VMap [(''old'', rec_value current TranslationsKey), (''new'', VTrans t')])])"

definition custom_touched :: "MetaObject \<Rightarrow> Record \<Rightarrow> Translations option \<Rightarrow> bool" where
  "custom_touched schema changes t \<longleftrightarrow> t \<noteq> None \<or> touched changes (overlay_fields schema) \<noteq> []"

definition replace_row :: "MetaObject \<Rightarrow> string \<Rightarrow> string \<Rightarrow> (crud_row \<Rightarrow> crud_row) \<Rightarrow> crud_row list \<Rightarrow> crud_row list" where
  "replace_row schema tenant rid g rows =
     map (\<lambda>r. if cr_table r = TableName (ObjectName schema) \<and> cr_tenant r = tenant \<and> cr_id r = rid then g r else r) rows"

text \<open>The new blob of an update: \<open>Some None\<close> leaves the stored one, \<open>None\<close> is a value JSON cannot hold.\<close>

definition update_blob :: "MetaObject \<Rightarrow> Record \<Rightarrow> Record \<Rightarrow> Translations option \<Rightarrow> Record option option" where
  "update_blob schema current changes t =
     (if custom_touched schema changes t then map_option Some (json_back_map (update_custom schema current changes t))
      else Some None)"

definition updated_row :: "int \<Rightarrow> Record \<Rightarrow> Record option \<Rightarrow> crud_row \<Rightarrow> crud_row" where
  "updated_row now cols blob r = r\<lparr>cr_core := put_all cols (cr_core r),
     cr_custom := (case blob of None \<Rightarrow> cr_custom r | Some b \<Rightarrow> b), cr_updated := now\<rparr>"

definition update_tx ::
  "crud_env \<Rightarrow> int \<Rightarrow> string \<Rightarrow> MetaObject \<Rightarrow> string \<Rightarrow> Actor \<Rightarrow> GrantSet \<Rightarrow> string \<Rightarrow> Record \<Rightarrow> Translations option \<Rightarrow>
     ('x crud_db_scheme, meta_error, Record) tx" where
  "update_tx env now auid schema tenant actor gs rid changes t db =
     (case getTx schema tenant rid db of Inl e \<Rightarrow> (Inl e, db)
      | Inr None \<Rightarrow> (Inl ErrRecordNotFound, db)
      | Inr (Some current) \<Rightarrow>
          if \<not> Allow (env_compiles env) (env_eval env) gs current then (Inl (MetaAuthz ErrPermissionDenied), db)
          else
         (case update_blob schema current changes t of
            None \<Rightarrow> (Inl ErrMarshal, db)
          | Some blob \<Rightarrow>
         (case write_columns env changes (touched changes (core_fields schema)) of None \<Rightarrow> (Inl ErrDatabase, db)
          | Some cols \<Rightarrow>
              let db1 = db\<lparr>obj_rows := replace_row schema tenant rid (updated_row now cols blob) (obj_rows db)\<rparr>
              in (case json_back (VMap (update_diff schema current changes t)) of None \<Rightarrow> (Inl ErrMarshal, db)
                  | Some diff \<Rightarrow>
                 (case recordAudit now auid tenant (ObjectName schema) rid ''update'' diff (UserID actor) db1 of
                    (Inl e, _) \<Rightarrow> (Inl e, db)
                  | (Inr _, db') \<Rightarrow>
                      (let merged = put_all changes current;
                           merged' = (case t of None \<Rightarrow> merged | Some t' \<Rightarrow> setTranslations merged t')
                       in (Inr (put_list ''updated_at'' (VTime now) merged'), db')))))))"

definition Update ::
  "crud_env \<Rightarrow> Actor option \<Rightarrow> int \<Rightarrow> string \<Rightarrow> MetaObject \<Rightarrow> string \<Rightarrow> string \<Rightarrow> Record \<Rightarrow>
     ('x crud_db_scheme, meta_error, Record) tx" where
  "Update env ctx now auid schema tenant rid changes db =
     (case AuthorizeGrants db ctx (ObjectName schema) ''update'' of Inl e \<Rightarrow> (Inl (MetaAuthz e), db)
      | Inr (actor, gs) \<Rightarrow>
     (case validated env schema changes True of Inl e \<Rightarrow> (Inl e, db)
      | Inr changes1 \<Rightarrow>
     (case runBefore env schema tenant ''update'' changes1 True of Inl e \<Rightarrow> (Inl e, db)
      | Inr changes2 \<Rightarrow>
     (case translationsFrom schema changes2 of Inl e \<Rightarrow> (Inl e, db)
      | Inr t \<Rightarrow> update_tx env now auid schema tenant actor gs rid changes2 t db))))"

definition SoftDelete ::
  "crud_env \<Rightarrow> Actor option \<Rightarrow> int \<Rightarrow> string \<Rightarrow> MetaObject \<Rightarrow> string \<Rightarrow> string \<Rightarrow> ('x crud_db_scheme, meta_error, unit) tx" where
  "SoftDelete env ctx now auid schema tenant rid db =
     (case AuthorizeGrants db ctx (ObjectName schema) ''delete'' of Inl e \<Rightarrow> (Inl (MetaAuthz e), db)
      | Inr (actor, gs) \<Rightarrow>
     (case runBefore env schema tenant ''delete'' [(''id'', VStr rid)] True of Inl e \<Rightarrow> (Inl e, db)
      | Inr _ \<Rightarrow>
     (case getTx schema tenant rid db of Inl e \<Rightarrow> (Inl e, db)
      | Inr None \<Rightarrow> (Inl ErrRecordNotFound, db)
      | Inr (Some current) \<Rightarrow>
          if \<not> Allow (env_compiles env) (env_eval env) gs current then (Inl (MetaAuthz ErrPermissionDenied), db)
          else
         (case json_back (VMap [(''archived_at'', VMap [(''old'', VNil), (''new'', VTime now)])]) of
            None \<Rightarrow> (Inl ErrMarshal, db)
          | Some changes \<Rightarrow>
         (case recordAudit now auid tenant (ObjectName schema) rid ''delete'' changes (UserID actor)
                 (db\<lparr>obj_rows := replace_row schema tenant rid (\<lambda>r. r\<lparr>cr_archived := Some now, cr_updated := now\<rparr>) (obj_rows db)\<rparr>) of
            (Inl e, _) \<Rightarrow> (Inl e, db)
          | (Inr _, db') \<Rightarrow> (Inr (), db'))))))"

section \<open>Reads\<close>

definition Get :: "Actor option \<Rightarrow> MetaObject \<Rightarrow> string \<Rightarrow> string \<Rightarrow> 'x crud_db_scheme \<Rightarrow> meta_error + Record" where
  "Get ctx schema tenant rid db =
     (case Authorize db ctx (ObjectName schema) ''read'' of Inl e \<Rightarrow> Inl (MetaAuthz e)
      | Inr _ \<Rightarrow>
     (case getTx schema tenant rid db of Inl e \<Rightarrow> Inl e
      | Inr None \<Rightarrow> Inl ErrRecordNotFound
      | Inr (Some rec) \<Rightarrow> Inr rec))"

definition ListPage ::
  "Actor option \<Rightarrow> MetaObject \<Rightarrow> string \<Rightarrow> string \<Rightarrow> int \<Rightarrow> 'x crud_db_scheme \<Rightarrow> meta_error + Record list" where
  "ListPage ctx schema tenant after limit db =
     (case Authorize db ctx (ObjectName schema) ''read'' of Inl e \<Rightarrow> Inl (MetaAuthz e)
      | Inr _ \<Rightarrow>
          if limit \<le> 0 then Inl ErrMetaLimit
          else traverse (scanRecord schema) (take (nat limit) (sort_key cr_id
                 (filter (\<lambda>r. cr_archived r = None \<and> cr_id r > after) (tenant_rows schema tenant db)))))"

definition GetMany ::
  "Actor option \<Rightarrow> MetaObject \<Rightarrow> string \<Rightarrow> string list \<Rightarrow> 'x crud_db_scheme \<Rightarrow> meta_error + Record list" where
  "GetMany ctx schema tenant ids db =
     (case Authorize db ctx (ObjectName schema) ''read'' of Inl e \<Rightarrow> Inl (MetaAuthz e)
      | Inr _ \<Rightarrow>
          if ids = [] then Inr []
          else traverse (scanRecord schema) (sort_key cr_id
                 (filter (\<lambda>r. cr_id r \<in> set ids) (tenant_rows schema tenant db))))"

definition List_records :: "Actor option \<Rightarrow> MetaObject \<Rightarrow> string \<Rightarrow> 'x crud_db_scheme \<Rightarrow> meta_error + Record list" where
  "List_records ctx schema tenant db =
     (case Authorize db ctx (ObjectName schema) ''read'' of Inl e \<Rightarrow> Inl (MetaAuthz e)
      | Inr _ \<Rightarrow> traverse (scanRecord schema)
                 (sort_key cr_created (filter (\<lambda>r. cr_archived r = None) (tenant_rows schema tenant db))))"

end
