(* ===== verification/CrudWrites.thy ===== *)
theory CrudWrites
  imports CrudFacts
begin

text \<open>Updates and deletions of records: what an update leaves alone, the audit trail, and tenant isolation
  over arbitrary sequences of writes.\<close>

section \<open>Update\<close>

lemma updated_row_fields [simp]:
  "cr_id (updated_row now cols blob r) = cr_id r" "cr_tenant (updated_row now cols blob r) = cr_tenant r"
  "cr_table (updated_row now cols blob r) = cr_table r" "cr_archived (updated_row now cols blob r) = cr_archived r"
  "cr_created (updated_row now cols blob r) = cr_created r"
  by (simp_all add: updated_row_def)

lemma update_tx_cases:
  assumes "update_tx env now auid schema tenant actor gs rid changes t db = (r, db')"
  obtains (failed) e where "r = Inl e" "db' = db"
  | (updated) result current blob cols where "r = Inr result" "getTx schema tenant rid db = Inr (Some current)"
      "Allow (env_compiles env) (env_eval env) gs current"
      "update_blob schema current changes t = Some blob"
      "write_columns env changes (touched changes (core_fields schema)) = Some cols"
      "\<And>ctx. ctx = Some actor \<Longrightarrow> valid_actor actor \<Longrightarrow>
         audited ctx tenant (ObjectName schema) rid ''update''
           (replace_row schema tenant rid (updated_row now cols blob) (obj_rows db)) db db'"
proof (cases r)
  case (Inl e)
  with assms show ?thesis
    by (intro failed [of e]) (auto simp: update_tx_def Let_def split: option.splits if_splits sum.splits prod.splits)
next
  case (Inr res)
  with assms obtain current blob cols diff u db'' where
    s: "getTx schema tenant rid db = Inr (Some current)" "Allow (env_compiles env) (env_eval env) gs current"
      "update_blob schema current changes t = Some blob"
      "write_columns env changes (touched changes (core_fields schema)) = Some cols"
      "recordAudit now auid tenant (ObjectName schema) rid ''update'' diff (UserID actor)
         (db\<lparr>obj_rows := replace_row schema tenant rid (updated_row now cols blob) (obj_rows db)\<rparr>) = (Inr u, db'')"
      "db' = db''"
    unfolding update_tx_def Let_def by (auto split: option.splits if_split_asm sum.splits prod.splits)
  show ?thesis
    by (rule updated [OF Inr s(1-4)]) (use s auditedI [OF s(5)] in auto)
qed

lemma Update_Inr:
  assumes "Update env ctx now auid schema tenant rid changes db = (Inr result, db')"
  obtains actor gs ch1 ch2 t current blob cols where
    "AuthorizeGrants db ctx (ObjectName schema) ''update'' = Inr (actor, gs)"
    "validated env schema changes True = Inr ch1" "runBefore env schema tenant ''update'' ch1 True = Inr ch2"
    "translationsFrom schema ch2 = Inr t" "getTx schema tenant rid db = Inr (Some current)"
    "Allow (env_compiles env) (env_eval env) gs current"
    "update_blob schema current ch2 t = Some blob"
    "write_columns env ch2 (touched ch2 (core_fields schema)) = Some cols"
    "audited ctx tenant (ObjectName schema) rid ''update''
       (replace_row schema tenant rid (updated_row now cols blob) (obj_rows db)) db db'"
proof -
  from assms obtain actor gs ch1 ch2 t where
    s: "AuthorizeGrants db ctx (ObjectName schema) ''update'' = Inr (actor, gs)"
    "validated env schema changes True = Inr ch1" "runBefore env schema tenant ''update'' ch1 True = Inr ch2"
    "translationsFrom schema ch2 = Inr t"
    "update_tx env now auid schema tenant actor gs rid ch2 t db = (Inr result, db')"
    by (auto simp: Update_def split: sum.splits prod.splits)
  from s(5) show ?thesis
  proof (cases rule: update_tx_cases)
    case (updated result' current blob cols)
    from that [OF s(1-4) updated(2-5) updated(6)] AuthorizeGrants_actor [OF s(1)] show ?thesis by simp
  qed simp
qed

lemma find_replace_row:
  assumes "\<And>r. cr_id (g r) = cr_id r \<and> cr_tenant (g r) = cr_tenant r \<and> cr_table (g r) = cr_table r"
  shows "find (\<lambda>r. cr_id r = rid) (filter (\<lambda>r. cr_table r = TableName (ObjectName schema) \<and> cr_tenant r = tenant)
      (replace_row schema tenant rid g rows)) =
    map_option g (find (\<lambda>r. cr_id r = rid)
      (filter (\<lambda>r. cr_table r = TableName (ObjectName schema) \<and> cr_tenant r = tenant) rows))"
  using assms by (induction rows) (auto simp: replace_row_def)

lemma scan_columns_all: "scan_columns cols fs = Some r \<Longrightarrow> f \<in> set fs \<Longrightarrow> derefFieldValue (f_type f) (rec_value cols (f_name f)) \<noteq> None"
  by (induction fs arbitrary: r) (auto split: option.splits)

lemma scanRecord_all:
  "scanRecord schema row = Inr rec \<Longrightarrow> f \<in> set (core_fields schema) \<Longrightarrow>
     derefFieldValue (f_type f) (rec_value (cr_core row) (f_name f)) \<noteq> None"
  using scan_columns_all [of "cr_core row" "core_fields schema"] by (auto simp: scanRecord_def split: option.splits)

lemma map_of_update_custom:
  assumes "distinct (map f_name (Fields schema))" "\<forall>f \<in> set (Fields schema). f_name f \<notin> system_names"
    "name \<in> f_name ` set (overlay_fields schema)"
  shows "map_of (update_custom schema current changes t) name =
    (case map_of changes name of Some v \<Rightarrow> Some v | None \<Rightarrow> map_of current name)"
proof -
  have d: "distinct (map f_name (overlay_fields schema))"
    using assms(1) by (simp add: overlay_fields_def distinct_map_filter)
  have "name \<noteq> translationsBlobKey"
    using assms(2,3) by (auto simp: overlay_fields_def system_names_def translationsBlobKey_def)
  then show ?thesis
    using assms(3) unfolding update_custom_def Let_def map_of_put_all_distinct [OF distinct_present [OF d]] map_of_present
    by (auto simp: map_of_delete_key map_of_put_list map_of_custom_fields [OF assms(1,2)] split: option.splits)
qed

text \<open>The blob of a row holds decoded JSON.\<close>

definition blob_ok :: "crud_row \<Rightarrow> bool" where
  "blob_ok row \<longleftrightarrow> json_back_map (cr_custom row) = Some (cr_custom row)"

lemma blob_ok_new: "json_back_map m = Some blob \<Longrightarrow> blob_ok (new_row schema tenant rid now cols blob)"
  by (simp add: blob_ok_def new_row_def json_back_idem(2))

lemma getTx_Some:
  assumes "getTx schema tenant rid db = Inr (Some rec)"
  obtains row where "find (\<lambda>r. cr_id r = rid) (tenant_rows schema tenant db) = Some row" "scanRecord schema row = Inr rec"
  using assms by (auto simp: getTx_def split: option.splits sum.splits)


section \<open>Sequences of writes\<close>

datatype crud_op =
    OpCreate string string Record
  | OpUpdate string string Record
  | OpSoftDelete string string

record crud_call =
  cc_ctx :: "Actor option"
  cc_now :: int
  cc_schema :: MetaObject
  cc_tenant :: string
  cc_op :: crud_op

fun op_action :: "crud_op \<Rightarrow> string" where
  "op_action (OpCreate fresh auid rec) = ''create''"
| "op_action (OpUpdate auid rid changes) = ''update''"
| "op_action (OpSoftDelete auid rid) = ''delete''"

definition ignore_result :: "('e + 'a) \<times> 's \<Rightarrow> ('e + unit) \<times> 's" where
  "ignore_result r = (case r of (Inl e, s) \<Rightarrow> (Inl e, s) | (Inr _, s) \<Rightarrow> (Inr (), s))"

definition crud_exec :: "crud_env \<Rightarrow> crud_call \<Rightarrow> ('x crud_db_scheme, meta_error, unit) tx" where
  "crud_exec env c db =
     (case cc_op c of
        OpCreate fresh auid rec \<Rightarrow>
          ignore_result (Create env (cc_ctx c) (cc_now c) fresh auid (cc_schema c) (cc_tenant c) rec db)
      | OpUpdate auid rid changes \<Rightarrow>
          ignore_result (Update env (cc_ctx c) (cc_now c) auid (cc_schema c) (cc_tenant c) rid changes db)
      | OpSoftDelete auid rid \<Rightarrow>
          SoftDelete env (cc_ctx c) (cc_now c) auid (cc_schema c) (cc_tenant c) rid db)"

lemma Create_Inl: "fst (Create env ctx now fresh auid schema tenant rec db) = Inl e \<Longrightarrow>
    snd (Create env ctx now fresh auid schema tenant rec db) = db"
proof -
  have "fst (create_tx env now auid schema tenant actor rec t rid db) = Inl e \<Longrightarrow>
      snd (create_tx env now auid schema tenant actor rec t rid db) = db" for actor rec t rid
    by (cases "create_tx env now auid schema tenant actor rec t rid db") (auto elim: create_tx_cases)
  then show "fst (Create env ctx now fresh auid schema tenant rec db) = Inl e \<Longrightarrow> ?thesis"
    by (auto simp: Create_def split: sum.splits prod.splits if_splits)
qed

lemma Update_Inl: "fst (Update env ctx now auid schema tenant rid changes db) = Inl e \<Longrightarrow>
    snd (Update env ctx now auid schema tenant rid changes db) = db"
proof -
  have "fst (update_tx env now auid schema tenant actor gs rid ch t db) = Inl e \<Longrightarrow>
      snd (update_tx env now auid schema tenant actor gs rid ch t db) = db" for actor gs ch t
    by (cases "update_tx env now auid schema tenant actor gs rid ch t db") (auto elim: update_tx_cases)
  then show "fst (Update env ctx now auid schema tenant rid changes db) = Inl e \<Longrightarrow> ?thesis"
    by (auto simp: Update_def split: sum.splits prod.splits)
qed

lemma SoftDelete_Inl: "fst (SoftDelete env ctx now auid schema tenant rid db) = Inl e \<Longrightarrow>
    snd (SoftDelete env ctx now auid schema tenant rid db) = db"
  by (auto simp: SoftDelete_def split: sum.splits prod.splits option.splits if_splits)

lemma SoftDelete_Inr:
  assumes "SoftDelete env ctx now auid schema tenant rid db = (Inr u, db')"
  obtains actor gs where "AuthorizeGrants db ctx (ObjectName schema) ''delete'' = Inr (actor, gs)"
    "audited ctx tenant (ObjectName schema) rid ''delete''
       (replace_row schema tenant rid (\<lambda>r. r\<lparr>cr_archived := Some now, cr_updated := now\<rparr>) (obj_rows db)) db db'"
proof -
  from assms obtain actor gs changes where
    s: "AuthorizeGrants db ctx (ObjectName schema) ''delete'' = Inr (actor, gs)"
      "recordAudit now auid tenant (ObjectName schema) rid ''delete'' changes (UserID actor)
       (db\<lparr>obj_rows := replace_row schema tenant rid (\<lambda>r. r\<lparr>cr_archived := Some now, cr_updated := now\<rparr>) (obj_rows db)\<rparr>) = (Inr u, db')"
    by (auto simp: SoftDelete_def split: sum.splits prod.splits option.splits if_splits)
  from AuthorizeGrants_actor [OF s(1)] show ?thesis by (intro that [OF s(1)] auditedI [OF s(2)]) auto
qed

text \<open>What one call does to the rows.\<close>

definition rows_step :: "crud_call \<Rightarrow> string \<Rightarrow> crud_row list \<Rightarrow> crud_row list \<Rightarrow> bool" where
  "rows_step c rid rows rows' \<longleftrightarrow>
     (\<exists>row. cr_table row = TableName (ObjectName (cc_schema c)) \<and> cr_tenant row = cc_tenant c \<and> cr_id row = rid \<and> rows' = rows @ [row]) \<or>
     (\<exists>g. (\<forall>r. cr_id (g r) = cr_id r \<and> cr_tenant (g r) = cr_tenant r \<and> cr_table (g r) = cr_table r) \<and>
        rows' = replace_row (cc_schema c) (cc_tenant c) rid g rows)"

lemma crud_exec_cases:
  assumes "crud_exec env c db = (r, db')"
  obtains (failed) e where "r = Inl e" "db' = db"
  | (written) actor gs rid rows where "r = Inr ()"
      "AuthorizeGrants db (cc_ctx c) (ObjectName (cc_schema c)) (op_action (cc_op c)) = Inr (actor, gs)"
      "rows_step c rid (obj_rows db) rows"
      "audited (cc_ctx c) (cc_tenant c) (ObjectName (cc_schema c)) rid (op_action (cc_op c)) rows db db'"
proof (cases r)
  case (Inl e)
  with assms have "db' = db"
    by (auto simp: crud_exec_def ignore_result_def split: crud_op.splits prod.splits sum.splits
        dest: Create_Inl Update_Inl SoftDelete_Inl)
      (metis Create_Inl Update_Inl SoftDelete_Inl fst_conv snd_conv)+
  with Inl show ?thesis by (rule failed)
next
  case (Inr u)
  show ?thesis
  proof (cases "cc_op c")
    case (OpCreate fresh auid rec)
    with assms Inr obtain res where "Create env (cc_ctx c) (cc_now c) fresh auid (cc_schema c) (cc_tenant c) rec db = (Inr res, db')"
      by (auto simp: crud_exec_def ignore_result_def split: prod.splits sum.splits)
    then show ?thesis
      by (elim Create_Inr) (rule written, use Inr OpCreate in \<open>auto simp: rows_step_def new_row_def\<close>)
  next
    case (OpUpdate auid rid changes)
    with assms Inr obtain res where "Update env (cc_ctx c) (cc_now c) auid (cc_schema c) (cc_tenant c) rid changes db = (Inr res, db')"
      by (auto simp: crud_exec_def ignore_result_def split: prod.splits sum.splits)
    then show ?thesis
    proof (rule Update_Inr)
      fix actor gs ch1 ch2 t current blob cols
      assume a: "AuthorizeGrants db (cc_ctx c) (ObjectName (cc_schema c)) ''update'' = Inr (actor, gs)"
        and w: "audited (cc_ctx c) (cc_tenant c) (ObjectName (cc_schema c)) rid ''update''
          (replace_row (cc_schema c) (cc_tenant c) rid (updated_row (cc_now c) cols blob) (obj_rows db)) db db'"
      have "rows_step c rid (obj_rows db) (replace_row (cc_schema c) (cc_tenant c) rid (updated_row (cc_now c) cols blob) (obj_rows db))"
        unfolding rows_step_def by (intro disjI2 exI [of _ "updated_row (cc_now c) cols blob"]) simp
      from written [OF _ _ this] a w Inr OpUpdate show ?thesis by simp
    qed
  next
    case (OpSoftDelete auid rid)
    with assms Inr have "SoftDelete env (cc_ctx c) (cc_now c) auid (cc_schema c) (cc_tenant c) rid db = (Inr u, db')"
      by (simp add: crud_exec_def)
    then show ?thesis
    proof (rule SoftDelete_Inr)
      fix actor gs
      let ?g = "\<lambda>r :: crud_row. r\<lparr>cr_archived := Some (cc_now c), cr_updated := cc_now c\<rparr>"
      assume a: "AuthorizeGrants db (cc_ctx c) (ObjectName (cc_schema c)) ''delete'' = Inr (actor, gs)"
        and w: "audited (cc_ctx c) (cc_tenant c) (ObjectName (cc_schema c)) rid ''delete''
          (replace_row (cc_schema c) (cc_tenant c) rid ?g (obj_rows db)) db db'"
      have "rows_step c rid (obj_rows db) (replace_row (cc_schema c) (cc_tenant c) rid ?g (obj_rows db))"
        unfolding rows_step_def by (intro disjI2 exI [of _ ?g]) simp
      from written [OF _ _ this] a w Inr OpSoftDelete show ?thesis by simp
    qed
  qed
qed


definition crud_run :: "crud_env \<Rightarrow> crud_call list \<Rightarrow> 'x crud_db_scheme \<Rightarrow> 'x crud_db_scheme" where
  "crud_run env cs db = fold (\<lambda>c db. snd (crud_exec env c db)) cs db"

definition same_tenant_view :: "string \<Rightarrow> 'x crud_db_scheme \<Rightarrow> 'x crud_db_scheme \<Rightarrow> bool" where
  "same_tenant_view tenant db db' \<longleftrightarrow>
     filter (\<lambda>r. cr_tenant r = tenant) (obj_rows db') = filter (\<lambda>r. cr_tenant r = tenant) (obj_rows db) \<and>
     role_permissions db' = role_permissions db \<and> user_roles db' = user_roles db \<and> roles db' = roles db"

lemma rows_step_other:
  assumes "rows_step c rid rows rows'" "cc_tenant c \<noteq> tenant"
  shows "filter (\<lambda>r. cr_tenant r = tenant) rows' = filter (\<lambda>r. cr_tenant r = tenant) rows"
  using assms(1) unfolding rows_step_def
proof (elim disjE exE conjE)
  fix g assume g: "\<forall>r. cr_id (g r) = cr_id r \<and> cr_tenant (g r) = cr_tenant r \<and> cr_table (g r) = cr_table r"
    and r: "rows' = replace_row (cc_schema c) (cc_tenant c) rid g rows"
  show ?thesis unfolding r using g assms(2) by (induction rows) (auto simp: replace_row_def)
qed (use assms(2) in auto)

lemma crud_exec_other_tenant:
  assumes "cc_tenant c \<noteq> tenant"
  shows "same_tenant_view tenant db (snd (crud_exec env c db))"
proof (cases "crud_exec env c db")
  case (Pair r db')
  then show ?thesis
  proof (cases rule: crud_exec_cases)
    case (written actor gs rid rows)
    from written(4) have "obj_rows db' = rows" "role_permissions db' = role_permissions db" "user_roles db' = user_roles db"
      "roles db' = roles db" by (auto simp: audited_def)
    with rows_step_other [OF written(3) assms] Pair show ?thesis by (simp add: same_tenant_view_def)
  qed (simp add: Pair same_tenant_view_def)
qed

lemma crud_run_other_tenants:
  "\<forall>c \<in> set cs. cc_tenant c \<noteq> tenant \<Longrightarrow> same_tenant_view tenant db (crud_run env cs db)"
  unfolding crud_run_def
proof (induction cs arbitrary: db)
  case (Cons c cs)
  from Cons.prems crud_exec_other_tenant have "same_tenant_view tenant db (snd (crud_exec env c db))" by auto
  with Cons.IH [of "snd (crud_exec env c db)"] Cons.prems show ?case by (simp add: same_tenant_view_def)
qed (simp add: same_tenant_view_def)

lemma Authorize_same: "same_tenant_view tenant db db' \<Longrightarrow> Authorize db' ctx object action = Authorize db ctx object action"
proof -
  assume s: "same_tenant_view tenant db db'"
  have "Can db' a object action = Can db a object action" for a
    using s by (simp add: same_tenant_view_def Can_def held_def)
  then have "(\<lambda>a. Can db' a object action) = (\<lambda>a. Can db a object action)" by (simp add: fun_eq_iff)
  then show ?thesis unfolding Authorize_def by metis
qed

lemma tenant_rows_same:
  assumes "same_tenant_view tenant db db'"
  shows "tenant_rows schema tenant db' = tenant_rows schema tenant db"
proof -
  have "filter (\<lambda>r. cr_table r = T \<and> cr_tenant r = tenant) rows = filter (\<lambda>r. cr_table r = T) (filter (\<lambda>r. cr_tenant r = tenant) rows)"
    for T rows by (simp add: conj_commute)
  with assms show ?thesis unfolding tenant_rows_def same_tenant_view_def by metis
qed

text \<open>C40: tenants are isolated (INV-T1): after any sequence of creates, updates and deletes made for other
  tenants, through whatever schemas and by whatever actors, every read of a tenant's records answers as before.\<close>

theorem crud_isolated:
  assumes "\<forall>c \<in> set cs. cc_tenant c \<noteq> tenant"
  shows "Get ctx schema tenant rid (crud_run env cs db) = Get ctx schema tenant rid db \<and>
    ListPage ctx schema tenant after limit (crud_run env cs db) = ListPage ctx schema tenant after limit db \<and>
    GetMany ctx schema tenant ids (crud_run env cs db) = GetMany ctx schema tenant ids db \<and>
    List_records ctx schema tenant (crud_run env cs db) = List_records ctx schema tenant db"
proof -
  note same = crud_run_other_tenants [OF assms, of db env]
  show ?thesis
    unfolding Get_def ListPage_def GetMany_def List_records_def getTx_def tenant_rows_same [OF same] Authorize_same [OF same]
    by simp
qed

section \<open>An example\<close>

definition sample_env :: crud_env where
  "sample_env = \<lparr>env_mail = (\<lambda>_. True), env_iso = (\<lambda>_. None), env_dial = Postgres, env_v7 = (\<lambda>_. True),
     env_compiles = (\<lambda>_. True), env_eval = (\<lambda>_ _ _. None), env_drv = (\<lambda>_ _ v. Some v), env_hooks = None\<rparr>"

definition sample_actor :: Actor where
  "sample_actor = \<lparr>TenantID = ''acme'', UserID = ''ann''\<rparr>"

definition sample_crud_db :: crud_db where
  "sample_crud_db = \<lparr>roles = [\<lparr>ro_id = ''r'', ro_tenant = ''acme'', ro_name = ''clerk'', ro_core = False\<rparr>],
     role_permissions = map (\<lambda>a. \<lparr>pe_id = a, pe_tenant = ''acme'', pe_role = ''r'', pe_object = ''Invoice'', pe_action = a,
        pe_condition = None\<rparr>) [''create'', ''read'', ''update''],
     user_roles = [\<lparr>ur_tenant = ''acme'', ur_user = ''ann'', ur_role = ''r''\<rparr>],
     change_feed = [], feed_next = 1, events = [], event_next = 1, stream_snapshots = [], obj_rows = [], audit_log = []\<rparr>"

definition sample_record :: Record where
  "sample_record = [(''number'', VStr ''7''), (''state'', VStr ''open'')]"

definition sample_create :: "(meta_error + Record) \<times> crud_db" where
  "sample_create = Create sample_env (Some sample_actor) 1000 ''u1'' ''a1'' sample_object ''acme'' sample_record sample_crud_db"

lemma sample_env_ok: "env_ok sample_env"
  by (simp add: env_ok_def sample_env_def iso_canonical_def)

lemma sample_record_ok: "record_ok sample_record"
  by (auto simp: record_ok_def sample_record_def val_ok_def split: if_splits)

lemma sample_create_ok: "is_ok (fst sample_create)"
  by code_simp

lemma sample_create_run:
  obtains result db' where
    "Create sample_env (Some sample_actor) 1000 ''u1'' ''a1'' sample_object ''acme'' sample_record sample_crud_db = (Inr result, db')"
    "sample_create = (Inr result, db')"
  using sample_create_ok by (metis is_ok_iff prod.collapse sample_create_def)


lemma sample_names: "\<forall>f \<in> set (Fields sample_object). f_name f \<notin> system_names"
  by (simp add: sample_defs system_names_def)

lemma sample_driver: "driver_ok sample_env"
  by (simp add: driver_ok_def sample_env_def)

lemma sample_storable:
  "list_all (\<lambda>f. storable Postgres (f_type f) (case fst sample_create of Inl _ \<Rightarrow> VNil | Inr r \<Rightarrow> rec_value r (f_name f)))
     (core_fields sample_object)"
proof -
  have "map (\<lambda>f. case fst sample_create of Inl _ \<Rightarrow> VNil | Inr r \<Rightarrow> rec_value r (f_name f)) (core_fields sample_object) =
      [VStr ''7'', VStr ''open'']"
    "map f_type (core_fields sample_object) = [FieldText, FieldEnum]"
    by code_simp+
  then show ?thesis
    by (auto simp: core_fields_def sample_defs storable_def)
qed

lemma sample_reader: "is_ok (Authorize (snd sample_create) (Some sample_actor) ''Invoice'' ''read'')"
  by code_simp

theorem Create_Get_witness:
  "\<exists>rid got. Get (Some sample_actor) sample_object ''acme'' rid (snd sample_create) = Inr got \<and>
     map_of got ''created_at'' = Some (VTime 1000)"
proof -
  obtain result db' where c:
    "Create sample_env (Some sample_actor) 1000 ''u1'' ''a1'' sample_object ''acme'' sample_record sample_crud_db = (Inr result, db')"
    "sample_create = (Inr result, db')" by (rule sample_create_run)
  have st: "\<forall>f \<in> set (core_fields sample_object). storable (env_dial sample_env) (f_type f) (rec_value result (f_name f))"
    using sample_storable unfolding c(2) list_all_iff by (simp add: sample_env_def)
  obtain reader where r: "Authorize db' (Some sample_actor) (ObjectName sample_object) ''read'' = Inr reader"
    using sample_reader unfolding c(2) by (auto simp: is_ok_iff sample_object_def)
  from Create_Get [OF c(1) sample_object_valid sample_names sample_driver st r] show ?thesis unfolding c(2) snd_conv by blast
qed

definition sample_update :: "(meta_error + Record) \<times> crud_db" where
  "sample_update = Update sample_env (Some sample_actor) 2000 ''a2'' sample_object ''acme'' ''u1''
     [(''state'', VStr ''closed'')] (snd sample_create)"

lemma sample_update_facts:
  "is_ok (fst sample_update)" "list_all blob_ok (obj_rows (snd sample_create))"
  "validated sample_env sample_object [(''state'', VStr ''closed'')] True = Inr [(''state'', VStr ''closed'')]"
  "is_ok (Get (Some sample_actor) sample_object ''acme'' ''u1'' (snd sample_create))"
  "is_ok (Authorize (snd sample_update) (Some sample_actor) ''Invoice'' ''read'')"
  by code_simp+


theorem crud_isolated_witness:
  "Get (Some sample_actor) sample_object ''acme'' ''u1''
     (crud_run sample_env [\<lparr>cc_ctx = Some sample_actor, cc_now = 3000, cc_schema = sample_object, cc_tenant = ''globex'',
        cc_op = OpSoftDelete ''a3'' ''u1''\<rparr>] (snd sample_create)) =
   Get (Some sample_actor) sample_object ''acme'' ''u1'' (snd sample_create)"
  by (rule crud_isolated [THEN conjunct1]) simp

end
