(* ===== verification/Ledger.thy ===== *)
theory Ledger
  imports CrudWrites
begin

text \<open>
  \<open>modules/ledger\<close>: the chart of accounts (\<open>accounts.go\<close>), fiscal periods (\<open>periods.go\<close>), the schemas
  (\<open>schema.go\<close>) and the posting of journal entries (\<open>post.go\<close>). Accounts and periods are records of the
  metadata engine; an entry is one event. On Postgres the write is the database function
  \<open>ledger_post_entry\<close> (migration 0029), on SQLite the event store's \<open>Emit\<close>. Entry ids and the clock are
  arguments.
\<close>

record Line =
  ln_AccountID :: string
  ln_Debit :: int
  ln_Credit :: int

record PostCmd =
  pc_Period :: string
  pc_Currency :: string
  pc_Memo :: string
  pc_Lines :: "Line list"
  pc_CommandID :: string

record Entry =
  en_ID :: string
  en_Period :: string
  en_Currency :: string
  en_Memo :: string
  en_Reverses :: string
  en_Lines :: "Line list"
  en_Event :: Event

datatype ledger_error =
    ErrLedgerCommand
  | ErrLedgerPeriod
  | LedgerMoney money_error
  | ErrTooFewLines
  | ErrLineAccount
  | ErrNegativeAmount
  | ErrLineNotXOR
  | ErrUnbalanced
  | ErrEntryNotFound
  | ErrEntryDecode
  | ErrPeriodNotFound string
  | ErrClosedPeriod string
  | ErrPeriodNotOpen
  | ErrPeriodNotClosed
  | ErrInvalidAccountType string
  | ErrAccountNotFound string
  | ErrLedgerDatabase
  | LedgerMeta meta_error
  | LedgerEvent event_error
  | LedgerAuthz authz_error

section \<open>Schemas\<close>

definition base_field :: "string \<Rightarrow> FieldType \<Rightarrow> bool \<Rightarrow> Field" where
  "base_field name t required = \<lparr>f_name = name, f_type = t, f_required = required, f_target = '''', f_index = False,
     f_options = [], f_order = 0, f_group = '''', f_widget = '''', f_localized = False, f_from_overlay = False\<rparr>"

definition account_schema :: MetaObject where
  "account_schema = \<lparr>ObjectName = ''Account'', Module = ''ledger'', Persistence = PersistenceCRUD,
     Fields = [
       (base_field ''code'' FieldText True)\<lparr>f_index := True\<rparr>,
       (base_field ''name'' FieldText True)\<lparr>f_localized := True\<rparr>,
       (base_field ''type'' FieldEnum True)\<lparr>f_options := [''asset'', ''liability'', ''equity'', ''income'', ''expense'']\<rparr>,
       (base_field ''parent'' FieldLink False)\<lparr>f_target := ''Account''\<rparr>,
       base_field ''currency'' FieldCurrency False],
     Permissions = [(''read'', [''ledger.viewer'']), (''create'', [''ledger.admin'']), (''update'', [''ledger.admin'']),
       (''delete'', [''ledger.admin''])]\<rparr>"

definition period_schema :: MetaObject where
  "period_schema = \<lparr>ObjectName = ''Period'', Module = ''ledger'', Persistence = PersistenceCRUD,
     Fields = [
       (base_field ''code'' FieldText True)\<lparr>f_index := True\<rparr>,
       base_field ''start_date'' FieldText True,
       base_field ''end_date'' FieldText True,
       (base_field ''status'' FieldEnum True)\<lparr>f_options := [''open'', ''closed'']\<rparr>],
     Permissions = [(''read'', [''ledger.viewer'']), (''create'', [''ledger.admin'']), (''update'', [''ledger.admin'']),
       (''delete'', [''ledger.admin''])]\<rparr>"

definition journal_schema :: MetaObject where
  "journal_schema = \<lparr>ObjectName = ''JournalEntry'', Module = ''ledger'', Persistence = PersistenceEventSourced,
     Fields = [
       base_field ''period'' FieldText True,
       base_field ''currency'' FieldCurrency True,
       base_field ''memo'' FieldText False,
       base_field ''reverses_entry_id'' FieldText False,
       (base_field ''lines'' FieldTable False)\<lparr>f_target := ''JournalLine''\<rparr>],
     Permissions = [(''read'', [''ledger.viewer'']), (''post'', [''ledger.poster'']), (''reverse'', [''ledger.poster''])]\<rparr>"

definition accountCRUD :: "meta_error + MetaObject" where
  "accountCRUD = (case Merge account_schema [] of Inl e \<Rightarrow> Inl e | Inr eff \<Rightarrow> NewCRUD eff)"

definition periodCRUD :: "meta_error + MetaObject" where
  "periodCRUD = (case Merge period_schema [] of Inl e \<Rightarrow> Inl e | Inr eff \<Rightarrow> NewCRUD eff)"

lemma ledger_schemas_valid:
  "validate_object account_schema = Inr ()" "validate_object period_schema = Inr ()" "validate_object journal_schema = Inr ()"
  by code_simp+

lemma accountCRUD_eq: "accountCRUD = Inr account_schema"
proof -
  have "Persistence account_schema = PersistenceCRUD" by (simp add: account_schema_def)
  then show ?thesis by (simp add: accountCRUD_def Merge_def ledger_schemas_valid NewCRUD_def)
qed

lemma periodCRUD_eq: "periodCRUD = Inr period_schema"
proof -
  have "Persistence period_schema = PersistenceCRUD" by (simp add: period_schema_def)
  then show ?thesis by (simp add: periodCRUD_def Merge_def ledger_schemas_valid NewCRUD_def)
qed

section \<open>Accounts\<close>

definition validAccountTypes :: "string list" where
  "validAccountTypes = [''asset'', ''liability'', ''equity'', ''income'', ''expense'']"

definition meta_result :: "(meta_error + 'a) \<times> 's \<Rightarrow> (ledger_error + 'a) \<times> 's" where
  "meta_result r = (case r of (Inl e, s) \<Rightarrow> (Inl (LedgerMeta e), s) | (Inr x, s) \<Rightarrow> (Inr x, s))"

definition CreateAccount ::
  "crud_env \<Rightarrow> Actor option \<Rightarrow> int \<Rightarrow> string \<Rightarrow> string \<Rightarrow> string \<Rightarrow> string \<Rightarrow> string \<Rightarrow> string \<Rightarrow> string \<Rightarrow> string \<Rightarrow>
     ('x crud_db_scheme, ledger_error, Record) tx" where
  "CreateAccount env ctx now fresh auid tenant code name accountType parent cur db =
     (if accountType \<notin> set validAccountTypes then (Inl (ErrInvalidAccountType accountType), db)
      else
     (case accountCRUD of Inl e \<Rightarrow> (Inl (LedgerMeta e), db)
      | Inr crud \<Rightarrow>
          let rec = [(''code'', VStr code), (''name'', VStr name), (''type'', VStr accountType)]
                @ (if parent \<noteq> '''' then [(''parent'', VStr parent)] else [])
                @ (if cur \<noteq> '''' then [(''currency'', VStr cur)] else [])
          in meta_result (Create env ctx now fresh auid crud tenant rec db)))"

definition accountActive :: "'x crud_db_scheme \<Rightarrow> string \<Rightarrow> string \<Rightarrow> bool" where
  "accountActive db tenant rid \<longleftrightarrow>
     0 < length (filter (\<lambda>r. cr_table r = TableName ''Account'' \<and> cr_tenant r = tenant \<and> cr_id r = rid \<and> cr_archived r = None)
           (obj_rows db))"

section \<open>Periods\<close>

definition PeriodOpen :: string where "PeriodOpen = ''open''"

definition PeriodClosed :: string where "PeriodClosed = ''closed''"

definition CreatePeriod ::
  "crud_env \<Rightarrow> Actor option \<Rightarrow> int \<Rightarrow> string \<Rightarrow> string \<Rightarrow> string \<Rightarrow> string \<Rightarrow> string \<Rightarrow> string \<Rightarrow>
     ('x crud_db_scheme, ledger_error, Record) tx" where
  "CreatePeriod env ctx now fresh auid tenant code startDate endDate db =
     (case periodCRUD of Inl e \<Rightarrow> (Inl (LedgerMeta e), db)
      | Inr crud \<Rightarrow>
          meta_result (Create env ctx now fresh auid crud tenant
            [(''code'', VStr code), (''start_date'', VStr startDate), (''end_date'', VStr endDate), (''status'', VStr PeriodOpen)] db))"

definition asString :: "val option \<Rightarrow> string" where
  "asString v = (case v of Some (VStr s) \<Rightarrow> s | _ \<Rightarrow> '''')"

definition transitionStatus ::
  "crud_env \<Rightarrow> Actor option \<Rightarrow> int \<Rightarrow> string \<Rightarrow> string \<Rightarrow> string \<Rightarrow> string \<Rightarrow> string \<Rightarrow> ledger_error \<Rightarrow>
     ('x crud_db_scheme, ledger_error, unit) tx" where
  "transitionStatus env ctx now auid tenant rid from to wrongState db =
     (case periodCRUD of Inl e \<Rightarrow> (Inl (LedgerMeta e), db)
      | Inr crud \<Rightarrow>
     (case Get ctx crud tenant rid db of Inl e \<Rightarrow> (Inl (LedgerMeta e), db)
      | Inr current \<Rightarrow>
          if asString (map_of current ''status'') \<noteq> from then (Inl wrongState, db)
          else ignore_result (meta_result (Update env ctx now auid crud tenant rid [(''status'', VStr to)] db))))"

definition ClosePeriod ::
  "crud_env \<Rightarrow> Actor option \<Rightarrow> int \<Rightarrow> string \<Rightarrow> string \<Rightarrow> string \<Rightarrow> ('x crud_db_scheme, ledger_error, unit) tx" where
  "ClosePeriod env ctx now auid tenant rid = transitionStatus env ctx now auid tenant rid PeriodOpen PeriodClosed ErrPeriodNotOpen"

definition ReopenPeriod ::
  "crud_env \<Rightarrow> Actor option \<Rightarrow> int \<Rightarrow> string \<Rightarrow> string \<Rightarrow> string \<Rightarrow> ('x crud_db_scheme, ledger_error, unit) tx" where
  "ReopenPeriod env ctx now auid tenant rid = transitionStatus env ctx now auid tenant rid PeriodClosed PeriodOpen ErrPeriodNotClosed"

definition GetPeriod :: "Actor option \<Rightarrow> string \<Rightarrow> string \<Rightarrow> 'x crud_db_scheme \<Rightarrow> meta_error + Record" where
  "GetPeriod ctx tenant rid db = (case periodCRUD of Inl e \<Rightarrow> Inl e | Inr crud \<Rightarrow> Get ctx crud tenant rid db)"

text \<open>The row the statement on \<open>obj_period\<close> returns; nothing makes codes unique, and which of several rows of
  a code comes first is up to the database (the model takes the oldest).\<close>

definition period_row :: "'x crud_db_scheme \<Rightarrow> string \<Rightarrow> string \<Rightarrow> crud_row option" where
  "period_row db tenant code =
     List.find (\<lambda>r. cr_table r = TableName ''Period'' \<and> cr_tenant r = tenant \<and>
         rec_value (cr_core r) ''code'' = VStr code \<and> cr_archived r = None) (obj_rows db)"

definition periodStatusByCode :: "'x crud_db_scheme \<Rightarrow> string \<Rightarrow> string \<Rightarrow> ledger_error + string" where
  "periodStatusByCode db tenant code =
     (case period_row db tenant code of None \<Rightarrow> Inl (ErrPeriodNotFound code)
      | Some row \<Rightarrow> (case rec_value (cr_core row) ''status'' of VStr s \<Rightarrow> Inr s | _ \<Rightarrow> Inl ErrLedgerDatabase))"

record Period =
  pd_ID :: string
  pd_Code :: string
  pd_StartDate :: string
  pd_EndDate :: string
  pd_Status :: string

definition ListPeriods :: "Actor option \<Rightarrow> string \<Rightarrow> 'x crud_db_scheme \<Rightarrow> meta_error + Period list" where
  "ListPeriods ctx tenant db =
     (case periodCRUD of Inl e \<Rightarrow> Inl e
      | Inr crud \<Rightarrow>
     (case List_records ctx crud tenant db of Inl e \<Rightarrow> Inl e
      | Inr records \<Rightarrow>
          Inr (sort_key pd_StartDate (sort_key pd_Code
            (map (\<lambda>rec. \<lparr>pd_ID = asString (map_of rec ''id''), pd_Code = asString (map_of rec ''code''),
               pd_StartDate = asString (map_of rec ''start_date''), pd_EndDate = asString (map_of rec ''end_date''),
               pd_Status = asString (map_of rec ''status'')\<rparr>) records)))))"

section \<open>Payloads\<close>

definition line_json :: "Line \<Rightarrow> json" where
  "line_json l = JObj [(''account_id'', JStr (ln_AccountID l)), (''debit'', JInt (ln_Debit l)), (''credit'', JInt (ln_Credit l))]"

definition entry_json :: "PostCmd \<Rightarrow> string \<Rightarrow> json" where
  "entry_json cmd reverses =
     JObj ([(''period'', JStr (pc_Period cmd)), (''currency'', JStr (pc_Currency cmd))]
       @ (if pc_Memo cmd = '''' then [] else [(''memo'', JStr (pc_Memo cmd))])
       @ (if reverses = '''' then [] else [(''reverses_entry_id'', JStr reverses)])
       @ [(''lines'', JArr (map line_json (pc_Lines cmd)))])"

record entryPayload =
  ep_Period :: string
  ep_Currency :: string
  ep_Memo :: string
  ep_Reverses :: string
  ep_Lines :: "Line list"

text \<open>\<open>json.Unmarshal\<close> of a string, a 64-bit integer and a list: an absent or null member leaves the zero
  value, a member of another kind is an error.\<close>

definition dec_str :: "json option \<Rightarrow> string option" where
  "dec_str j = (case j of None \<Rightarrow> Some '''' | Some JNull \<Rightarrow> Some '''' | Some (JStr s) \<Rightarrow> Some s | _ \<Rightarrow> None)"

definition dec_int :: "json option \<Rightarrow> int option" where
  "dec_int j = (case j of None \<Rightarrow> Some 0 | Some JNull \<Rightarrow> Some 0 | Some (JInt n) \<Rightarrow> if int64 n then Some n else None | _ \<Rightarrow> None)"

definition dec_arr :: "json option \<Rightarrow> json list option" where
  "dec_arr j = (case j of None \<Rightarrow> Some [] | Some JNull \<Rightarrow> Some [] | Some (JArr js) \<Rightarrow> Some js | _ \<Rightarrow> None)"

definition dec_line :: "json \<Rightarrow> Line option" where
  "dec_line j =
     (case j of
        JObj _ \<Rightarrow>
          (case (dec_str (jfield ''account_id'' j), dec_int (jfield ''debit'' j), dec_int (jfield ''credit'' j)) of
             (Some a, Some d, Some c) \<Rightarrow> Some \<lparr>ln_AccountID = a, ln_Debit = d, ln_Credit = c\<rparr>
           | _ \<Rightarrow> None)
      | JNull \<Rightarrow> Some \<lparr>ln_AccountID = '''', ln_Debit = 0, ln_Credit = 0\<rparr>
      | _ \<Rightarrow> None)"

fun dec_lines :: "json list \<Rightarrow> Line list option" where
  "dec_lines [] = Some []"
| "dec_lines (j # js) =
     (case dec_line j of None \<Rightarrow> None
      | Some l \<Rightarrow> (case dec_lines js of None \<Rightarrow> None | Some ls \<Rightarrow> Some (l # ls)))"

definition dec_entry :: "json \<Rightarrow> entryPayload option" where
  "dec_entry j =
     (case j of
        JObj _ \<Rightarrow>
          (case (dec_str (jfield ''period'' j), dec_str (jfield ''currency'' j), dec_str (jfield ''memo'' j),
                 dec_str (jfield ''reverses_entry_id'' j), Option.bind (dec_arr (jfield ''lines'' j)) dec_lines) of
             (Some p, Some c, Some m, Some r, Some ls) \<Rightarrow>
               Some \<lparr>ep_Period = p, ep_Currency = c, ep_Memo = m, ep_Reverses = r, ep_Lines = ls\<rparr>
           | _ \<Rightarrow> None)
      | JNull \<Rightarrow> Some \<lparr>ep_Period = '''', ep_Currency = '''', ep_Memo = '''', ep_Reverses = '''', ep_Lines = []\<rparr>
      | _ \<Rightarrow> None)"

section \<open>Posting\<close>

definition EventPosted :: string where
  "EventPosted = ''ledger.entry.posted''"

definition debits :: "Line list \<Rightarrow> int" where
  "debits ls = sum_list (map ln_Debit ls)"

definition credits :: "Line list \<Rightarrow> int" where
  "credits ls = sum_list (map ln_Credit ls)"

fun validate_lines :: "Line list \<Rightarrow> int \<Rightarrow> int \<Rightarrow> ledger_error + int \<times> int" where
  "validate_lines [] d c = Inr (d, c)"
| "validate_lines (l # ls) d c =
     (if ln_AccountID l = '''' then Inl ErrLineAccount
      else if ln_Debit l < 0 \<or> ln_Credit l < 0 then Inl ErrNegativeAmount
      else if (ln_Debit l = 0) = (ln_Credit l = 0) then Inl ErrLineNotXOR
      else validate_lines ls (i64 (d + ln_Debit l)) (i64 (c + ln_Credit l)))"

definition validateEntry :: "iso_table \<Rightarrow> PostCmd \<Rightarrow> ledger_error + unit" where
  "validateEntry iso4217 cmd =
     (if pc_CommandID cmd = '''' then Inl ErrLedgerCommand
      else if pc_Period cmd = '''' then Inl ErrLedgerPeriod
      else
     (case Lookup iso4217 (pc_Currency cmd) of Inl e \<Rightarrow> Inl (LedgerMoney e)
      | Inr _ \<Rightarrow>
          if length (pc_Lines cmd) < 2 then Inl ErrTooFewLines
          else (case validate_lines (pc_Lines cmd) 0 0 of Inl e \<Rightarrow> Inl e
                | Inr (d, c) \<Rightarrow> if d \<noteq> c then Inl ErrUnbalanced else Inr ())))"

definition validateRefs :: "'x crud_db_scheme \<Rightarrow> string \<Rightarrow> PostCmd \<Rightarrow> ledger_error + unit" where
  "validateRefs db tenant cmd =
     (case periodStatusByCode db tenant (pc_Period cmd) of Inl e \<Rightarrow> Inl e
      | Inr status \<Rightarrow>
          if status \<noteq> PeriodOpen then Inl (ErrClosedPeriod (pc_Period cmd))
          else (case List.find (\<lambda>l. \<not> accountActive db tenant (ln_AccountID l)) (pc_Lines cmd) of
                  Some l \<Rightarrow> Inl (ErrAccountNotFound (ln_AccountID l)) | None \<Rightarrow> Inr ()))"

text \<open>The database function. It sums the lines of the payload exactly and refuses a sum outside \<open>bigint\<close>; it
  writes no change feed entry. What it raises is a database error.\<close>

definition payload_sum :: "string \<Rightarrow> json \<Rightarrow> int" where
  "payload_sum side payload = sum_list (map (\<lambda>l. jint (jfield side l)) (jarr (jfield ''lines'' payload)))"

definition ledger_post_entry ::
  "int \<Rightarrow> string \<Rightarrow> string \<Rightarrow> string \<Rightarrow> json \<Rightarrow> string \<Rightarrow> string \<Rightarrow> int \<Rightarrow> ('x crud_db_scheme, ledger_error, int \<times> string) tx" where
  "ledger_post_entry now tenant stream period payload actor command occurredAt db =
     (if tenant = '''' then (Inl ErrLedgerDatabase, db)
      else
     (case scanByCommandID tenant command db of Some x \<Rightarrow> (Inr (ev_id x, ev_stream x), db)
      | None \<Rightarrow>
          let d = payload_sum ''debit'' payload; c = payload_sum ''credit'' payload
          in if \<not> int64 d \<or> \<not> int64 c \<or> d \<noteq> c then (Inl ErrLedgerDatabase, db)
             else
            (case periodStatusByCode db tenant period of
               Inl _ \<Rightarrow> (Inl ErrLedgerDatabase, db)
             | Inr status \<Rightarrow>
                 if status \<noteq> ''open'' then (Inl ErrLedgerDatabase, db)
                 else
                   let e = \<lparr>ev_id = event_next db, ev_tenant = tenant, ev_stream = stream, ev_version = 1,
                             ev_type = ''ledger.entry.posted'', ev_schema_version = 1, ev_payload = payload,
                             ev_actor = actor, ev_command = command, ev_occurred_at = occurredAt, ev_recorded_at = now\<rparr>
                   in (case insert_event e db of None \<Rightarrow> (Inl ErrLedgerDatabase, db)
                       | Some db' \<Rightarrow> (Inr (ev_id e, stream), db')))))"

definition postEntryPG ::
  "int \<Rightarrow> string \<Rightarrow> string \<Rightarrow> json \<Rightarrow> string \<Rightarrow> string \<Rightarrow> string \<Rightarrow> int \<Rightarrow> ('x crud_db_scheme, ledger_error, Event) tx" where
  "postEntryPG now tenant stream payload period actor command occurredAt db =
     (case ledger_post_entry now tenant stream period payload actor command occurredAt db of
        (Inl e, _) \<Rightarrow> (Inl e, db)
      | (Inr (i, outStream), db') \<Rightarrow>
          (Inr \<lparr>ev_id = i, ev_tenant = tenant, ev_stream = outStream, ev_version = 1, ev_type = EventPosted,
             ev_schema_version = 1, ev_payload = payload, ev_actor = actor, ev_command = command,
             ev_occurred_at = occurredAt, ev_recorded_at = zero_time\<rparr>, db'))"

definition post_write ::
  "crud_env \<Rightarrow> Actor option \<Rightarrow> int \<Rightarrow> string \<Rightarrow> string \<Rightarrow> PostCmd \<Rightarrow> string \<Rightarrow> json \<Rightarrow> ('x crud_db_scheme, ledger_error, Event) tx" where
  "post_write env ctx now fresh tenant cmd action payload db =
     (if env_dial env = Postgres then
        (case Authorize db ctx ''JournalEntry'' action of Inl e \<Rightarrow> (Inl (LedgerAuthz e), db)
         | Inr actor \<Rightarrow> postEntryPG now tenant fresh payload (pc_Period cmd) (UserID actor) (pc_CommandID cmd) now db)
      else
        (case Emit now ctx ''JournalEntry'' tenant action fresh 0 (pc_CommandID cmd)
                \<lparr>ne_type = EventPosted, ne_schema_version = 1, ne_payload = payload, ne_actor = '''', ne_occurred_at = now\<rparr> db of
           (Inl e, _) \<Rightarrow> (Inl (LedgerEvent e), db)
         | (Inr ev, db') \<Rightarrow> (Inr ev, db')))"

definition post ::
  "crud_env \<Rightarrow> Actor option \<Rightarrow> int \<Rightarrow> string \<Rightarrow> string \<Rightarrow> PostCmd \<Rightarrow> string \<Rightarrow> string \<Rightarrow> ('x crud_db_scheme, ledger_error, Entry) tx" where
  "post env ctx now fresh tenant cmd action reverses db =
     (case validateEntry (env_iso env) cmd of Inl e \<Rightarrow> (Inl e, db)
      | Inr _ \<Rightarrow>
     (case validateRefs db tenant cmd of Inl e \<Rightarrow> (Inl e, db)
      | Inr _ \<Rightarrow>
     (case post_write env ctx now fresh tenant cmd action (entry_json cmd reverses) db of
        (Inl e, _) \<Rightarrow> (Inl e, db)
      | (Inr ev, db') \<Rightarrow>
          (Inr \<lparr>en_ID = ev_stream ev, en_Period = pc_Period cmd, en_Currency = pc_Currency cmd, en_Memo = pc_Memo cmd,
             en_Reverses = reverses, en_Lines = pc_Lines cmd, en_Event = ev\<rparr>, db'))))"

definition Post ::
  "crud_env \<Rightarrow> Actor option \<Rightarrow> int \<Rightarrow> string \<Rightarrow> string \<Rightarrow> PostCmd \<Rightarrow> ('x crud_db_scheme, ledger_error, Entry) tx" where
  "Post env ctx now fresh tenant cmd = post env ctx now fresh tenant cmd ''post'' ''''"

definition LoadEntry :: "'x crud_db_scheme \<Rightarrow> string \<Rightarrow> string \<Rightarrow> ledger_error + Entry" where
  "LoadEntry db tenant entryID =
     (case LoadStream db tenant entryID None of Inl e \<Rightarrow> Inl (LedgerEvent e)
      | Inr (_, []) \<Rightarrow> Inl ErrEntryNotFound
      | Inr (_, ev # _) \<Rightarrow>
          (case dec_entry (ev_payload ev) of None \<Rightarrow> Inl ErrEntryDecode
           | Some p \<Rightarrow> Inr \<lparr>en_ID = entryID, en_Period = ep_Period p, en_Currency = ep_Currency p, en_Memo = ep_Memo p,
               en_Reverses = ep_Reverses p, en_Lines = ep_Lines p, en_Event = ev\<rparr>))"

definition swap_line :: "Line \<Rightarrow> Line" where
  "swap_line l = \<lparr>ln_AccountID = ln_AccountID l, ln_Debit = ln_Credit l, ln_Credit = ln_Debit l\<rparr>"

definition Reverse ::
  "crud_env \<Rightarrow> Actor option \<Rightarrow> int \<Rightarrow> string \<Rightarrow> string \<Rightarrow> string \<Rightarrow> string \<Rightarrow> ('x crud_db_scheme, ledger_error, Entry) tx" where
  "Reverse env ctx now fresh tenant entryID commandID db =
     (case LoadEntry db tenant entryID of Inl e \<Rightarrow> (Inl e, db)
      | Inr orig \<Rightarrow>
          post env ctx now fresh tenant
            \<lparr>pc_Period = en_Period orig, pc_Currency = en_Currency orig, pc_Memo = ''reversal of '' @ entryID,
              pc_Lines = map swap_line (en_Lines orig), pc_CommandID = commandID\<rparr> ''reverse'' entryID db)"

end
