(* ===== verification/LedgerPosting.thy ===== *)
theory LedgerPosting
  imports Ledger
begin

text \<open>What posting guarantees: balance (INV-F1), immutability and reversal (INV-F2), open periods (INV-F3) and
  exactly-once effect (INV-E4).\<close>

section \<open>Payloads read back\<close>

definition line_ok :: "Line \<Rightarrow> bool" where
  "line_ok l \<longleftrightarrow> int64 (ln_Debit l) \<and> int64 (ln_Credit l)"

lemma dec_line_json: "line_ok l \<Longrightarrow> dec_line (line_json l) = Some l"
  by (simp add: dec_line_def line_json_def line_ok_def dec_str_def dec_int_def)

lemma dec_lines_json: "\<forall>l \<in> set ls. line_ok l \<Longrightarrow> dec_lines (map line_json ls) = Some ls"
  by (induction ls) (auto simp: dec_line_json)

lemma entry_json_fields:
  "jfield ''period'' (entry_json cmd rv) = Some (JStr (pc_Period cmd))"
  "jfield ''currency'' (entry_json cmd rv) = Some (JStr (pc_Currency cmd))"
  "jfield ''lines'' (entry_json cmd rv) = Some (JArr (map line_json (pc_Lines cmd)))"
  "dec_str (jfield ''memo'' (entry_json cmd rv)) = Some (pc_Memo cmd)"
  "dec_str (jfield ''reverses_entry_id'' (entry_json cmd rv)) = Some rv"
  by (simp_all add: entry_json_def dec_str_def)

lemma dec_entry_json:
  assumes "\<forall>l \<in> set (pc_Lines cmd). line_ok l"
  shows "dec_entry (entry_json cmd rv) = Some \<lparr>ep_Period = pc_Period cmd, ep_Currency = pc_Currency cmd,
    ep_Memo = pc_Memo cmd, ep_Reverses = rv, ep_Lines = pc_Lines cmd\<rparr>"
proof -
  have obj: "dec_entry j = (case (dec_str (jfield ''period'' j), dec_str (jfield ''currency'' j), dec_str (jfield ''memo'' j),
                 dec_str (jfield ''reverses_entry_id'' j), Option.bind (dec_arr (jfield ''lines'' j)) dec_lines) of
             (Some p, Some c, Some m, Some r, Some ls) \<Rightarrow>
               Some \<lparr>ep_Period = p, ep_Currency = c, ep_Memo = m, ep_Reverses = r, ep_Lines = ls\<rparr>
           | _ \<Rightarrow> None)" if "j = JObj kvs" for j kvs
    using that by (simp add: dec_entry_def)
  have d: "dec_str (Some (JStr s)) = Some s" "dec_arr (Some (JArr js)) = Some js" for s js
    by (simp_all add: dec_str_def dec_arr_def)
  obtain kvs where "entry_json cmd rv = JObj kvs" by (simp add: entry_json_def)
  from obj [OF this] show ?thesis
    unfolding entry_json_fields d by (simp add: dec_lines_json [OF assms])
qed

lemma payload_sum_entry:
  "payload_sum ''debit'' (entry_json cmd rv) = debits (pc_Lines cmd)"
  "payload_sum ''credit'' (entry_json cmd rv) = credits (pc_Lines cmd)"
  by (simp_all add: payload_sum_def entry_json_fields debits_def credits_def line_json_def comp_def)

section \<open>Validation\<close>

definition line_sound :: "Line \<Rightarrow> bool" where
  "line_sound l \<longleftrightarrow> ln_AccountID l \<noteq> '''' \<and> 0 \<le> ln_Debit l \<and> 0 \<le> ln_Credit l \<and> (ln_Debit l = 0) \<noteq> (ln_Credit l = 0)"

lemma line_sound_sides: "line_sound l \<Longrightarrow> 0 < ln_Debit l \<and> ln_Credit l = 0 \<or> ln_Debit l = 0 \<and> 0 < ln_Credit l"
  by (auto simp: line_sound_def)

lemma validate_lines_Inr:
  "validate_lines ls (i64 d) (i64 c) = Inr (d', c') \<longleftrightarrow>
     (\<forall>l \<in> set ls. line_sound l) \<and> d' = i64 (d + debits ls) \<and> c' = i64 (c + credits ls)"
proof (induction ls arbitrary: d c)
  case (Cons l ls)
  have "validate_lines (l # ls) (i64 d) (i64 c) = Inr (d', c') \<longleftrightarrow>
      line_sound l \<and> validate_lines ls (i64 (d + ln_Debit l)) (i64 (c + ln_Credit l)) = Inr (d', c')"
    by (auto simp: line_sound_def i64_add_left)
  with Cons.IH [of "d + ln_Debit l" "c + ln_Credit l"] show ?case
    by (auto simp: debits_def credits_def add.assoc)
qed (auto simp: debits_def credits_def)

lemma validateEntry_Inr:
  "validateEntry iso4217 cmd = Inr () \<longleftrightarrow>
     pc_CommandID cmd \<noteq> '''' \<and> pc_Period cmd \<noteq> '''' \<and> is_ok (Lookup iso4217 (pc_Currency cmd)) \<and> 2 \<le> length (pc_Lines cmd) \<and>
     (\<forall>l \<in> set (pc_Lines cmd). line_sound l) \<and> i64 (debits (pc_Lines cmd)) = i64 (credits (pc_Lines cmd))"
proof -
  have z: "validate_lines (pc_Lines cmd) 0 0 = Inr (d, c) \<longleftrightarrow> (\<forall>l \<in> set (pc_Lines cmd). line_sound l) \<and>
      d = i64 (debits (pc_Lines cmd)) \<and> c = i64 (credits (pc_Lines cmd))" for d c
    using validate_lines_Inr [of "pc_Lines cmd" 0 0 d c] by simp
  have e: "(case validate_lines (pc_Lines cmd) 0 0 of Inl e \<Rightarrow> Inl e | Inr (d, c) \<Rightarrow> if d \<noteq> c then Inl ErrUnbalanced else Inr ()) = Inr () \<longleftrightarrow>
      (\<forall>l \<in> set (pc_Lines cmd). line_sound l) \<and> i64 (debits (pc_Lines cmd)) = i64 (credits (pc_Lines cmd))"
  proof (cases "validate_lines (pc_Lines cmd) 0 0")
    case (Inl x)
    then have "\<not> (\<forall>l \<in> set (pc_Lines cmd). line_sound l)" using z by (metis Inl_Inr_False)
    with Inl show ?thesis by simp
  next
    case (Inr dc)
    obtain d c where "dc = (d, c)" by fastforce
    with Inr z [of d c] show ?thesis by auto
  qed
  show ?thesis
    unfolding validateEntry_def using e by (auto split: sum.splits)
qed

text \<open>Refusals come in the order of the checks; below that, an entry is accepted exactly when the \<open>int64\<close> sums
  agree, which is balance only as long as neither wraps: three debits without a credit pass.\<close>

lemma validateEntry_accepts_unbalanced:
  "let cmd = \<lparr>pc_Period = ''2026-01'', pc_Currency = ''EUR'', pc_Memo = '''',
      pc_Lines = [\<lparr>ln_AccountID = ''a'', ln_Debit = 9223372036854775807, ln_Credit = 0\<rparr>,
        \<lparr>ln_AccountID = ''a'', ln_Debit = 9223372036854775807, ln_Credit = 0\<rparr>,
        \<lparr>ln_AccountID = ''b'', ln_Debit = 2, ln_Credit = 0\<rparr>], pc_CommandID = ''c''\<rparr>
   in validateEntry (\<lambda>_. Some (''EUR'', 2)) cmd = Inr () \<and> credits (pc_Lines cmd) = 0 \<and> 0 < debits (pc_Lines cmd)"
  by code_simp

section \<open>The outcomes of posting\<close>

definition posted_event :: "int \<Rightarrow> string \<Rightarrow> string \<Rightarrow> string \<Rightarrow> json \<Rightarrow> Event \<Rightarrow> bool" where
  "posted_event i tenant stream command payload e \<longleftrightarrow> ev_id e = i \<and> ev_tenant e = tenant \<and> ev_stream e = stream \<and>
     ev_version e = 1 \<and> ev_type e = EventPosted \<and> ev_command e = command \<and> ev_payload e = payload"

lemma post_write_cases:
  assumes "post_write env ctx now fresh tenant cmd action payload db = (r, db')"
  obtains (failed) e where "r = Inl e" "db' = db"
  | (replayed) e x where "r = Inr e" "db' = db" "scanByCommandID tenant (pc_CommandID cmd) db = Some x" "ev_stream e = ev_stream x"
  | (posted) e e' fd where "r = Inr e" "ev_stream e = fresh"
      "posted_event (event_next db) tenant fresh (pc_CommandID cmd) payload e'" "\<not> unique_violation e' (events db)"
      "db' = db\<lparr>events := events db @ [e'], event_next := event_next db + 1, change_feed := change_feed db @ fd,
         feed_next := feed_next db + int (length fd)\<rparr>"
      "scanByCommandID tenant (pc_CommandID cmd) db = None"
      "env_dial env = Postgres \<Longrightarrow> payload_sum ''debit'' payload = payload_sum ''credit'' payload"
      "\<exists>actor. Authorize db ctx ''JournalEntry'' action = Inr actor"
proof (cases "env_dial env = Postgres")
  case pg: True
  show thesis
  proof (cases "Authorize db ctx ''JournalEntry'' action")
    case (Inl e)
    with assms pg show thesis by (intro failed) (auto simp: post_write_def)
  next
    case auth: (Inr actor)
    let ?p = "ledger_post_entry now tenant fresh (pc_Period cmd) payload (UserID actor) (pc_CommandID cmd) now db"
    have w: "(r, db') = postEntryPG now tenant fresh payload (pc_Period cmd) (UserID actor) (pc_CommandID cmd) now db"
      using assms pg auth by (simp add: post_write_def)
    show thesis
    proof (cases "scanByCommandID tenant (pc_CommandID cmd) db")
      case (Some x)
      show thesis
      proof (cases "tenant = ''''")
        case True
        with w show thesis by (intro failed) (simp_all add: postEntryPG_def ledger_post_entry_def)
      next
        case False
        let ?x = "\<lparr>ev_id = ev_id x, ev_tenant = tenant, ev_stream = ev_stream x, ev_version = 1, ev_type = EventPosted,
             ev_schema_version = 1, ev_payload = payload, ev_actor = UserID actor, ev_command = pc_CommandID cmd,
             ev_occurred_at = now, ev_recorded_at = zero_time\<rparr>"
        from w Some False have "r = Inr ?x" "db' = db" by (simp_all add: postEntryPG_def ledger_post_entry_def)
        then show thesis by (rule replayed [OF _ _ Some]) simp
      qed
    next
      case None
      let ?e = "\<lparr>ev_id = event_next db, ev_tenant = tenant, ev_stream = fresh, ev_version = 1,
                             ev_type = ''ledger.entry.posted'', ev_schema_version = 1, ev_payload = payload,
                             ev_actor = UserID actor, ev_command = pc_CommandID cmd, ev_occurred_at = now, ev_recorded_at = now\<rparr>"
      show thesis
      proof (cases "\<exists>i s db''. ?p = (Inr (i, s), db'')")
        case False
        then obtain err where "fst ?p = Inl err" by (metis prod.collapse sum.exhaust_sel prod.exhaust sum.collapse(2) sum.collapse(1))
        then have "postEntryPG now tenant fresh payload (pc_Period cmd) (UserID actor) (pc_CommandID cmd) now db = (Inl err, db)"
          by (cases ?p) (simp add: postEntryPG_def)
        with w show thesis by (intro failed) simp_all
      next
        case True
        then obtain i s db'' where p: "?p = (Inr (i, s), db'')" by blast
        then have ok: "payload_sum ''debit'' payload = payload_sum ''credit'' payload" "insert_event ?e db = Some db''"
            "s = fresh"
          using None by (auto simp: ledger_post_entry_def Let_def split: if_splits sum.splits option.splits)
        then have ins: "\<not> unique_violation ?e (events db)" "db'' = db\<lparr>events := events db @ [?e], event_next := event_next db + 1\<rparr>"
          by (simp_all add: insert_event_Some)
        have res: "r = Inr \<lparr>ev_id = i, ev_tenant = tenant, ev_stream = s, ev_version = 1, ev_type = EventPosted,
             ev_schema_version = 1, ev_payload = payload, ev_actor = UserID actor, ev_command = pc_CommandID cmd,
             ev_occurred_at = now, ev_recorded_at = zero_time\<rparr>" "db' = db''"
          using w p by (simp_all add: postEntryPG_def)
        show thesis
          by (rule posted [OF res(1), where e' = ?e and fd = "[]"]) (use res ok ins None auth in \<open>simp_all add: posted_event_def EventPosted_def\<close>)
      qed
    qed
  qed
next
  case False
  let ?ne = "\<lparr>ne_type = EventPosted, ne_schema_version = 1, ne_payload = payload, ne_actor = '''', ne_occurred_at = now\<rparr>"
  show thesis
  proof (cases "Authorize db ctx ''JournalEntry'' action")
    case (Inl e)
    with assms False show thesis by (intro failed) (auto simp: post_write_def Emit_def)
  next
    case auth: (Inr actor)
    let ?ev = "?ne\<lparr>ne_actor := UserID actor\<rparr>"
    have w: "post_write env ctx now fresh tenant cmd action payload db =
        (case Append now tenant fresh 0 (pc_CommandID cmd) ?ev db of
           (Inl e, _) \<Rightarrow> (Inl (LedgerEvent e), db) | (Inr ev, db') \<Rightarrow> (Inr ev, db'))"
      using False auth by (simp add: post_write_def Emit_def)
    show thesis
    proof (cases rule: Append_cases [of now tenant fresh 0 "pc_CommandID cmd" ?ev db])
      case (failed err)
      with w assms show thesis by (intro that(1)) simp_all
    next
      case (replayed e)
      with w assms show thesis by (intro that(2) [of e e]) simp_all
    next
      case (appended e)
      with w assms have res: "r = Inr e" "db' = db\<lparr>events := events db @ [e], event_next := event_next db + 1,
        change_feed := change_feed db @ [change_of (feed_next db) (event_entry e)], feed_next := feed_next db + 1\<rparr>" by simp_all
      show thesis
        by (rule posted [OF res(1), where e' = e and fd = "[change_of (feed_next db) (event_entry e)]"])
          (use res appended auth False in \<open>simp_all add: posted_event_def new_event_def int64_def\<close>)
    qed
  qed
qed

definition entry_of :: "PostCmd \<Rightarrow> string \<Rightarrow> Event \<Rightarrow> Entry" where
  "entry_of cmd reverses ev = \<lparr>en_ID = ev_stream ev, en_Period = pc_Period cmd, en_Currency = pc_Currency cmd,
     en_Memo = pc_Memo cmd, en_Reverses = reverses, en_Lines = pc_Lines cmd, en_Event = ev\<rparr>"

lemma post_cases:
  assumes "post env ctx now fresh tenant cmd action rv db = (r, db')"
  obtains (failed) e where "r = Inl e" "db' = db"
  | (replayed) ev x where "r = Inr (entry_of cmd rv ev)" "db' = db" "scanByCommandID tenant (pc_CommandID cmd) db = Some x"
      "ev_stream ev = ev_stream x"
  | (posted) ev e fd where "r = Inr (entry_of cmd rv ev)" "ev_stream ev = fresh"
      "posted_event (event_next db) tenant fresh (pc_CommandID cmd) (entry_json cmd rv) e" "\<not> unique_violation e (events db)"
      "db' = db\<lparr>events := events db @ [e], event_next := event_next db + 1, change_feed := change_feed db @ fd,
         feed_next := feed_next db + int (length fd)\<rparr>"
      "scanByCommandID tenant (pc_CommandID cmd) db = None" "validateEntry (env_iso env) cmd = Inr ()"
      "validateRefs db tenant cmd = Inr ()"
      "env_dial env = Postgres \<Longrightarrow> debits (pc_Lines cmd) = credits (pc_Lines cmd)"
      "\<exists>actor. Authorize db ctx ''JournalEntry'' action = Inr actor"
proof (cases "validateEntry (env_iso env) cmd = Inr () \<and> validateRefs db tenant cmd = Inr ()")
  case False
  then have "\<exists>e. post env ctx now fresh tenant cmd action rv db = (Inl e, db)"
    by (auto simp: post_def split: sum.splits)
  then obtain e where "post env ctx now fresh tenant cmd action rv db = (Inl e, db)" by blast
  with assms show thesis by (intro failed [of e]) simp_all
next
  case True
  let ?w = "post_write env ctx now fresh tenant cmd action (entry_json cmd rv) db"
  obtain wr wdb where w: "?w = (wr, wdb)" by fastforce
  from w show thesis
  proof (cases rule: post_write_cases)
    case (failed e)
    with assms True w show thesis by (intro that(1) [of e]) (simp_all add: post_def)
  next
    case (replayed e x)
    with assms True w show thesis by (intro that(2) [OF _ _ replayed(3,4)]) (simp_all add: post_def entry_of_def)
  next
    case (posted e e' fd)
    have res: "r = Inr (entry_of cmd rv e)" "db' = wdb" using assms True w posted(1) by (simp_all add: post_def entry_of_def)
    show thesis
      by (rule that(3) [OF res(1) posted(2-4)]) (use res True posted payload_sum_entry [of cmd rv] in simp_all)
  qed
qed

section \<open>Exactly once\<close>

type_synonym post_args = "crud_env \<times> Actor option \<times> int \<times> string \<times> PostCmd \<times> string \<times> string"

text \<open>A posting reduced to the entry id it answers with; tenant and command id identify it.\<close>

definition post_id :: "post_args \<Rightarrow> string \<Rightarrow> string \<Rightarrow> ('x crud_db_scheme, ledger_error, string) tx" where
  "post_id a tenant command db =
     (case a of (env, ctx, now, fresh, cmd, action, reverses) \<Rightarrow>
        (case post env ctx now fresh tenant (cmd\<lparr>pc_CommandID := command\<rparr>) action reverses db of
           (Inl e, db') \<Rightarrow> (Inl e, db') | (Inr en, db') \<Rightarrow> (Inr (en_ID en), db')))"

definition recorded_entry :: "'x event_db_scheme \<Rightarrow> string \<Rightarrow> string \<Rightarrow> string option" where
  "recorded_entry db tenant command = map_option ev_stream (scanByCommandID tenant command db)"

lemma post_id_cases:
  obtains (failed) e where "post_id a tenant command db = (Inl e, db)"
  | (replayed) s where "post_id a tenant command db = (Inr s, db)" "recorded_entry db tenant command = Some s"
  | (posted) e db' where "post_id a tenant command db = (Inr (ev_stream e), db')" "events db' = events db @ [e]"
      "ev_tenant e = tenant" "ev_command e = command" "scanByCommandID tenant command db = None" "ev_version e = 1"
      "\<not> unique_violation e (events db)" "stream_snapshots db' = stream_snapshots db" "obj_rows db' = obj_rows db"
proof -
  obtain env ctx now fresh cmd action rv where a: "a = (env, ctx, now, fresh, cmd, action, rv)" by (metis prod.exhaust)
  let ?p = "post env ctx now fresh tenant (cmd\<lparr>pc_CommandID := command\<rparr>) action rv db"
  obtain r db' where p: "?p = (r, db')" by fastforce
  from p show thesis
  proof (cases rule: post_cases)
    case (failed e)
    with p a show thesis by (intro that(1)) (simp add: post_id_def)
  next
    case (replayed ev x)
    with p a show thesis
      by (intro that(2) [of "ev_stream x"]) (simp_all add: post_id_def entry_of_def recorded_entry_def)
  next
    case (posted ev e fd)
    with p a show thesis
      by (intro that(3) [of e db']) (simp_all add: post_id_def entry_of_def posted_event_def)
  qed
qed

interpretation posting: command_log recorded_entry post_id
proof (unfold_locales, goal_cases)
  case (1 db t c s arg)
  then show ?case
    by (cases rule: post_id_cases [of arg t c db]) (auto simp: recorded_entry_def)
next
  case (2 arg t c db s)
  then show ?case
    by (cases rule: post_id_cases [of arg t c db]) (auto simp: recorded_entry_def scanByCommandID_def find_append)
next
  case (3 db t c s arg t' c')
  obtain new where "events (snd (post_id arg t' c' db)) = events db @ new"
    by (cases rule: post_id_cases [of arg t' c' db]) auto
  moreover obtain x where "scanByCommandID t c db = Some x" "ev_stream x = s" using 3 by (auto simp: recorded_entry_def)
  ultimately show ?case using scan_append [of t c db x "snd (post_id arg t' c' db)"] by (simp add: recorded_entry_def)
next
  case (4 arg t c db err)
  then show ?case by (cases rule: post_id_cases [of arg t c db]) auto
qed

definition post_run :: "(post_args \<times> string \<times> string) list \<Rightarrow> 'x crud_db_scheme \<Rightarrow> 'x crud_db_scheme" where
  "post_run cmds db = fold (\<lambda>(a, t, c) db. snd (post_id a t c db)) cmds db"

lemma post_run_run: "post_run cmds db = posting.run cmds db"
  by (simp add: post_run_def posting.run_def)


section \<open>What a posting writes\<close>

lemma validateRefs_Inr:
  "validateRefs db tenant cmd = Inr () \<longleftrightarrow>
     periodStatusByCode db tenant (pc_Period cmd) = Inr PeriodOpen \<and>
     (\<forall>l \<in> set (pc_Lines cmd). accountActive db tenant (ln_AccountID l))"
  by (auto simp: validateRefs_def find_None_set split: sum.splits option.splits dest: find_SomeD)

text \<open>C1: an accepted new entry is what the books require (INV-F1, INV-F3, INV-T2): posting under an unused
  command id appends exactly one event, in a stream of its own, whose payload decodes to the lines; every line is
  a debit or a credit, positive, on an active account of the tenant; the period is open; the actor may
  post; and debits equal credits, exactly on Postgres and on SQLite as long as neither sum leaves \<open>int64\<close>.\<close>

theorem Post_sound:
  assumes "Post env ctx now fresh tenant cmd db = (Inr en, db')" "scanByCommandID tenant (pc_CommandID cmd) db = None"
    "\<forall>l \<in> set (pc_Lines cmd). line_ok l"
  shows "\<exists>e actor. events db' = events db @ [e] \<and> ev_tenant e = tenant \<and> ev_stream e = en_ID en \<and> ev_version e = 1 \<and>
    map_option ep_Lines (dec_entry (ev_payload e)) = Some (pc_Lines cmd) \<and>
    (\<forall>l \<in> set (pc_Lines cmd). (0 < ln_Debit l \<and> ln_Credit l = 0 \<or> ln_Debit l = 0 \<and> 0 < ln_Credit l) \<and>
       accountActive db tenant (ln_AccountID l)) \<and>
    periodStatusByCode db tenant (pc_Period cmd) = Inr PeriodOpen \<and>
    Authorize db ctx ''JournalEntry'' ''post'' = Inr actor \<and>
    (env_dial env = Postgres \<or> int64 (debits (pc_Lines cmd)) \<and> int64 (credits (pc_Lines cmd)) \<longrightarrow>
       debits (pc_Lines cmd) = credits (pc_Lines cmd))"
proof -
  from assms(1) have "post env ctx now fresh tenant cmd ''post'' '''' db = (Inr en, db')" by (simp add: Post_def)
  then show ?thesis
  proof (cases rule: post_cases)
    case (posted ev e fd)
    note v = posted(7) [unfolded validateEntry_Inr] and refs = posted(8) [unfolded validateRefs_Inr]
    obtain actor where "Authorize db ctx ''JournalEntry'' ''post'' = Inr actor" using posted(10) by blast
    moreover have "en_ID en = fresh" using posted(1,2) by (simp add: entry_of_def)
    moreover have "\<forall>l \<in> set (pc_Lines cmd). 0 < ln_Debit l \<and> ln_Credit l = 0 \<or> ln_Debit l = 0 \<and> 0 < ln_Credit l"
      using v line_sound_sides by blast
    moreover have "env_dial env = Postgres \<or> int64 (debits (pc_Lines cmd)) \<and> int64 (credits (pc_Lines cmd)) \<longrightarrow>
       debits (pc_Lines cmd) = credits (pc_Lines cmd)" using v posted(9) by (metis i64_id)
    moreover have "events db' = events db @ [e]" "ev_tenant e = tenant" "ev_stream e = fresh" "ev_version e = 1"
      "map_option ep_Lines (dec_entry (ev_payload e)) = Some (pc_Lines cmd)"
      using posted(3,5) dec_entry_json [OF assms(3)] by (simp_all add: posted_event_def)
    ultimately show ?thesis using refs by blast
  qed (use assms(2) in simp_all)
qed

section \<open>Reading entries back, reversal\<close>

lemma LoadStream_single:
  assumes "filter (\<lambda>x. ev_tenant x = tenant \<and> ev_stream x = s) (events db) = [e]" "ev_version e = 1"
    "\<forall>x \<in> set (stream_snapshots db). \<not> (sn_tenant x = tenant \<and> sn_stream x = s)" "tenant \<noteq> ''''" "s \<noteq> ''''"
  shows "LoadStream db tenant s None = Inr (None, [e])"
proof -
  have snap: "LoadSnapshot db tenant s = Inr None"
    using assms(3-5) by (simp add: LoadSnapshot_def find_None_set)
  have "filter (\<lambda>x. ev_tenant x = tenant \<and> ev_stream x = s \<and> 0 < ev_version x) (events db) =
      filter (\<lambda>x. 0 < ev_version x) (filter (\<lambda>x. ev_tenant x = tenant \<and> ev_stream x = s) (events db))"
    unfolding filter_filter by (rule filter_cong) auto
  then have "filter (\<lambda>x. ev_tenant x = tenant \<and> ev_stream x = s \<and> 0 < ev_version x) (events db) = [e]"
    using assms(1,2) by simp
  then show ?thesis
    using assms(4,5) snap by (simp add: LoadStream_def apply_no_upcasters)
qed

lemma post_run_stream:
  assumes "filter (\<lambda>x. ev_tenant x = t \<and> ev_stream x = s) (events db) = [e]" "ev_version e = 1"
  shows "filter (\<lambda>x. ev_tenant x = t \<and> ev_stream x = s) (events (post_run cmds db)) = [e] \<and>
    stream_snapshots (post_run cmds db) = stream_snapshots db"
  using assms(1)
proof (induction cmds arbitrary: db)
  case (Cons x cmds)
  obtain a t' c where x: "x = (a, t', c)" by (metis prod_cases3)
  let ?db1 = "snd (post_id a t' c db)"
  have "filter (\<lambda>x. ev_tenant x = t \<and> ev_stream x = s) (events ?db1) = [e] \<and> stream_snapshots ?db1 = stream_snapshots db"
  proof (cases rule: post_id_cases [of a t' c db])
    case (posted e2 db2)
    have "e \<in> set (events db)" "ev_tenant e = t" "ev_stream e = s"
      using Cons.prems by (auto simp: filter_eq_Cons_iff)
    then have "\<not> (ev_tenant e2 = t \<and> ev_stream e2 = s)"
      using posted(6,7) assms(2) by (auto simp: unique_violation_def)
    with posted Cons.prems show ?thesis by auto
  qed (use Cons.prems in simp_all)
  with Cons.IH [of ?db1] x show ?case by (simp add: post_run_def)
qed (simp add: post_run_def)

text \<open>C8: posted entries are immutable and read back (INV-F2): after a new entry was posted in a stream of its
  own, \<open>LoadEntry\<close> of its id gives its period, currency, memo and lines, and goes on doing so through any run of
  further postings and reversals.\<close>

theorem Post_LoadEntry:
  assumes "Post env ctx now fresh tenant cmd db = (Inr en, db')" "scanByCommandID tenant (pc_CommandID cmd) db = None"
    "\<forall>l \<in> set (pc_Lines cmd). line_ok l" "tenant \<noteq> ''''" "fresh \<noteq> ''''"
    "\<forall>x \<in> set (events db). \<not> (ev_tenant x = tenant \<and> ev_stream x = fresh)"
    "\<forall>x \<in> set (stream_snapshots db). \<not> (sn_tenant x = tenant \<and> sn_stream x = fresh)"
  shows "\<exists>e. LoadEntry (post_run cmds db') tenant (en_ID en) = Inr (en\<lparr>en_Event := e\<rparr>)"
proof -
  from assms(1) have "post env ctx now fresh tenant cmd ''post'' '''' db = (Inr en, db')" by (simp add: Post_def)
  then show ?thesis
  proof (cases rule: post_cases)
    case (posted ev e fd)
    have e: "ev_tenant e = tenant" "ev_stream e = fresh" "ev_version e = 1" "ev_payload e = entry_json cmd ''''"
      using posted(3) by (simp_all add: posted_event_def)
    have "filter (\<lambda>x. ev_tenant x = tenant \<and> ev_stream x = fresh) (events db') = [e]"
      using posted(5) e assms(6) by (simp add: filter_empty_conv)
    from post_run_stream [OF this e(3), of cmds] assms(7) posted(5)
    have "LoadStream (post_run cmds db') tenant fresh None = Inr (None, [e])"
      by (intro LoadStream_single [OF _ e(3) _ assms(4,5)]) simp_all
    then show ?thesis
      using posted(1,2) e(4) dec_entry_json [OF assms(3), of "''''"]
      by (intro exI [of _ e]) (simp add: LoadEntry_def entry_of_def)
  qed (use assms(2) in simp_all)
qed

lemma debits_swap [simp]: "debits (map swap_line ls) = credits ls" "credits (map swap_line ls) = debits ls"
  by (simp_all add: debits_def credits_def swap_line_def comp_def)


section \<open>Closing a period\<close>

lemma find_map_row:
  assumes "\<And>r. P (g r) = P r"
  shows "List.find P (map g rows) = map_option g (List.find P rows)"
  by (induction rows) (auto simp: assms)

lemma validated_status:
  "s \<in> {PeriodOpen, PeriodClosed} \<Longrightarrow> validated env period_schema [(''status'', VStr s)] True = Inr [(''status'', VStr s)]"
  by (auto simp: validated_def refuseUnknownFields_def find_field_def period_schema_def base_field_def TranslationsKey_def
      is_blank_def PeriodOpen_def PeriodClosed_def validateValue_def valueRules_def ruleEnum_def allows_def)

lemma transition_effect:
  assumes "transitionStatus env ctx now auid tenant rid from to wrong db = (Inr u, db')" "to \<in> {PeriodOpen, PeriodClosed}"
    "env_hooks env = None" "driver_ok env" "period_row db tenant code = Some row" "cr_id row = rid"
  shows "asString (map_of (case getTx period_schema tenant rid db of Inr (Some r) \<Rightarrow> r | _ \<Rightarrow> []) ''status'') = from"
    "periodStatusByCode db' tenant code = Inr to"
proof -
  from assms(1) obtain current result where g: "Get ctx period_schema tenant rid db = Inr current"
      "asString (map_of current ''status'') = from"
      "Update env ctx now auid period_schema tenant rid [(''status'', VStr to)] db = (Inr result, db')"
    by (auto simp: transitionStatus_def periodCRUD_eq ignore_result_def meta_result_def
        split: sum.splits if_splits prod.splits)
  from g(1) have "getTx period_schema tenant rid db = Inr (Some current)"
    by (auto simp: Get_def split: sum.splits option.splits)
  with g(2) show "asString (map_of (case getTx period_schema tenant rid db of Inr (Some r) \<Rightarrow> r | _ \<Rightarrow> []) ''status'') = from"
    by simp
  from g(3) obtain t blob cols where u: "write_columns env [(''status'', VStr to)] (touched [(''status'', VStr to)] (core_fields period_schema)) = Some cols"
      "audited ctx tenant (ObjectName period_schema) rid ''update''
         (replace_row period_schema tenant rid (updated_row now cols blob) (obj_rows db)) db db'"
    by (elim Update_Inr) (auto simp: validated_status [OF assms(2)] runBefore_def assms(3))
  have "touched [(''status'', VStr to)] (core_fields period_schema) =
      [(base_field ''status'' FieldEnum True)\<lparr>f_options := [''open'', ''closed'']\<rparr>]"
    by (simp add: touched_def core_fields_def period_schema_def base_field_def)
  moreover have "env_drv env (env_dial env) FieldEnum (VStr to) = Some (VStr to)"
    using assms(4) by (simp add: driver_ok_def storable_def)
  ultimately have cols: "cols = [(''status'', VStr to)]"
    using u(1) by (simp add: rec_value_def base_field_def)
  let ?g = "\<lambda>r. if cr_table r = TableName (ObjectName period_schema) \<and> cr_tenant r = tenant \<and> cr_id r = rid
     then updated_row now cols blob r else r"
  have other: "rec_value (cr_core (updated_row now cols blob r)) ''code'' = rec_value (cr_core r) ''code''" for r
    by (simp add: cols updated_row_def rec_value_def map_of_put_all)
  have "period_row db' tenant code = map_option ?g (period_row db tenant code)"
    unfolding period_row_def audited_rows [OF u(2)] replace_row_def
    by (rule find_map_row) (simp add: other)
  then have "period_row db' tenant code = Some (?g row)" using assms(5) by simp
  moreover have "?g row = updated_row now cols blob row"
    using find_SomeD [of _ _ row] assms(5,6) by (auto simp: period_row_def period_schema_def dest: find_SomeD)
  ultimately have "period_row db' tenant code = Some (updated_row now cols blob row)" by simp
  moreover have "rec_value (cr_core (updated_row now cols blob row)) ''status'' = VStr to"
    by (simp add: cols updated_row_def rec_value_def map_of_put_all)
  ultimately show "periodStatusByCode db' tenant code = Inr to" by (simp add: periodStatusByCode_def)
qed

lemma post_run_rows: "obj_rows (post_run cmds db) = obj_rows db"
proof (induction cmds arbitrary: db)
  case (Cons x cmds)
  obtain a t c where x: "x = (a, t, c)" by (metis prod_cases3)
  have "obj_rows (snd (post_id a t c db)) = obj_rows db" by (cases rule: post_id_cases [of a t c db]) simp_all
  with Cons x show ?case by (simp add: post_run_def)
qed (simp add: post_run_def)

text \<open>C10: closing a period stops posting to it (INV-F3): \<open>ClosePeriod\<close> succeeds only on an open period, and once
  it did, after any run of other postings, every posting and every reversal into that period fails and writes nothing.\<close>

theorem ClosePeriod_stops_posting:
  assumes "ClosePeriod env ctx now auid tenant rid db = (Inr u, db')" "env_hooks env = None" "driver_ok env"
    "period_row db tenant (pc_Period cmd) = Some row" "cr_id row = rid" "db2 = post_run cmds db'"
  shows "post env2 ctx2 now2 fresh tenant cmd action rv db2 =
    (Inl (case validateEntry (env_iso env2) cmd of Inl e \<Rightarrow> e | Inr _ \<Rightarrow> ErrClosedPeriod (pc_Period cmd)), db2)"
proof -
  from assms(1) have "transitionStatus env ctx now auid tenant rid PeriodOpen PeriodClosed ErrPeriodNotOpen db = (Inr u, db')"
    by (simp add: ClosePeriod_def)
  from transition_effect(2) [OF this _ assms(2-5)] have "periodStatusByCode db' tenant (pc_Period cmd) = Inr PeriodClosed"
    by simp
  then have "periodStatusByCode db2 tenant (pc_Period cmd) = Inr PeriodClosed"
    by (simp add: assms(6) periodStatusByCode_def period_row_def post_run_rows)
  then have "validateRefs db2 tenant cmd = Inl (ErrClosedPeriod (pc_Period cmd))"
    by (simp add: validateRefs_def PeriodOpen_def PeriodClosed_def)
  then show ?thesis by (simp add: post_def split: sum.split)
qed


section \<open>An example\<close>

definition books_env :: crud_env where
  "books_env = sample_env\<lparr>env_iso := (\<lambda>c. if c = ''EUR'' then Some (''EUR'', 2) else None)\<rparr>"

definition books_row :: "string \<Rightarrow> string \<Rightarrow> (string \<times> val) list \<Rightarrow> crud_row" where
  "books_row object rid core = \<lparr>cr_table = TableName object, cr_id = rid, cr_tenant = ''acme'', cr_core = core, cr_custom = [],
     cr_created = 0, cr_updated = 0, cr_archived = None\<rparr>"

definition books_db :: crud_db where
  "books_db = sample_crud_db\<lparr>
     role_permissions := map (\<lambda>(o', a). \<lparr>pe_id = o' @ a, pe_tenant = ''acme'', pe_role = ''r'', pe_object = o', pe_action = a,
        pe_condition = None\<rparr>) [(''JournalEntry'', ''post''), (''JournalEntry'', ''reverse''), (''Period'', ''read''), (''Period'', ''update'')],
     obj_rows := [books_row ''Period'' ''p1'' [(''code'', VStr ''2026-01''), (''start_date'', VStr ''2026-01-01''),
           (''end_date'', VStr ''2026-01-31''), (''status'', VStr ''open'')],
         books_row ''Account'' ''cash'' [], books_row ''Account'' ''sales'' []]\<rparr>"

definition books_cmd :: PostCmd where
  "books_cmd = \<lparr>pc_Period = ''2026-01'', pc_Currency = ''EUR'', pc_Memo = ''sale'',
     pc_Lines = [\<lparr>ln_AccountID = ''cash'', ln_Debit = 500, ln_Credit = 0\<rparr>, \<lparr>ln_AccountID = ''sales'', ln_Debit = 0, ln_Credit = 500\<rparr>],
     pc_CommandID = ''c1''\<rparr>"

definition books_post :: "(ledger_error + Entry) \<times> crud_db" where
  "books_post = Post books_env (Some sample_actor) 1000 ''e1'' ''acme'' books_cmd books_db"

lemma books_facts:
  "is_ok (fst books_post)" "scanByCommandID ''acme'' ''c1'' books_db = None" "map ev_id (events books_db) = []"
  "stream_snapshots books_db = []" "list_all line_ok (pc_Lines books_cmd)" "pc_CommandID books_cmd = ''c1''"
  by code_simp+


lemma books_post_run:
  obtains en db' where "Post books_env (Some sample_actor) 1000 ''e1'' ''acme'' books_cmd books_db = (Inr en, db')"
    "books_post = (Inr en, db')"
  using books_facts(1) by (metis is_ok_iff prod.collapse books_post_def)

definition books_args :: post_args where
  "books_args = (books_env, Some sample_actor, 1000, ''e1'', books_cmd, ''post'', '''')"

lemma books_post_id: "fst (post_id books_args ''acme'' ''c1'' books_db) = Inr ''e1''"
  by code_simp


lemma books_unused: "scanByCommandID ''acme'' (pc_CommandID books_cmd) books_db = None"
  using books_facts(2,6) by simp

lemma books_lines: "\<forall>l \<in> set (pc_Lines books_cmd). line_ok l"
  using books_facts(5) by (simp add: list_all_iff)

theorem Post_sound_witness:
  "\<exists>e. events (snd books_post) = events books_db @ [e] \<and> ev_tenant e = ''acme'' \<and> debits (pc_Lines books_cmd) = credits (pc_Lines books_cmd)"
proof -
  obtain en db' where c: "Post books_env (Some sample_actor) 1000 ''e1'' ''acme'' books_cmd books_db = (Inr en, db')"
    "books_post = (Inr en, db')" by (rule books_post_run)
  have "env_dial books_env = Postgres" by (simp add: books_env_def sample_env_def)
  with Post_sound [OF c(1) books_unused books_lines] show ?thesis unfolding c(2) snd_conv by blast
qed

theorem Post_LoadEntry_witness:
  "\<exists>en e. fst books_post = Inr en \<and>
     LoadEntry (post_run [(books_args, ''acme'', ''c2'')] (snd books_post)) ''acme'' (en_ID en) = Inr (en\<lparr>en_Event := e\<rparr>)"
proof -
  obtain en db' where c: "Post books_env (Some sample_actor) 1000 ''e1'' ''acme'' books_cmd books_db = (Inr en, db')"
    "books_post = (Inr en, db')" by (rule books_post_run)
  have "events books_db = []" using books_facts(3) by simp
  then show ?thesis
    using Post_LoadEntry [OF c(1) books_unused books_lines, of "[(books_args, ''acme'', ''c2'')]"] books_facts(4)
    unfolding c(2) fst_conv snd_conv by auto
qed

lemma books_entry: "is_ok (LoadEntry (snd books_post) ''acme'' ''e1'')" "scanByCommandID ''acme'' ''c3'' (snd books_post) = None"
  "is_ok (fst (Reverse books_env (Some sample_actor) 2000 ''e2'' ''acme'' ''e1'' ''c3'' (snd books_post)))"
  by code_simp+


definition books_close :: "(ledger_error + unit) \<times> crud_db" where
  "books_close = ClosePeriod books_env (Some sample_actor) 2000 ''a1'' ''acme'' ''p1'' (snd books_post)"

lemma books_close_ok: "is_ok (fst books_close)" "map_option cr_id (period_row (snd books_post) ''acme'' ''2026-01'') = Some ''p1''"
  "validateEntry (env_iso books_env) books_cmd = Inr ()" "pc_Period books_cmd = ''2026-01''"
  by code_simp+

theorem ClosePeriod_stops_posting_witness:
  "post books_env (Some sample_actor) 3000 ''e9'' ''acme'' books_cmd ''post'' '''' (snd books_close) =
     (Inl (ErrClosedPeriod ''2026-01''), snd books_close)"
proof -
  obtain u db' where c: "ClosePeriod books_env (Some sample_actor) 2000 ''a1'' ''acme'' ''p1'' (snd books_post) = (Inr u, db')"
    "books_close = (Inr u, db')"
    using books_close_ok(1) by (metis is_ok_iff prod.collapse books_close_def)
  obtain row where row: "period_row (snd books_post) ''acme'' (pc_Period books_cmd) = Some row" "cr_id row = ''p1''"
    using books_close_ok(2,4) by auto
  have "env_hooks books_env = None" "driver_ok books_env" by (simp_all add: books_env_def sample_env_def driver_ok_def)
  from ClosePeriod_stops_posting [OF c(1) this row, of db' "[]"] books_close_ok(3,4) show ?thesis
    unfolding c(2) snd_conv by (simp add: post_run_def)
qed

end
