(* ===== verification/LedgerBalances.thy ===== *)
theory LedgerBalances
  imports LedgerPosting
begin

text \<open>
  \<open>modules/ledger/projection.go\<close>: the trial balance as a fold of the event log, and the materialised
  projection \<open>ledger_balances\<close> with its cursor, caught up at read time or rebuilt. A balance column that has left
  64 bits is \<open>None\<close>: SQLite turns it into a float no later read accepts, Postgres refuses the statement.
\<close>

record balance_row =
  bl_tenant :: string
  bl_account :: string
  bl_currency :: string
  bl_net :: "int option"

record ledger_db = crud_db +
  ledger_balances :: "balance_row list"
  balance_cursors :: "(string \<times> int) list"

type_synonym TrialBalance = "((string \<times> string) \<times> int) list"

definition tb_get :: "TrialBalance \<Rightarrow> string \<Rightarrow> string \<Rightarrow> int" where
  "tb_get tb account cur = (case map_of tb (account, cur) of None \<Rightarrow> 0 | Some n \<Rightarrow> n)"

fun put_key :: "'k \<Rightarrow> 'v \<Rightarrow> ('k \<times> 'v) list \<Rightarrow> ('k \<times> 'v) list" where
  "put_key k v [] = [(k, v)]"
| "put_key k v ((k', v') # m) = (if k' = k then (k, v) # m else (k', v') # put_key k v m)"

lemma map_of_put_key [simp]: "map_of (put_key k v m) k' = (if k' = k then Some v else map_of m k')"
  by (induction m) auto

lemma put_key_keys: "fst ` set (put_key k v m) = insert k (fst ` set m)"
proof (induction m)
  case (Cons x m)
  then show ?case by (cases x) (auto simp: set_eq_iff image_iff)
qed simp

lemma put_key_distinct: "distinct (map fst m) \<Longrightarrow> distinct (map fst (put_key k v m))"
proof (induction m)
  case (Cons x m)
  then show ?case using put_key_keys [of k v m] by (cases x) auto
qed simp

definition tb_add :: "string \<Rightarrow> string \<Rightarrow> int \<Rightarrow> int \<Rightarrow> TrialBalance \<Rightarrow> TrialBalance" where
  "tb_add account cur debit credit tb = put_key (account, cur) (i64 (tb_get tb account cur + i64 (debit - credit))) tb"

definition add_lines :: "string \<Rightarrow> Line list \<Rightarrow> TrialBalance \<Rightarrow> TrialBalance" where
  "add_lines cur ls tb = foldl (\<lambda>tb l. tb_add (ln_AccountID l) cur (ln_Debit l) (ln_Credit l) tb) tb ls"

fun fold_events :: "(string \<Rightarrow> bool) option \<Rightarrow> Event list \<Rightarrow> TrialBalance \<Rightarrow> ledger_error + TrialBalance" where
  "fold_events incl [] tb = Inr tb"
| "fold_events incl (e # es) tb =
     (if ev_type e \<noteq> EventPosted then fold_events incl es tb
      else
     (case dec_entry (ev_payload e) of None \<Rightarrow> Inl ErrEntryDecode
      | Some p \<Rightarrow>
          if (case incl of None \<Rightarrow> True | Some P \<Rightarrow> P (ep_Period p))
          then fold_events incl es (add_lines (ep_Currency p) (ep_Lines p) tb)
          else fold_events incl es tb))"

definition foldTrialBalanceWhere :: "Event list \<Rightarrow> (string \<Rightarrow> bool) option \<Rightarrow> ledger_error + TrialBalance" where
  "foldTrialBalanceWhere es incl = fold_events incl es []"

definition FoldTrialBalance :: "Event list \<Rightarrow> ledger_error + TrialBalance" where
  "FoldTrialBalance es = foldTrialBalanceWhere es None"

section \<open>Paging through the log\<close>

definition events_after :: "'x event_db_scheme \<Rightarrow> string \<Rightarrow> int \<Rightarrow> Event list" where
  "events_after db tenant after = sort_key ev_id (filter (\<lambda>e. ev_tenant e = tenant \<and> ev_id e > after) (events db))"

lemma ReadFeed_page:
  "tenant \<noteq> '''' \<Longrightarrow> 0 < limit \<Longrightarrow> ReadFeed db tenant after limit = Inr (take (nat limit) (events_after db tenant after))"
  by (simp add: ReadFeed_def events_after_def)

lemma events_after_last_less:
  assumes "ReadFeed db tenant cursor page = Inr batch" "batch \<noteq> []"
  shows "length (events_after db tenant (ev_id (last batch))) < length (events_after db tenant cursor)"
proof -
  have b: "batch = take (nat page) (events_after db tenant cursor)"
    using assms(1) by (auto simp: ReadFeed_def events_after_def split: if_splits)
  then have m: "last batch \<in> set (events_after db tenant cursor)"
    using assms(2) by (metis last_in_set in_set_takeD)
  have "length (filter (\<lambda>e. ev_tenant e = tenant \<and> ev_id e > ev_id (last batch)) (events db)) <
      length (filter (\<lambda>e. ev_tenant e = tenant \<and> ev_id e > cursor) (events db))"
  proof -
    let ?P = "\<lambda>e. ev_tenant e = tenant \<and> ev_id e > cursor" and ?Q = "\<lambda>e. ev_id e > ev_id (last batch)"
    have last: "last batch \<in> set (filter ?P (events db))" using m by (simp add: events_after_def)
    then have "filter (\<lambda>e. ev_tenant e = tenant \<and> ev_id e > ev_id (last batch)) (events db) = filter ?Q (filter ?P (events db))"
      unfolding filter_filter by (intro filter_cong) auto
    moreover have "length (filter ?Q (filter ?P (events db))) < length (filter ?P (events db))"
      by (rule length_filter_less [OF last]) simp
    ultimately show ?thesis by simp
  qed
  then show ?thesis by (simp add: events_after_def)
qed

function read_events_pages :: "int \<Rightarrow> 'x event_db_scheme \<Rightarrow> string \<Rightarrow> int \<Rightarrow> event_error + Event list" where
  "read_events_pages page db tenant cursor =
     (case ReadFeed db tenant cursor page of Inl e \<Rightarrow> Inl e
      | Inr batch \<Rightarrow>
          if int (length batch) < page \<or> batch = [] then Inr batch
          else (case read_events_pages page db tenant (ev_id (last batch)) of Inl e \<Rightarrow> Inl e
                | Inr rest \<Rightarrow> Inr (batch @ rest)))"
  by pat_completeness auto

termination read_events_pages
  by (relation "measure (\<lambda>(page, db, tenant, cursor). length (events_after db tenant cursor))")
    (auto intro: events_after_last_less)

declare read_events_pages.simps [simp del]

definition readEventsSince :: "'x event_db_scheme \<Rightarrow> string \<Rightarrow> int \<Rightarrow> event_error + Event list" where
  "readEventsSince db tenant after = read_events_pages 1000 db tenant after"

section \<open>The projection\<close>

definition balanceCursor :: "('x ledger_db_scheme) \<Rightarrow> string \<Rightarrow> int" where
  "balanceCursor db tenant = (case map_of (balance_cursors db) tenant of None \<Rightarrow> 0 | Some n \<Rightarrow> n)"

definition setBalanceCursor :: "string \<Rightarrow> int \<Rightarrow> 'x ledger_db_scheme \<Rightarrow> 'x ledger_db_scheme" where
  "setBalanceCursor tenant n db = db\<lparr>balance_cursors := put_key tenant n (balance_cursors db)\<rparr>"

definition high_id :: "Event list \<Rightarrow> int" where
  "high_id es = foldl (\<lambda>h e. if ev_id e > h then ev_id e else h) 0 es"

definition is_balance :: "string \<Rightarrow> string \<Rightarrow> string \<Rightarrow> balance_row \<Rightarrow> bool" where
  "is_balance tenant account cur r \<longleftrightarrow> bl_tenant r = tenant \<and> bl_account r = account \<and> bl_currency r = cur"

definition net_add :: "int option \<Rightarrow> int \<Rightarrow> int option" where
  "net_add n d = (case n of None \<Rightarrow> None | Some m \<Rightarrow> if int64 (m + d) then Some (m + d) else None)"

text \<open>\<open>None\<close> is the error of the statement.\<close>

definition applyBalanceDelta ::
  "dialect \<Rightarrow> string \<Rightarrow> string \<Rightarrow> string \<Rightarrow> int \<Rightarrow> balance_row list \<Rightarrow> balance_row list option" where
  "applyBalanceDelta dial tenant account cur net rows =
     (if \<exists>r \<in> set rows. is_balance tenant account cur r then
        (if dial = Postgres \<and> (\<exists>r \<in> set rows. is_balance tenant account cur r \<and> net_add (bl_net r) net = None) then None
         else Some (map (\<lambda>r. if is_balance tenant account cur r then r\<lparr>bl_net := net_add (bl_net r) net\<rparr> else r) rows))
      else Some (rows @ [\<lparr>bl_tenant = tenant, bl_account = account, bl_currency = cur, bl_net = Some net\<rparr>]))"

fun apply_deltas :: "dialect \<Rightarrow> string \<Rightarrow> TrialBalance \<Rightarrow> balance_row list \<Rightarrow> balance_row list option" where
  "apply_deltas dial tenant [] rows = Some rows"
| "apply_deltas dial tenant (((account, cur), net) # tb) rows =
     (if net = 0 then apply_deltas dial tenant tb rows
      else (case applyBalanceDelta dial tenant account cur net rows of None \<Rightarrow> None
            | Some rows' \<Rightarrow> apply_deltas dial tenant tb rows'))"

definition EnsureBalances :: "dialect \<Rightarrow> string \<Rightarrow> ('x ledger_db_scheme, ledger_error, unit) tx" where
  "EnsureBalances dial tenant db =
     (let es = events_after db tenant (balanceCursor db tenant) in
      if es = [] then (Inr (), db)
      else
     (case FoldTrialBalance es of Inl e \<Rightarrow> (Inl e, db)
      | Inr delta \<Rightarrow>
     (case apply_deltas dial tenant delta (ledger_balances db) of None \<Rightarrow> (Inl ErrLedgerDatabase, db)
      | Some rows \<Rightarrow> (Inr (), setBalanceCursor tenant (high_id es) (db\<lparr>ledger_balances := rows\<rparr>)))))"

definition tb_rows :: "string \<Rightarrow> TrialBalance \<Rightarrow> balance_row list" where
  "tb_rows tenant tb = map (\<lambda>((a, c), net). \<lparr>bl_tenant = tenant, bl_account = a, bl_currency = c, bl_net = Some net\<rparr>) tb"

definition RebuildBalances :: "string \<Rightarrow> ('x ledger_db_scheme, ledger_error, unit) tx" where
  "RebuildBalances tenant db =
     (case readEventsSince db tenant 0 of Inl e \<Rightarrow> (Inl (LedgerEvent e), db)
      | Inr es \<Rightarrow>
     (case FoldTrialBalance es of Inl e \<Rightarrow> (Inl e, db)
      | Inr tb \<Rightarrow>
          (Inr (), setBalanceCursor tenant (high_id es) (db\<lparr>ledger_balances :=
             filter (\<lambda>r. bl_tenant r \<noteq> tenant) (ledger_balances db) @
             tb_rows tenant tb\<rparr>))))"

fun read_rows :: "balance_row list \<Rightarrow> TrialBalance \<Rightarrow> ledger_error + TrialBalance" where
  "read_rows [] tb = Inr tb"
| "read_rows (r # rs) tb =
     (case bl_net r of None \<Rightarrow> Inl ErrLedgerDatabase
      | Some n \<Rightarrow> read_rows rs (put_key (bl_account r, bl_currency r) n tb))"

definition ReadTrialBalance :: "'x ledger_db_scheme \<Rightarrow> string \<Rightarrow> ledger_error + TrialBalance" where
  "ReadTrialBalance db tenant = read_rows (filter (\<lambda>r. bl_tenant r = tenant) (ledger_balances db)) []"

definition BalancesForPeriods :: "'x event_db_scheme \<Rightarrow> string \<Rightarrow> (string \<Rightarrow> bool) option \<Rightarrow> ledger_error + TrialBalance" where
  "BalancesForPeriods db tenant incl =
     (case readEventsSince db tenant 0 of Inl e \<Rightarrow> Inl (LedgerEvent e) | Inr es \<Rightarrow> foldTrialBalanceWhere es incl)"

section \<open>Reading the log page by page\<close>

lemma take_below_last:
  assumes "sorted_wrt (<) (map ev_id xs)" "0 < n" "n \<le> length xs"
  shows "filter (\<lambda>e. ev_id e > ev_id (last (take n xs))) xs = drop n xs"
proof -
  have split: "xs = take n xs @ drop n xs" by simp
  have "take n xs \<noteq> []" using assms by auto
  then have last: "last (take n xs) \<in> set (take n xs)" by simp
  have s: "sorted_wrt (<) (map ev_id (take n xs) @ map ev_id (drop n xs))" using assms(1) by (simp flip: map_append)
  then have s1: "sorted_wrt (<) (map ev_id (take n xs))" and s2: "\<forall>a \<in> set (take n xs). \<forall>b \<in> set (drop n xs). ev_id a < ev_id b"
    by (auto simp: sorted_wrt_append)
  have "\<forall>a \<in> set (take n xs). ev_id a \<le> ev_id (last (take n xs))"
  proof
    fix a assume "a \<in> set (take n xs)"
    then obtain i where i: "i < length (take n xs)" "take n xs ! i = a" by (metis in_set_conv_nth)
    have "ev_id (take n xs ! i) \<le> ev_id (take n xs ! (length (take n xs) - 1))"
    proof (cases "i = length (take n xs) - 1")
      case False
      then have "i < length (take n xs) - 1" using i(1) by linarith
      moreover from this have "length (take n xs) - 1 < length (take n xs)" using i(1) by linarith
      ultimately show ?thesis
        using sorted_wrt_nth_less [OF s1, of i "length (take n xs) - 1"] i(1) by simp
    qed simp
    then show "ev_id a \<le> ev_id (last (take n xs))" using i \<open>take n xs \<noteq> []\<close> by (simp add: last_conv_nth)
  qed
  then have "filter (\<lambda>e. ev_id e > ev_id (last (take n xs))) (take n xs) = []" by (auto simp: filter_empty_conv not_less)
  moreover have "filter (\<lambda>e. ev_id e > ev_id (last (take n xs))) (drop n xs) = drop n xs"
    using s2 last by (simp add: filter_id_conv)
  ultimately show ?thesis by (subst split) (simp only: filter_append append_Nil)
qed

lemma events_after_sorted:
  assumes "sorted_wrt (<) (map ev_id (events db))"
  shows "events_after db tenant after = filter (\<lambda>e. ev_tenant e = tenant \<and> ev_id e > after) (events db)"
    "sorted_wrt (<) (map ev_id (events_after db tenant after))"
proof -
  let ?f = "filter (\<lambda>e. ev_tenant e = tenant \<and> ev_id e > after) (events db)"
  have s: "sorted_wrt (<) (map ev_id ?f)"
    using assms by (simp add: sorted_wrt_map sorted_wrt_filter)
  then have "sorted (map ev_id ?f)" by (auto simp: sorted_wrt_iff_nth_less intro: less_imp_le)
  then have "sort_key ev_id ?f = ?f" by (rule sort_key_id_if_sorted)
  with s show "events_after db tenant after = ?f" "sorted_wrt (<) (map ev_id (events_after db tenant after))"
    by (simp_all add: events_after_def)
qed

lemma read_events_pages_eq:
  assumes "sorted_wrt (<) (map ev_id (events db))" "tenant \<noteq> ''''" "0 < page"
  shows "read_events_pages page db tenant cursor = Inr (events_after db tenant cursor)"
  using assms
proof (induction page db tenant cursor rule: read_events_pages.induct)
  case (1 page db tenant cursor)
  let ?all = "events_after db tenant cursor"
  let ?batch = "take (nat page) ?all"
  have r: "ReadFeed db tenant cursor page = Inr ?batch" using ReadFeed_page [of tenant page db cursor] "1.prems" by simp
  show ?case
  proof (cases "int (length ?batch) < page \<or> ?batch = []")
    case True
    then have "length ?all < nat page \<or> ?all = []" using "1.prems"(3) by auto
    with True r show ?thesis by (subst read_events_pages.simps) auto
  next
    case False
    then have n: "nat page \<le> length ?all" "0 < nat page" using "1.prems"(3) by auto
    have "events_after db tenant (ev_id (last ?batch)) = filter (\<lambda>e. ev_id e > ev_id (last ?batch)) ?all"
    proof -
      have "last ?batch \<in> set ?all" using False by (metis in_set_takeD last_in_set)
      then have "cursor < ev_id (last ?batch)" by (simp add: events_after_def)
      then show ?thesis
        unfolding events_after_sorted(1) [OF "1.prems"(1)] filter_filter by (intro filter_cong) auto
    qed
    also have "\<dots> = drop (nat page) ?all"
      by (rule take_below_last [OF events_after_sorted(2) [OF "1.prems"(1)] n(2,1)])
    finally have rest: "events_after db tenant (ev_id (last ?batch)) = drop (nat page) ?all" .
    have "read_events_pages page db tenant (ev_id (last ?batch)) = Inr (drop (nat page) ?all)"
      using "1.IH" [OF r False] "1.prems" rest by simp
    with False r show ?thesis by (subst read_events_pages.simps) auto
  qed
qed

text \<open>C17: reading the log in pages of a thousand ends and gives exactly the tenant's events after the cursor, in
  order of their ids, whatever the length of the log.\<close>

theorem readEventsSince_complete:
  assumes "log_ok db" "tenant \<noteq> ''''"
  shows "readEventsSince db tenant after =
    Inr (filter (\<lambda>e. ev_tenant e = tenant \<and> ev_id e > after) (events db))"
  using read_events_pages_eq [of db tenant 1000 after] events_after_sorted(1) [of db tenant after] assms
  by (simp add: readEventsSince_def log_ok_def)

end
