(* ===== verification/LedgerTrial.thy ===== *)
theory LedgerTrial
  imports LedgerBalances
begin

text \<open>The two answers to "what is the balance" agree (INV-E5): every state that postings, other modules' events,
  catch-ups and rebuilds can reach keeps the materialised projection equal to a fold of the log up to its cursor.\<close>

section \<open>The exact effect of the log\<close>

definition line_effect :: "string \<Rightarrow> Line \<Rightarrow> int" where
  "line_effect account l = (if ln_AccountID l = account then ln_Debit l - ln_Credit l else 0)"

definition event_lines :: "string \<Rightarrow> Event \<Rightarrow> Line list" where
  "event_lines cur e =
     (if ev_type e \<noteq> EventPosted then []
      else (case dec_entry (ev_payload e) of None \<Rightarrow> []
            | Some p \<Rightarrow> if ep_Currency p = cur then ep_Lines p else []))"

definition log_effect :: "string \<Rightarrow> string \<Rightarrow> Event list \<Rightarrow> int" where
  "log_effect account cur es = sum_list (map (\<lambda>e. sum_list (map (line_effect account) (event_lines cur e))) es)"

lemma log_effect_simps [simp]:
  "log_effect a c [] = 0"
  "log_effect a c (e # es) = sum_list (map (line_effect a) (event_lines c e)) + log_effect a c es"
  "log_effect a c (es @ es') = log_effect a c es + log_effect a c es'"
  by (simp_all add: log_effect_def)

lemma log_effect_split:
  "log_effect a c (filter P es) = log_effect a c (filter (\<lambda>e. P e \<and> Q e) es) + log_effect a c (filter (\<lambda>e. P e \<and> \<not> Q e) es)"
  by (induction es) auto

lemma tb_get_add:
  "tb_get (tb_add account cur d cr tb) a c =
     (if a = account \<and> c = cur then i64 (tb_get tb a c + (d - cr)) else tb_get tb a c)"
  by (auto simp: tb_get_def tb_add_def i64_add_right)

lemma tb_get_add_lines:
  "i64 (tb_get (add_lines cur ls tb) a c) =
     i64 (tb_get tb a c + (if c = cur then sum_list (map (line_effect a) ls) else 0))"
proof (induction ls arbitrary: tb)
  case (Cons l ls)
  have step: "add_lines cur (l # ls) tb = add_lines cur ls (tb_add (ln_AccountID l) cur (ln_Debit l) (ln_Credit l) tb)"
    by (simp add: add_lines_def)
  let ?rest = "if c = cur then sum_list (map (line_effect a) ls) else 0"
  have "tb_get (tb_add (ln_AccountID l) cur (ln_Debit l) (ln_Credit l) tb) a c + ?rest =
      (if a = ln_AccountID l \<and> c = cur then i64 (tb_get tb a c + line_effect a l) + ?rest
       else tb_get tb a c + (if c = cur then line_effect a l else 0) + ?rest)"
    unfolding tb_get_add line_effect_def by simp
  then show ?case
    unfolding step Cons.IH by (simp add: i64_add_left add.assoc)
qed (simp add: add_lines_def)

definition tb_ok :: "TrialBalance \<Rightarrow> bool" where
  "tb_ok tb \<longleftrightarrow> distinct (map fst tb) \<and> (\<forall>n \<in> snd ` set tb. int64 n)"

lemma put_key_values: "snd ` set (put_key k v m) \<subseteq> insert v (snd ` set m)"
proof (induction m)
  case (Cons x m)
  then show ?case by (cases x) auto
qed simp

lemma tb_ok_add_lines: "tb_ok tb \<Longrightarrow> tb_ok (add_lines cur ls tb)"
proof (induction ls arbitrary: tb)
  case (Cons l ls)
  have "tb_ok (tb_add (ln_AccountID l) cur (ln_Debit l) (ln_Credit l) tb)"
    using Cons.prems put_key_values [of "(ln_AccountID l, cur)" _ tb]
    by (force simp: tb_ok_def tb_add_def put_key_distinct)
  from Cons.IH [OF this] show ?case by (simp add: add_lines_def)
qed (simp add: add_lines_def)

lemma tb_get_int64: "tb_ok tb \<Longrightarrow> int64 (tb_get tb a c)"
  by (auto simp: tb_ok_def tb_get_def int64_def split: option.splits dest!: map_of_SomeD)

lemma fold_events_effect:
  assumes "fold_events None es tb = Inr tb'" "tb_ok tb"
  shows "tb_ok tb' \<and> tb_get tb' a c = i64 (tb_get tb a c + log_effect a c es)"
  using assms
proof (induction es arbitrary: tb)
  case Nil
  then show ?case using tb_get_int64 by simp
next
  case (Cons e es)
  show ?case
  proof (cases "ev_type e = EventPosted")
    case True
    with Cons.prems obtain p where p: "dec_entry (ev_payload e) = Some p"
        "fold_events None es (add_lines (ep_Currency p) (ep_Lines p) tb) = Inr tb'"
      by (auto split: option.splits)
    have "i64 (tb_get (add_lines (ep_Currency p) (ep_Lines p) tb) a c + log_effect a c es) =
        i64 (i64 (tb_get (add_lines (ep_Currency p) (ep_Lines p) tb) a c) + log_effect a c es)"
      by (simp add: i64_add_left)
    also have "\<dots> = i64 (tb_get tb a c + log_effect a c (e # es))"
      unfolding tb_get_add_lines using True p(1) by (simp add: i64_add_left event_lines_def add.assoc)
    finally show ?thesis using Cons.IH [OF p(2) tb_ok_add_lines [OF Cons.prems(2)]] by simp
  next
    case False
    then show ?thesis using Cons by (simp add: event_lines_def)
  qed
qed

lemma FoldTrialBalance_effect:
  assumes "FoldTrialBalance es = Inr tb"
  shows "tb_ok tb" "tb_get tb a c = i64 (log_effect a c es)"
  using fold_events_effect [of es "[]" tb a c] assms
  by (simp_all add: FoldTrialBalance_def foldTrialBalanceWhere_def tb_ok_def tb_get_def)

section \<open>Stored rows\<close>

definition bal_key :: "balance_row \<Rightarrow> string \<times> string \<times> string" where
  "bal_key r = (bl_tenant r, bl_account r, bl_currency r)"

definition stored_net :: "balance_row list \<Rightarrow> string \<Rightarrow> string \<Rightarrow> string \<Rightarrow> int option" where
  "stored_net rows tenant a c =
     (case List.find (is_balance tenant a c) rows of None \<Rightarrow> Some 0 | Some r \<Rightarrow> bl_net r)"

lemma is_balance_key: "is_balance t a c r \<longleftrightarrow> bal_key r = (t, a, c)"
  by (auto simp: is_balance_def bal_key_def)

lemma stored_net_append:
  "stored_net (rows @ [r]) t a c =
     (if (\<exists>x \<in> set rows. is_balance t a c x) then stored_net rows t a c
      else if is_balance t a c r then bl_net r else Some 0)"
  by (auto simp: stored_net_def find_append find_None_set split: option.splits dest: find_SomeD)

lemma stored_net_map:
  assumes "\<And>r. bal_key (g r) = bal_key r"
  shows "stored_net (map g rows) t a c =
     (case List.find (is_balance t a c) rows of None \<Rightarrow> Some 0 | Some r \<Rightarrow> bl_net (g r))"
  unfolding stored_net_def using find_map_row [of "is_balance t a c" g rows] assms
  by (simp add: is_balance_key split: option.splits)

lemma applyBalanceDelta_effect:
  assumes "applyBalanceDelta dial t a c net rows = Some rows'" "int64 net" "distinct (map bal_key rows)"
  shows "distinct (map bal_key rows')"
    "stored_net rows' t' a' c' = (if (t', a', c') = (t, a, c) then net_add (stored_net rows t' a' c') net else stored_net rows t' a' c')"
proof -
  let ?g = "\<lambda>r. if is_balance t a c r then r\<lparr>bl_net := net_add (bl_net r) net\<rparr> else r"
  have key: "bal_key (?g r) = bal_key r" for r by (simp add: bal_key_def)
  show "distinct (map bal_key rows')"
    "stored_net rows' t' a' c' = (if (t', a', c') = (t, a, c) then net_add (stored_net rows t' a' c') net else stored_net rows t' a' c')"
  proof (atomize (full), cases "\<exists>r \<in> set rows. is_balance t a c r")
    case True
    then have r: "rows' = map ?g rows" using assms(1) by (simp add: applyBalanceDelta_def split: if_splits)
    have "distinct (map bal_key rows')" using assms(3) key by (simp add: r comp_def)
    moreover have "stored_net rows' t' a' c' =
        (if (t', a', c') = (t, a, c) then net_add (stored_net rows t' a' c') net else stored_net rows t' a' c')"
    proof (cases "List.find (is_balance t' a' c') rows")
      case None
      then have "(t', a', c') \<noteq> (t, a, c)" using True by (auto simp: find_None_set)
      with None show ?thesis unfolding r stored_net_map [of ?g, OF key] by (auto simp: stored_net_def)
    next
      case (Some x)
      then have "is_balance t' a' c' x" by (auto dest: find_SomeD)
      then have "is_balance t a c x \<longleftrightarrow> (t', a', c') = (t, a, c)" by (auto simp: is_balance_def)
      with Some show ?thesis unfolding r stored_net_map [of ?g, OF key] by (auto simp: stored_net_def)
    qed
    ultimately show "distinct (map bal_key rows') \<and> stored_net rows' t' a' c' =
        (if (t', a', c') = (t, a, c) then net_add (stored_net rows t' a' c') net else stored_net rows t' a' c')" by blast
  next
    case False
    then have r: "rows' = rows @ [\<lparr>bl_tenant = t, bl_account = a, bl_currency = c, bl_net = Some net\<rparr>]"
      using assms(1) by (auto simp: applyBalanceDelta_def)
    have "distinct (map bal_key rows')" using False assms(3) by (auto simp: r is_balance_key bal_key_def)
    moreover have "List.find (is_balance t a c) rows = None" using False by (simp add: find_None_set)
    ultimately show "distinct (map bal_key rows') \<and> stored_net rows' t' a' c' =
        (if (t', a', c') = (t, a, c) then net_add (stored_net rows t' a' c') net else stored_net rows t' a' c')"
    proof (cases "(t', a', c') = (t, a, c)")
      case True
      then have "stored_net rows t' a' c' = Some 0" using \<open>List.find _ rows = None\<close> by (simp add: stored_net_def)
      moreover have "stored_net rows' t' a' c' = Some net"
        using True False unfolding r stored_net_append by (auto simp: is_balance_def)
      ultimately show ?thesis using True assms(2) \<open>distinct (map bal_key rows')\<close> by (simp add: net_add_def)
    next
      case other: False
      have "stored_net rows' t' a' c' = stored_net rows t' a' c'"
      proof (cases "\<exists>x \<in> set rows. is_balance t' a' c' x")
        case no: False
        then have "List.find (is_balance t' a' c') rows = None" by (simp add: find_None_set)
        with no other show ?thesis unfolding r stored_net_append by (auto simp: is_balance_def stored_net_def)
      qed (simp add: r stored_net_append)
      with other \<open>distinct (map bal_key rows')\<close> show ?thesis by auto
    qed
  qed
qed

lemma apply_deltas_effect:
  assumes "apply_deltas dial t tb rows = Some rows'" "tb_ok tb" "distinct (map bal_key rows)"
  shows "distinct (map bal_key rows') \<and>
    stored_net rows' t' a c = (if t' = t \<and> tb_get tb a c \<noteq> 0 then net_add (stored_net rows t' a c) (tb_get tb a c)
       else stored_net rows t' a c)"
  using assms
proof (induction tb arbitrary: rows)
  case (Cons x tb)
  obtain account cur net where x: "x = ((account, cur), net)" by (metis prod.exhaust)
  have tb: "tb_ok tb" "int64 net" "(account, cur) \<notin> fst ` set tb" using Cons.prems(2) x by (auto simp: tb_ok_def)
  then have zero: "tb_get tb account cur = 0" by (simp add: tb_get_def map_of_eq_None_iff [THEN iffD2])
  have get: "tb_get (x # tb) a c = (if (a, c) = (account, cur) then net else tb_get tb a c)" by (auto simp: tb_get_def x)
  show ?case
  proof (cases "net = 0")
    case True
    with Cons x tb zero get show ?thesis by auto
  next
    case False
    with Cons.prems(1) x obtain rows1 where r1: "applyBalanceDelta dial t account cur net rows = Some rows1"
        "apply_deltas dial t tb rows1 = Some rows'" by (auto split: option.splits)
    note d = applyBalanceDelta_effect [OF r1(1) tb(2) Cons.prems(3)]
    from Cons.IH [OF r1(2) tb(1) d(1)] d(2) [of t' a c] zero get False show ?thesis by auto
  qed
qed (simp add: tb_get_def)

lemma read_rows_get:
  assumes "read_rows rows tb = Inr tb'" "distinct (map (\<lambda>r. (bl_account r, bl_currency r)) rows)"
  shows "tb_get tb' a c = (case List.find (\<lambda>r. bl_account r = a \<and> bl_currency r = c) rows of
     None \<Rightarrow> tb_get tb a c | Some r \<Rightarrow> the (bl_net r))"
  using assms
proof (induction rows arbitrary: tb)
  case (Cons r rows)
  then obtain n where n: "bl_net r = Some n" "read_rows rows (put_key (bl_account r, bl_currency r) n tb) = Inr tb'"
    by (auto split: option.splits)
  have "List.find (\<lambda>x. bl_account x = bl_account r \<and> bl_currency x = bl_currency r) rows = None"
    using Cons.prems(2) by (auto simp: find_None_set image_iff)
  with Cons.IH [OF n(2)] Cons.prems(2) n(1) show ?case
    by (auto simp: tb_get_def split: option.splits)
qed simp


section \<open>Reachable states\<close>

definition event_balanced :: "Event \<Rightarrow> bool" where
  "event_balanced e \<longleftrightarrow> (\<forall>c. i64 (sum_list (map (\<lambda>l. ln_Debit l - ln_Credit l) (event_lines c e))) = 0)"

definition folded :: "'x ledger_db_scheme \<Rightarrow> string \<Rightarrow> Event list" where
  "folded db tenant = filter (\<lambda>e. ev_tenant e = tenant \<and> ev_id e \<le> balanceCursor db tenant) (events db)"

definition ids_ok :: "'x event_db_scheme \<Rightarrow> bool" where
  "ids_ok db \<longleftrightarrow> sorted_wrt (<) (map ev_id (events db)) \<and> 0 < event_next db \<and>
     (\<forall>e \<in> set (events db). 0 < ev_id e \<and> ev_id e < event_next db)"

definition projection_ok :: "'x ledger_db_scheme \<Rightarrow> bool" where
  "projection_ok db \<longleftrightarrow> ids_ok db \<and> (\<forall>e \<in> set (events db). event_balanced e) \<and>
     (\<forall>t. balanceCursor db t < event_next db) \<and> distinct (map bal_key (ledger_balances db)) \<and>
     (\<forall>t a c n. stored_net (ledger_balances db) t a c = Some n \<longrightarrow> n = i64 (log_effect a c (folded db t)))"

text \<open>The steps that touch the log or the projection: a posting or reversal (on either database), an event of
  another module, a catch-up, a rebuild, and anything that leaves both alone.\<close>

inductive ledger_reach :: "ledger_db \<Rightarrow> bool" where
  start: "\<lbrakk>events db = []; event_next db = 1; ledger_balances db = []; balance_cursors db = []\<rbrakk> \<Longrightarrow> ledger_reach db"
| posting: "\<lbrakk>ledger_reach db; post env ctx now fresh tenant cmd action rv db = (r, db')\<rbrakk> \<Longrightarrow> ledger_reach db'"
| appending: "\<lbrakk>ledger_reach db; Append now tenant stream v command ev db = (r', db'); ne_type ev \<noteq> EventPosted\<rbrakk>
    \<Longrightarrow> ledger_reach db'"
| catching_up: "\<lbrakk>ledger_reach db; EnsureBalances dial tenant db = (u, db')\<rbrakk> \<Longrightarrow> ledger_reach db'"
| rebuilding: "\<lbrakk>ledger_reach db; RebuildBalances tenant db = (u, db')\<rbrakk> \<Longrightarrow> ledger_reach db'"
| elsewhere: "\<lbrakk>ledger_reach db; events db' = events db; event_next db' = event_next db;
     ledger_balances db' = ledger_balances db; balance_cursors db' = balance_cursors db\<rbrakk> \<Longrightarrow> ledger_reach db'"

lemma projection_ok_cong:
  assumes "projection_ok db" "events db' = events db" "event_next db' = event_next db"
    "ledger_balances db' = ledger_balances db" "balance_cursors db' = balance_cursors db"
  shows "projection_ok db'"
  using assms by (simp add: projection_ok_def ids_ok_def folded_def balanceCursor_def)

lemma projection_ok_event:
  assumes "projection_ok db" "events db' = events db @ [e]" "event_next db' = event_next db + 1" "ev_id e = event_next db"
    "event_balanced e" "ledger_balances db' = ledger_balances db" "balance_cursors db' = balance_cursors db"
  shows "projection_ok db'"
proof -
  have cur: "balanceCursor db' t = balanceCursor db t" for t using assms(7) by (simp add: balanceCursor_def)
  have old: "balanceCursor db t < event_next db" for t using assms(1) by (simp add: projection_ok_def)
  have "folded db' t = folded db t" for t
    using assms(2,4) old [of t] by (simp add: folded_def cur)
  moreover have "ids_ok db'" using assms(1-4) by (auto simp: projection_ok_def ids_ok_def sorted_wrt_append)
  moreover have "balanceCursor db' t < event_next db'" for t using old [of t] by (simp add: cur assms(3))
  moreover have "\<forall>e \<in> set (events db'). event_balanced e" using assms(1,2,5) by (simp add: projection_ok_def)
  moreover have "distinct (map bal_key (ledger_balances db'))"
    "\<forall>t a c n. stored_net (ledger_balances db') t a c = Some n \<longrightarrow> n = i64 (log_effect a c (folded db t))"
    using assms(1,6) by (simp_all add: projection_ok_def)
  ultimately show ?thesis by (simp add: projection_ok_def)
qed

lemma dec_line_back: "dec_line (line_json l) = Some l' \<Longrightarrow> l' = l"
  by (auto simp: dec_line_def line_json_def dec_str_def dec_int_def split: if_splits)

lemma dec_lines_back: "dec_lines (map line_json ls) = Some ls' \<Longrightarrow> ls' = ls"
  by (induction ls arbitrary: ls') (auto split: option.splits dest: dec_line_back)

lemma dec_entry_back:
  assumes "dec_entry (entry_json cmd rv) = Some p"
  shows "ep_Lines p = pc_Lines cmd"
proof -
  have "dec_lines (map line_json (pc_Lines cmd)) = Some (ep_Lines p)"
    using assms entry_json_fields(3) [of cmd rv]
    by (auto simp: dec_entry_def dec_arr_def split: json.splits option.splits)
  then show ?thesis by (rule dec_lines_back)
qed

lemma sum_list_diff: "sum_list (map (\<lambda>x. f x - g x) xs) = sum_list (map f xs) - (sum_list (map g xs) :: int)"
  by (induction xs) simp_all

lemma posted_balanced:
  assumes "posted_event i tenant fresh command (entry_json cmd rv) e" "validateEntry iso4217 cmd = Inr ()"
  shows "event_balanced e"
proof -
  have "i64 (debits (pc_Lines cmd)) = i64 (credits (pc_Lines cmd))" using assms(2) by (simp add: validateEntry_Inr)
  then have "i64 (debits (pc_Lines cmd) - credits (pc_Lines cmd)) = i64 0"
    unfolding i64_cong by (simp add: mod_eq_dvd_iff)
  then have z: "i64 (sum_list (map (\<lambda>l. ln_Debit l - ln_Credit l) (pc_Lines cmd))) = 0"
    by (simp add: sum_list_diff debits_def credits_def)
  then show ?thesis
    using assms(1) by (auto simp: event_balanced_def event_lines_def posted_event_def split: option.splits dest: dec_entry_back)
qed


lemma high_id_fold:
  fixes es :: "Event list"
  defines "go \<equiv> foldl (\<lambda>h e. if ev_id e > h then ev_id e else h)"
  shows "h \<le> go h es \<and> (\<forall>e \<in> set es. ev_id e \<le> go h es) \<and> (go h es = h \<or> (\<exists>e \<in> set es. ev_id e = go h es))"
proof (induction es arbitrary: h)
  case (Cons e es)
  have s: "go h (e # es) = go (if ev_id e > h then ev_id e else h) es" by (simp add: go_def)
  show ?case unfolding s using Cons.IH [of "if ev_id e > h then ev_id e else h"] by (auto split: if_splits)
qed (simp add: go_def)

lemma high_id_upper: "e \<in> set es \<Longrightarrow> ev_id e \<le> high_id es"
  using high_id_fold [of 0 es] by (simp add: high_id_def)

lemma high_id_less: "\<forall>e \<in> set es. ev_id e < n \<Longrightarrow> 0 < n \<Longrightarrow> high_id es < n"
  using high_id_fold [of 0 es] by (auto simp: high_id_def)

lemma balanceCursor_set [simp]:
  "balanceCursor (setBalanceCursor t n db) t' = (if t' = t then n else balanceCursor db t')"
  by (simp add: balanceCursor_def setBalanceCursor_def)

lemma setBalanceCursor_fields [simp]:
  "events (setBalanceCursor t n db) = events db" "event_next (setBalanceCursor t n db) = event_next db"
  "ledger_balances (setBalanceCursor t n db) = ledger_balances db"
  by (simp_all add: setBalanceCursor_def)

lemma balanceCursor_rows [simp]: "balanceCursor (db\<lparr>ledger_balances := rows\<rparr>) t = balanceCursor db t"
  by (simp add: balanceCursor_def)

lemma net_add_SomeD: "net_add n d = Some m \<Longrightarrow> \<exists>k. n = Some k \<and> m = k + d \<and> int64 m"
  by (auto simp: net_add_def split: option.splits if_splits)

text \<open>The projection has caught up with the tenant's whole log.\<close>

definition caught_up :: "'x ledger_db_scheme \<Rightarrow> string \<Rightarrow> bool" where
  "caught_up db tenant \<longleftrightarrow> folded db tenant = filter (\<lambda>e. ev_tenant e = tenant) (events db)"

lemma EnsureBalances_cases:
  assumes "EnsureBalances dial tenant db = (r, db')"
  obtains (failed) e where "r = Inl e" "db' = db"
  | (unchanged) "r = Inr ()" "db' = db" "events_after db tenant (balanceCursor db tenant) = []"
  | (folded) delta rows es where "r = Inr ()" "es = events_after db tenant (balanceCursor db tenant)" "es \<noteq> []"
      "FoldTrialBalance es = Inr delta" "apply_deltas dial tenant delta (ledger_balances db) = Some rows"
      "db' = setBalanceCursor tenant (high_id es) (db\<lparr>ledger_balances := rows\<rparr>)"
proof (cases "events_after db tenant (balanceCursor db tenant) = []")
  case True
  show thesis by (rule unchanged) (use assms True in \<open>simp_all add: EnsureBalances_def\<close>)
next
  case False
  let ?es = "events_after db tenant (balanceCursor db tenant)"
  show thesis
  proof (cases "FoldTrialBalance ?es")
    case (Inl e)
    show thesis by (rule failed [of e]) (use assms False Inl in \<open>simp_all add: EnsureBalances_def\<close>)
  next
    case delta: (Inr delta)
    show thesis
    proof (cases "apply_deltas dial tenant delta (ledger_balances db)")
      case None
      show thesis
        by (rule failed [of ErrLedgerDatabase]) (use assms False delta None in \<open>simp_all add: EnsureBalances_def\<close>)
    next
      case (Some rows)
      show thesis
        by (rule folded [OF _ refl False delta Some]) (use assms False delta Some in \<open>simp_all add: EnsureBalances_def\<close>)
    qed
  qed
qed

lemma EnsureBalances_ok:
  assumes "projection_ok db" "EnsureBalances dial tenant db = (r, db')"
  shows "projection_ok db' \<and> events db' = events db \<and> (is_ok r \<longrightarrow> caught_up db' tenant)"
proof -
  have sorted: "sorted_wrt (<) (map ev_id (events db))" using assms(1) by (simp add: projection_ok_def ids_ok_def)
  have after: "events_after db tenant (balanceCursor db tenant) =
      filter (\<lambda>e. ev_tenant e = tenant \<and> \<not> ev_id e \<le> balanceCursor db tenant) (events db)"
    using events_after_sorted(1) [OF sorted] by (simp add: not_le)
  from assms(2) show ?thesis
  proof (cases rule: EnsureBalances_cases)
    case unchanged
    then have "\<forall>e \<in> set (events db). ev_tenant e = tenant \<longrightarrow> ev_id e \<le> balanceCursor db tenant"
      by (auto simp: after filter_empty_conv)
    then have "caught_up db tenant" by (auto simp: caught_up_def folded_def intro!: filter_cong)
    with unchanged assms(1) show ?thesis by simp
  next
    case (folded delta rows es)
    have es: "es = filter (\<lambda>e. ev_tenant e = tenant \<and> \<not> ev_id e \<le> balanceCursor db tenant) (events db)"
      using folded(2) after by simp
    obtain x where x: "x \<in> set es" using folded(3) by (cases es) auto
    then have x_new: "balanceCursor db tenant < ev_id x" by (simp add: es)
    have cover: "\<forall>e \<in> set (events db). ev_tenant e = tenant \<longrightarrow> ev_id e \<le> high_id es"
    proof (intro ballI impI)
      fix e assume e: "e \<in> set (events db)" "ev_tenant e = tenant"
      show "ev_id e \<le> high_id es"
      proof (cases "ev_id e \<le> balanceCursor db tenant")
        case True
        with x_new high_id_upper [OF x] show ?thesis by linarith
      next
        case False
        with e have "e \<in> set es" by (simp add: es)
        then show ?thesis by (rule high_id_upper)
      qed
    qed
    have whole: "LedgerTrial.folded db' tenant = filter (\<lambda>e. ev_tenant e = tenant) (events db)"
      using cover by (auto simp: folded_def folded(6) intro!: filter_cong)
    have eff: "log_effect a c (filter (\<lambda>e. ev_tenant e = tenant) (events db)) =
        log_effect a c (LedgerTrial.folded db tenant) + log_effect a c es" for a c
      using log_effect_split [of a c "\<lambda>e. ev_tenant e = tenant" "events db" "\<lambda>e. ev_id e \<le> balanceCursor db tenant"]
      by (simp add: folded_def es)
    note delta = FoldTrialBalance_effect [OF folded(4)]
    have rows: "distinct (map bal_key rows)"
      "stored_net rows t a c = (if t = tenant \<and> tb_get delta a c \<noteq> 0
         then net_add (stored_net (ledger_balances db) t a c) (tb_get delta a c) else stored_net (ledger_balances db) t a c)" for t a c
      using apply_deltas_effect [OF folded(5) delta(1)] assms(1) by (auto simp: projection_ok_def)
    have stored: "n = i64 (log_effect a c (LedgerTrial.folded db' t))" if n: "stored_net rows t a c = Some n" for t a c n
    proof (cases "t = tenant")
      case False
      then have "LedgerTrial.folded db' t = LedgerTrial.folded db t" by (simp add: folded_def folded(6))
      with False n rows(2) [of t a c] assms(1) show ?thesis by (simp add: projection_ok_def)
    next
      case True
      have "\<exists>k. stored_net (ledger_balances db) t a c = Some k \<and> n = i64 (k + tb_get delta a c)"
      proof (cases "tb_get delta a c = 0")
        case True
        then have "stored_net (ledger_balances db) t a c = Some n" using n rows(2) [of t a c] by simp
        moreover from this have "n = i64 (log_effect a c (LedgerTrial.folded db t))"
          using assms(1) by (simp add: projection_ok_def)
        then have "n = i64 n" by simp
        ultimately show ?thesis using True by simp
      next
        case False
        then have "net_add (stored_net (ledger_balances db) t a c) (tb_get delta a c) = Some n"
          using n rows(2) [of t a c] \<open>t = tenant\<close> by simp
        from net_add_SomeD [OF this] show ?thesis by auto
      qed
      then obtain k where k: "stored_net (ledger_balances db) t a c = Some k" "n = i64 (k + tb_get delta a c)" by blast
      have "k = i64 (log_effect a c (LedgerTrial.folded db t))" using k(1) assms(1) by (simp add: projection_ok_def)
      then have "n = i64 (log_effect a c (LedgerTrial.folded db t) + log_effect a c es)"
        using k(2) by (simp add: delta(2) i64_add_left i64_add_right)
      then show ?thesis using True by (simp add: whole eff)
    qed
    have next_ev: "event_next db' = event_next db" "events db' = events db" by (simp_all add: folded(6))
    have "high_id es < event_next db"
      using assms(1) by (intro high_id_less) (auto simp: es projection_ok_def ids_ok_def)
    then have "\<forall>t. balanceCursor db' t < event_next db'"
      using assms(1) by (simp add: folded(6) projection_ok_def)
    then have "projection_ok db'"
      using assms(1) rows(1) stored next_ev by (simp add: projection_ok_def ids_ok_def folded(6))
    moreover have "caught_up db' tenant" using whole next_ev by (simp add: caught_up_def)
    ultimately show ?thesis using next_ev by simp
  qed (use assms in simp_all)
qed


lemma find_rows_of:
  assumes "t' \<noteq> t" "\<forall>r \<in> set new. bl_tenant r = t"
  shows "stored_net (filter (\<lambda>r. bl_tenant r \<noteq> t) rows @ new) t' a c = stored_net rows t' a c"
proof -
  have "List.find (is_balance t' a c) new = None" using assms by (auto simp: find_None_set is_balance_def)
  moreover have "(\<lambda>x. bl_tenant x \<noteq> t \<and> is_balance t' a c x) = is_balance t' a c"
    using assms(1) by (auto simp: is_balance_def)
  ultimately show ?thesis by (simp add: stored_net_def find_append find_filter split: option.split)
qed

lemma find_rows_new:
  "List.find (is_balance t a c) (tb_rows t tb) =
    map_option (\<lambda>n. \<lparr>bl_tenant = t, bl_account = a, bl_currency = c, bl_net = Some n\<rparr>) (map_of tb (a, c))"
  by (induction tb) (auto simp: is_balance_def tb_rows_def)

lemma tb_rows_key [simp]: "map bal_key (tb_rows t tb) = map (\<lambda>k. (t, k)) (map fst tb)"
  "\<forall>r \<in> set (tb_rows t tb). bl_tenant r = t"
  by (auto simp: bal_key_def tb_rows_def)

lemma RebuildBalances_cases:
  assumes "RebuildBalances tenant db = (r, db')"
  obtains (failed) e where "r = Inl e" "db' = db"
  | (rebuilt) tb es where "r = Inr ()" "readEventsSince db tenant 0 = Inr es" "FoldTrialBalance es = Inr tb"
      "db' = setBalanceCursor tenant (high_id es) (db\<lparr>ledger_balances :=
             filter (\<lambda>r. bl_tenant r \<noteq> tenant) (ledger_balances db) @
             tb_rows tenant tb\<rparr>)"
proof (cases "readEventsSince db tenant 0")
  case (Inl e)
  show thesis by (rule failed [of "LedgerEvent e"]) (use assms Inl in \<open>simp_all add: RebuildBalances_def\<close>)
next
  case es: (Inr es)
  show thesis
  proof (cases "FoldTrialBalance es")
    case (Inl e)
    show thesis by (rule failed [of e]) (use assms es Inl in \<open>simp_all add: RebuildBalances_def\<close>)
  next
    case (Inr tb)
    show thesis by (rule rebuilt [OF _ es Inr]) (use assms es Inr in \<open>simp_all add: RebuildBalances_def\<close>)
  qed
qed

lemma readEventsSince_Inr:
  assumes "ids_ok db" "readEventsSince db tenant after = Inr es"
  shows "es = filter (\<lambda>e. ev_tenant e = tenant \<and> ev_id e > after) (events db)"
proof -
  have s: "sorted_wrt (<) (map ev_id (events db))" using assms(1) by (simp add: ids_ok_def)
  have "tenant \<noteq> ''''"
    using assms(2) by (auto simp: readEventsSince_def read_events_pages.simps [of 1000 db tenant after] ReadFeed_def)
  then show ?thesis
    using read_events_pages_eq [OF s, of tenant 1000 after] events_after_sorted(1) [OF s] assms(2)
    by (simp add: readEventsSince_def)
qed

lemma RebuildBalances_ok:
  assumes "projection_ok db" "RebuildBalances tenant db = (r, db')"
  shows "projection_ok db' \<and> events db' = events db \<and> (is_ok r \<longrightarrow> caught_up db' tenant)"
proof -
  have ids: "ids_ok db" using assms(1) by (simp add: projection_ok_def)
  from assms(2) show ?thesis
  proof (cases rule: RebuildBalances_cases)
    case (rebuilt tb es)
    let ?new = "tb_rows tenant tb"
    let ?rows = "filter (\<lambda>r. bl_tenant r \<noteq> tenant) (ledger_balances db) @ ?new"
    have es: "es = filter (\<lambda>e. ev_tenant e = tenant) (events db)"
      using readEventsSince_Inr [OF ids rebuilt(2)] ids by (auto simp: ids_ok_def intro!: filter_cong)
    have rows: "ledger_balances db' = ?rows" "events db' = events db" "event_next db' = event_next db"
      by (simp_all add: rebuilt(4))
    have whole: "folded db' tenant = es"
    proof -
      have "\<forall>e \<in> set (events db). ev_tenant e = tenant \<longrightarrow> ev_id e \<le> high_id es" using high_id_upper by (auto simp: es)
      then show ?thesis unfolding es by (auto simp: folded_def rebuilt(4) es intro!: filter_cong)
    qed
    note tb = FoldTrialBalance_effect [OF rebuilt(3)]
    have stored: "n = i64 (log_effect a c (folded db' t))" if "stored_net ?rows t a c = Some n" for t a c n
    proof (cases "t = tenant")
      case False
      then have "stored_net (ledger_balances db) t a c = Some n"
        using that find_rows_of [OF False tb_rows_key(2)] by simp
      moreover have "folded db' t = folded db t" using False by (simp add: folded_def rebuilt(4))
      ultimately show ?thesis using assms(1) by (simp add: projection_ok_def)
    next
      case True
      have old: "List.find (is_balance tenant a c) (filter (\<lambda>r. bl_tenant r \<noteq> tenant) (ledger_balances db)) = None"
        by (auto simp: find_None_set is_balance_def)
      have "n = tb_get tb a c"
        using that True old find_rows_new [of tenant a c tb] by (auto simp: stored_net_def find_append tb_get_def split: option.splits)
      then show ?thesis using True whole tb(2) by simp
    qed
    have "distinct (map bal_key ?new)" using tb(1) by (simp add: tb_ok_def distinct_map inj_on_def)
    moreover have "distinct (map bal_key (filter (\<lambda>r. bl_tenant r \<noteq> tenant) (ledger_balances db)))"
      using assms(1) by (simp add: projection_ok_def distinct_map_filter)
    moreover have "set (map bal_key (filter (\<lambda>r. bl_tenant r \<noteq> tenant) (ledger_balances db))) \<inter> set (map bal_key ?new) = {}"
      unfolding tb_rows_key by (auto simp: bal_key_def)
    ultimately have "distinct (map bal_key ?rows)" unfolding map_append distinct_append by blast
    moreover have "high_id es < event_next db" using ids by (intro high_id_less) (auto simp: es ids_ok_def)
    ultimately have "projection_ok db'"
      using assms(1) stored rows by (auto simp: projection_ok_def ids_ok_def rebuilt(4))
    moreover have "caught_up db' tenant" using whole es rows by (simp add: caught_up_def)
    ultimately show ?thesis using rows by simp
  qed (use assms in simp_all)
qed


lemma ledger_reach_ok: "ledger_reach db \<Longrightarrow> projection_ok db"
proof (induction rule: ledger_reach.induct)
  case (start db)
  then show ?case by (simp add: projection_ok_def ids_ok_def folded_def balanceCursor_def stored_net_def)
next
  case (posting db env ctx now fresh tenant cmd action rv r db')
  from posting(2) show ?case
  proof (cases rule: post_cases)
    case (posted ev e fd)
    then show ?thesis
      by (intro projection_ok_event [OF posting.IH, of db' e] posted_balanced [OF posted(3,7)])
        (simp_all add: posted_event_def)
  qed (use posting.IH in simp_all)
next
  case (appending db now tenant stream v command ev r' db')
  show ?case
  proof (cases rule: Append_cases [of now tenant stream v command ev db])
    case (appended e)
    then show ?thesis using appending(2,3)
      by (intro projection_ok_event [OF appending.IH, of db' e])
        (auto simp: new_event_def event_balanced_def event_lines_def)
  qed (use appending in simp_all)
next
  case (catching_up db dial tenant u db')
  then show ?case using EnsureBalances_ok by blast
next
  case (rebuilding db tenant u db')
  then show ?case using RebuildBalances_ok by blast
next
  case (elsewhere db db')
  then show ?case using projection_ok_cong by blast
qed

lemma read_rows_scans: "read_rows rows tb = Inr tb' \<Longrightarrow> x \<in> set rows \<Longrightarrow> bl_net x \<noteq> None"
  by (induction rows arbitrary: tb) (auto split: option.splits)

lemma find_of_tenant:
  "List.find (is_balance t a c) rows = List.find (\<lambda>r. bl_account r = a \<and> bl_currency r = c) (filter (\<lambda>r. bl_tenant r = t) rows)"
  by (induction rows) (auto simp: is_balance_def)

lemma ReadTrialBalance_stored:
  assumes "ReadTrialBalance db tenant = Inr tb" "distinct (map bal_key (ledger_balances db))"
  shows "stored_net (ledger_balances db) tenant a c = Some (tb_get tb a c)"
proof -
  let ?rows = "filter (\<lambda>r. bl_tenant r = tenant) (ledger_balances db)"
  have keys: "map bal_key ?rows = map (\<lambda>k. (tenant, k)) (map (\<lambda>r. (bl_account r, bl_currency r)) ?rows)"
    by (auto simp: bal_key_def)
  have "distinct (map bal_key ?rows)" using assms(2) by (rule distinct_map_filter)
  then have "distinct (map (\<lambda>k. (tenant, k)) (map (\<lambda>r. (bl_account r, bl_currency r)) ?rows))" unfolding keys .
  then have d: "distinct (map (\<lambda>r. (bl_account r, bl_currency r)) ?rows)" unfolding distinct_map by blast
  have r: "read_rows ?rows [] = Inr tb" using assms(1) by (simp add: ReadTrialBalance_def)
  have f: "List.find (is_balance tenant a c) (ledger_balances db) = List.find (\<lambda>r. bl_account r = a \<and> bl_currency r = c) ?rows"
    by (rule find_of_tenant)
  show ?thesis
  proof (cases "List.find (\<lambda>r. bl_account r = a \<and> bl_currency r = c) ?rows")
    case None
    with read_rows_get [OF r d, of a c] f show ?thesis by (simp add: stored_net_def tb_get_def)
  next
    case (Some x)
    then have "bl_net x \<noteq> None" using find_SomeD read_rows_scans [OF r] by metis
    with Some read_rows_get [OF r d, of a c] f show ?thesis by (auto simp: stored_net_def)
  qed
qed


text \<open>C3: the two answers to "what is the balance" agree (INV-E5): in any state the ledger can reach, once a
  catch-up or a rebuild succeeded, the stored trial balance a read returns has for every account and currency the
  net that folding the whole log of the tenant gives.\<close>

theorem trial_balance_refines:
  assumes "ledger_reach db" "EnsureBalances dial tenant db = (Inr (), db') \<or> RebuildBalances tenant db = (Inr (), db')"
    "ReadTrialBalance db' tenant = Inr stored" "BalancesForPeriods db' tenant None = Inr folded_tb"
  shows "tb_get stored account cur = tb_get folded_tb account cur"
proof -
  have ok: "projection_ok db'" "caught_up db' tenant"
    using assms(2) EnsureBalances_ok [OF ledger_reach_ok [OF assms(1)]] RebuildBalances_ok [OF ledger_reach_ok [OF assms(1)]]
    by fastforce+
  then have ids: "ids_ok db'" and keys: "distinct (map bal_key (ledger_balances db'))"
    by (simp_all add: projection_ok_def)
  obtain es where es: "readEventsSince db' tenant 0 = Inr es" "FoldTrialBalance es = Inr folded_tb"
    using assms(4) by (auto simp: BalancesForPeriods_def FoldTrialBalance_def split: sum.splits)
  have "es = filter (\<lambda>e. ev_tenant e = tenant) (events db')"
    using readEventsSince_Inr [OF ids es(1)] ids by (auto simp: ids_ok_def intro!: filter_cong)
  then have "es = folded db' tenant" using ok(2) by (simp add: caught_up_def)
  then have "tb_get folded_tb account cur = i64 (log_effect account cur (folded db' tenant))"
    using FoldTrialBalance_effect(2) [OF es(2)] by simp
  moreover have "tb_get stored account cur = i64 (log_effect account cur (folded db' tenant))"
    using ok(1) ReadTrialBalance_stored [OF assms(3) keys, of account cur] by (simp add: projection_ok_def)
  ultimately show ?thesis by simp
qed

section \<open>The books balance\<close>

definition tb_sum :: "string \<Rightarrow> TrialBalance \<Rightarrow> int" where
  "tb_sum cur tb = sum_list (map snd (filter (\<lambda>x. snd (fst x) = cur) tb))"

lemma tb_sum_put:
  "distinct (map fst tb) \<Longrightarrow> tb_sum cur (put_key (a, c) n tb) = tb_sum cur tb + (if c = cur then n - tb_get tb a c else 0)"
proof (induction tb)
  case (Cons x tb)
  obtain a' c' n' where x: "x = ((a', c'), n')" by (metis prod.exhaust)
  have "tb_get (x # tb) a c = (if (a', c') = (a, c) then n' else tb_get tb a c)" by (auto simp: tb_get_def x)
  with Cons x show ?case by (auto simp: tb_sum_def)
qed (simp add: tb_sum_def tb_get_def)

lemma tb_sum_add_lines:
  assumes "tb_ok tb"
  shows "i64 (tb_sum cur (add_lines c ls tb)) =
    i64 (tb_sum cur tb + (if c = cur then sum_list (map (\<lambda>l. ln_Debit l - ln_Credit l) ls) else 0))"
  using assms
proof (induction ls arbitrary: tb)
  case (Cons l ls)
  let ?tb = "tb_add (ln_AccountID l) c (ln_Debit l) (ln_Credit l) tb"
  let ?d = "ln_Debit l - ln_Credit l" and ?get = "tb_get tb (ln_AccountID l) c"
  let ?rest = "sum_list (map (\<lambda>l. ln_Debit l - ln_Credit l) ls)"
  have "tb_ok ?tb" using tb_ok_add_lines [OF Cons.prems, of c "[l]"] by (simp add: add_lines_def)
  from Cons.IH [OF this] have "i64 (tb_sum cur (add_lines c (l # ls) tb)) = i64 (tb_sum cur ?tb + (if c = cur then ?rest else 0))"
    by (simp add: add_lines_def)
  also have "tb_sum cur ?tb = tb_sum cur tb + (if c = cur then i64 (?get + ?d) - ?get else 0)"
    using Cons.prems tb_sum_put [of tb cur "ln_AccountID l" c] by (simp add: tb_add_def tb_ok_def i64_add_right)
  also have "i64 (tb_sum cur tb + (if c = cur then i64 (?get + ?d) - ?get else 0) + (if c = cur then ?rest else 0)) =
      i64 (tb_sum cur tb + (if c = cur then ?d + ?rest else 0))"
    using i64_add_left [of "?get + ?d" "tb_sum cur tb - ?get + ?rest"] by (auto simp: algebra_simps)
  finally show ?case by simp
qed (simp add: add_lines_def)

lemma fold_events_sum:
  assumes "fold_events None es tb = Inr tb'" "tb_ok tb" "\<forall>e \<in> set es. event_balanced e"
  shows "i64 (tb_sum cur tb') = i64 (tb_sum cur tb)"
  using assms
proof (induction es arbitrary: tb)
  case (Cons e es)
  show ?case
  proof (cases "ev_type e = EventPosted")
    case True
    with Cons.prems obtain p where p: "dec_entry (ev_payload e) = Some p"
        "fold_events None es (add_lines (ep_Currency p) (ep_Lines p) tb) = Inr tb'"
      by (auto split: option.splits)
    let ?S = "sum_list (map (\<lambda>l. ln_Debit l - ln_Credit l) (ep_Lines p))"
    have "i64 ?S = 0"
      using Cons.prems(3) True p(1) by (auto simp: event_balanced_def event_lines_def dest: spec [where x = "ep_Currency p"])
    then have "i64 (tb_sum cur (add_lines (ep_Currency p) (ep_Lines p) tb)) = i64 (tb_sum cur tb)"
      unfolding tb_sum_add_lines [OF Cons.prems(2)] using i64_add_right [of "tb_sum cur tb" ?S] by simp
    with Cons.IH [OF p(2) tb_ok_add_lines [OF Cons.prems(2)]] Cons.prems(3) show ?thesis by simp
  qed (use Cons in simp)
qed simp

text \<open>C4: the trial balance is zero per currency (INV-F1): in any state the ledger can reach, whatever was posted
  and reversed, the nets of all accounts of a currency sum to zero, in the 64-bit arithmetic of the code.\<close>

theorem trial_balance_zero:
  assumes "ledger_reach db" "BalancesForPeriods db tenant None = Inr tb"
  shows "i64 (tb_sum cur tb) = 0"
proof -
  have ok: "projection_ok db" using assms(1) by (rule ledger_reach_ok)
  then have ids: "ids_ok db" by (simp add: projection_ok_def)
  obtain es where es: "readEventsSince db tenant 0 = Inr es" "fold_events None es [] = Inr tb"
    using assms(2) by (auto simp: BalancesForPeriods_def foldTrialBalanceWhere_def split: sum.splits)
  have "\<forall>e \<in> set es. event_balanced e"
    using readEventsSince_Inr [OF ids es(1)] ok by (simp add: projection_ok_def)
  from fold_events_sum [OF es(2) _ this, of cur] show ?thesis by (simp add: tb_ok_def tb_sum_def)
qed


section \<open>An example\<close>

definition books_ledger :: ledger_db where
  "books_ledger = crud_db.extend books_db (ledger_db.fields [] [])"

definition books_posted :: ledger_db where
  "books_posted = snd (post books_env (Some sample_actor) 1000 ''e1'' ''acme'' books_cmd ''post'' '''' books_ledger)"

definition books_ensured :: ledger_db where
  "books_ensured = snd (EnsureBalances Postgres ''acme'' books_posted)"

lemma books_posted_reach: "ledger_reach books_posted"
proof -
  have "events books_ledger = []" "event_next books_ledger = 1" "ledger_balances books_ledger = []" "balance_cursors books_ledger = []"
    by code_simp+
  from ledger_reach.posting [OF ledger_reach.start [OF this] prod.collapse [symmetric]] show ?thesis
    unfolding books_posted_def .
qed

lemma books_trial:
  "fst (EnsureBalances Postgres ''acme'' books_posted) = Inr ()"
  "ReadTrialBalance books_ensured ''acme'' = Inr [((''cash'', ''EUR''), 500), ((''sales'', ''EUR''), -500)]"
  "map ev_id (events books_posted) = [1]" "map ev_tenant (events books_posted) = [''acme'']"
  "FoldTrialBalance (events books_posted) = Inr [((''cash'', ''EUR''), 500), ((''sales'', ''EUR''), -500)]"
  by code_simp+

lemma books_periods:
  "BalancesForPeriods books_posted ''acme'' None = Inr [((''cash'', ''EUR''), 500), ((''sales'', ''EUR''), -500)]"
  "BalancesForPeriods books_ensured ''acme'' None = BalancesForPeriods books_posted ''acme'' None"
proof -
  obtain e where e: "events books_posted = [e]" "ev_id e = 1" "ev_tenant e = ''acme''" using books_trial(3,4) by auto
  have ev: "events books_ensured = events books_posted"
    using EnsureBalances_ok [OF ledger_reach_ok [OF books_posted_reach], of Postgres "''acme''"]
    by (metis books_ensured_def prod.collapse)
  have "readEventsSince db ''acme'' 0 = Inr [e]" if "events db = [e]" for db :: ledger_db
    unfolding readEventsSince_def using read_events_pages_eq [of db "''acme''" 1000 0] events_after_sorted(1) [of db "''acme''" 0] that e
    by simp
  then show "BalancesForPeriods books_posted ''acme'' None = Inr [((''cash'', ''EUR''), 500), ((''sales'', ''EUR''), -500)]"
    "BalancesForPeriods books_ensured ''acme'' None = BalancesForPeriods books_posted ''acme'' None"
    using e(1) ev books_trial(5) by (simp_all add: BalancesForPeriods_def FoldTrialBalance_def)
qed

theorem trial_balance_refines_witness:
  "tb_get [((''cash'', ''EUR''), 500), ((''sales'', ''EUR''), -500)] ''cash'' ''EUR'' = 500"
proof -
  have "EnsureBalances Postgres ''acme'' books_posted = (Inr (), books_ensured)"
    using books_trial(1) by (simp add: books_ensured_def prod_eq_iff)
  from trial_balance_refines [OF books_posted_reach disjI1 [OF this] books_trial(2) books_periods(2) [unfolded books_periods(1)],
      of "''cash''" "''EUR''"]
  show ?thesis by (simp add: tb_get_def)
qed

theorem trial_balance_zero_witness: "i64 (tb_sum ''EUR'' [((''cash'', ''EUR''), 500), ((''sales'', ''EUR''), -500)]) = 0"
  by (rule trial_balance_zero [OF books_posted_reach books_periods(1)])

theorem readEventsSince_complete_witness:
  "readEventsSince books_posted ''acme'' 1 = Inr (filter (\<lambda>e. ev_tenant e = ''acme'' \<and> ev_id e > 1) (events books_posted))"
  by (rule readEventsSince_complete) code_simp+

end
