(* ===== verification/Invoicing.thy ===== *)
theory Invoicing
  imports LedgerBalances Tax
begin

text \<open>
  \<open>modules/invoicing\<close>: invoices and customer receipts as records of the metadata engine, posted to the ledger
  through two pure templates. Posting is two transactions: the ledger entry first (its command id is derived
  from the document's id), then the number, the totals and the status in one update. Outside the model, as
  parameters: the BCP-47 parser \<open>ie_lang\<close> and \<open>big.Rat.SetString\<close> (\<open>ie_rat\<close>).
\<close>

record inv_env =
  ie_crud :: crud_env
  ie_lang :: "string \<Rightarrow> bool"
  ie_rat :: "string \<Rightarrow> rat option"

record invoice_db = ledger_db +
  tax_rates :: "tax_row list"
  number_series :: "((string \<times> string) \<times> int) list"

datatype invoice_error =
    ErrInvalidDraft
  | ErrInvalidReceipt
  | InvMoney money_error
  | InvMeta meta_error
  | InvTax tax_error
  | InvLedger ledger_error
  | InvAuthz authz_error
  | ErrInvoiceNotFound string
  | ErrReceiptNotFound string
  | ErrNotDraft string
  | ErrNotPosted string
  | ErrDocumentDecode
  | ErrIssueDate
  | ErrTaxLineCount
  | ErrNoARAccount string
  | ErrReceiptTotal
  | ErrOverApplied string
  | ErrInvoicingDatabase

section \<open>Documents\<close>

type_synonym Localized = "(string \<times> string) list"

text \<open>A language tag is its text and the text of its base language.\<close>

definition Localized_For :: "string \<Rightarrow> string \<Rightarrow> Localized \<Rightarrow> string" where
  "Localized_For tag base l =
     (case map_of l tag of
        Some v \<Rightarrow> if v \<noteq> '''' then v else (case map_of l base of Some v \<Rightarrow> v | None \<Rightarrow> '''')
      | None \<Rightarrow> (case map_of l base of Some v \<Rightarrow> v | None \<Rightarrow> ''''))"

definition Localized_Or :: "string \<Rightarrow> string \<Rightarrow> Localized \<Rightarrow> string \<Rightarrow> string" where
  "Localized_Or tag base l fallback = (if Localized_For tag base l \<noteq> '''' then Localized_For tag base l else fallback)"

record inv_Line =
  il_Description :: string
  il_Quantity :: int
  il_UnitPriceMinor :: int
  il_RevenueAccount :: string
  il_TaxJurisdiction :: string
  il_TaxCategory :: string
  il_DescriptionI18n :: Localized

definition DescriptionFor :: "string \<Rightarrow> string \<Rightarrow> inv_Line \<Rightarrow> string" where
  "DescriptionFor tag base l = Localized_Or tag base (il_DescriptionI18n l) (il_Description l)"

definition netMinor :: "inv_Line \<Rightarrow> int" where
  "netMinor l = i64 (il_UnitPriceMinor l * il_Quantity l)"

record DraftInput =
  di_ContactID :: string
  di_Currency :: string
  di_IssueDate :: string
  di_ARAccount :: string
  di_TaxAccount :: string
  di_Locale :: string
  di_Lines :: "inv_Line list"

record Invoice =
  iv_ID :: string
  iv_ContactID :: string
  iv_Currency :: string
  iv_Status :: string
  iv_Number :: string
  iv_IssueDate :: string
  iv_ARAccount :: string
  iv_TaxAccount :: string
  iv_Locale :: string
  iv_Lines :: "inv_Line list"
  iv_NetMinor :: int
  iv_TaxMinor :: int
  iv_GrossMinor :: int
  iv_GLEntryID :: string
  iv_PostedAt :: string

definition StatusDraft :: string where "StatusDraft = ''draft''"

definition StatusPosted :: string where "StatusPosted = ''posted''"

definition doc_permissions :: "(string \<times> string list) list" where
  "doc_permissions = [(''read'', [''invoicing.viewer'']), (''create'', [''invoicing.clerk'']), (''update'', [''invoicing.clerk'']),
     (''delete'', [''invoicing.clerk'']), (''post'', [''invoicing.poster''])]"

definition invoice_schema :: MetaObject where
  "invoice_schema = \<lparr>ObjectName = ''Invoice'', Module = ''invoicing'', Persistence = PersistenceCRUD,
     Fields = [
       (base_field ''contact_id'' FieldLink True)\<lparr>f_target := ''Contact''\<rparr>,
       base_field ''currency'' FieldCurrency True,
       (base_field ''status'' FieldEnum True)\<lparr>f_options := [''draft'', ''posted'']\<rparr>,
       (base_field ''number'' FieldText False)\<lparr>f_index := True\<rparr>,
       base_field ''issue_date'' FieldText True,
       base_field ''ar_account'' FieldText True,
       base_field ''tax_account'' FieldText True,
       base_field ''lines'' FieldJSON True,
       base_field ''locale'' FieldText False,
       base_field ''net_minor'' FieldInt False,
       base_field ''tax_minor'' FieldInt False,
       base_field ''gross_minor'' FieldInt False,
       base_field ''gl_entry_id'' FieldText False,
       base_field ''posted_at'' FieldText False],
     Permissions = doc_permissions\<rparr>"

definition receipt_schema :: MetaObject where
  "receipt_schema = \<lparr>ObjectName = ''Receipt'', Module = ''invoicing'', Persistence = PersistenceCRUD,
     Fields = [
       (base_field ''contact_id'' FieldLink True)\<lparr>f_target := ''Contact''\<rparr>,
       base_field ''currency'' FieldCurrency True,
       (base_field ''status'' FieldEnum True)\<lparr>f_options := [''draft'', ''posted'']\<rparr>,
       (base_field ''number'' FieldText False)\<lparr>f_index := True\<rparr>,
       base_field ''received_date'' FieldText True,
       base_field ''bank_account'' FieldText True,
       base_field ''applications'' FieldJSON True,
       base_field ''total_minor'' FieldInt False,
       base_field ''gl_entry_id'' FieldText False,
       base_field ''posted_at'' FieldText False],
     Permissions = doc_permissions\<rparr>"

definition invoiceCRUD :: "meta_error + MetaObject" where
  "invoiceCRUD = (case Merge invoice_schema [] of Inl e \<Rightarrow> Inl e | Inr eff \<Rightarrow> NewCRUD eff)"

definition receiptCRUD :: "meta_error + MetaObject" where
  "receiptCRUD = (case Merge receipt_schema [] of Inl e \<Rightarrow> Inl e | Inr eff \<Rightarrow> NewCRUD eff)"

lemma invoicing_schemas_valid: "validate_object invoice_schema = Inr ()" "validate_object receipt_schema = Inr ()"
  by code_simp+

lemma invoiceCRUD_eq: "invoiceCRUD = Inr invoice_schema"
proof -
  have "Persistence invoice_schema = PersistenceCRUD" by (simp add: invoice_schema_def)
  then show ?thesis by (simp add: invoiceCRUD_def Merge_def invoicing_schemas_valid NewCRUD_def)
qed

lemma receiptCRUD_eq: "receiptCRUD = Inr receipt_schema"
proof -
  have "Persistence receipt_schema = PersistenceCRUD" by (simp add: receipt_schema_def)
  then show ?thesis by (simp add: receiptCRUD_def Merge_def invoicing_schemas_valid NewCRUD_def)
qed

section \<open>Lines as JSON\<close>

definition inv_line_json :: "inv_Line \<Rightarrow> json" where
  "inv_line_json l = JObj ([(''description'', JStr (il_Description l)), (''quantity'', JInt (il_Quantity l)),
       (''unit_price_minor'', JInt (il_UnitPriceMinor l)), (''revenue_account'', JStr (il_RevenueAccount l)),
       (''tax_jurisdiction'', JStr (il_TaxJurisdiction l)), (''tax_category'', JStr (il_TaxCategory l))]
     @ (if il_DescriptionI18n l = [] then []
        else [(''description_i18n'', JObj (map (\<lambda>(k, v). (k, JStr v)) (il_DescriptionI18n l)))]))"

fun dec_str_map :: "(string \<times> json) list \<Rightarrow> (string \<times> string) list option" where
  "dec_str_map [] = Some []"
| "dec_str_map ((k, j) # kvs) =
     (case dec_str (Some j) of None \<Rightarrow> None
      | Some s \<Rightarrow> (case dec_str_map kvs of None \<Rightarrow> None | Some m \<Rightarrow> Some ((k, s) # m)))"

definition dec_localized :: "json option \<Rightarrow> Localized option" where
  "dec_localized j = (case j of None \<Rightarrow> Some [] | Some JNull \<Rightarrow> Some [] | Some (JObj kvs) \<Rightarrow> dec_str_map kvs | _ \<Rightarrow> None)"

definition dec_inv_line :: "json \<Rightarrow> inv_Line option" where
  "dec_inv_line j =
     (case j of
        JObj _ \<Rightarrow>
          (case (dec_str (jfield ''description'' j), dec_int (jfield ''quantity'' j), dec_int (jfield ''unit_price_minor'' j),
                 dec_str (jfield ''revenue_account'' j), dec_str (jfield ''tax_jurisdiction'' j),
                 dec_str (jfield ''tax_category'' j), dec_localized (jfield ''description_i18n'' j)) of
             (Some d, Some q, Some p, Some r, Some tj, Some tc, Some l) \<Rightarrow>
               Some \<lparr>il_Description = d, il_Quantity = q, il_UnitPriceMinor = p, il_RevenueAccount = r,
                 il_TaxJurisdiction = tj, il_TaxCategory = tc, il_DescriptionI18n = l\<rparr>
           | _ \<Rightarrow> None)
      | JNull \<Rightarrow> Some \<lparr>il_Description = '''', il_Quantity = 0, il_UnitPriceMinor = 0, il_RevenueAccount = '''',
                   il_TaxJurisdiction = '''', il_TaxCategory = '''', il_DescriptionI18n = []\<rparr>
      | _ \<Rightarrow> None)"

fun dec_all :: "(json \<Rightarrow> 'a option) \<Rightarrow> json list \<Rightarrow> 'a list option" where
  "dec_all d [] = Some []"
| "dec_all d (j # js) =
     (case d j of None \<Rightarrow> None | Some x \<Rightarrow> (case dec_all d js of None \<Rightarrow> None | Some xs \<Rightarrow> Some (x # xs)))"

text \<open>A list field of a record: empty text is no list, \<open>null\<close> the empty one, and only the text of an array decodes.\<close>

definition dec_text :: "(json \<Rightarrow> 'a option) \<Rightarrow> val option \<Rightarrow> 'a list option" where
  "dec_text d v =
     (case v of
        Some (VText j) \<Rightarrow> Option.bind (dec_arr (Some j)) (dec_all d)
      | Some (VStr s) \<Rightarrow>
          if s = '''' \<or> rev (dropWhile json_space (rev (dropWhile json_space s))) = ''null'' then Some [] else None
      | _ \<Rightarrow> Some [])"

definition asInt64 :: "val option \<Rightarrow> int" where
  "asInt64 v = (case v of Some (VInt n) \<Rightarrow> n | _ \<Rightarrow> 0)"

definition recordToInvoice :: "Record \<Rightarrow> invoice_error + Invoice" where
  "recordToInvoice rec =
     (case dec_text dec_inv_line (map_of rec ''lines'') of None \<Rightarrow> Inl ErrDocumentDecode
      | Some ls \<Rightarrow> Inr \<lparr>iv_ID = asString (map_of rec ''id''), iv_ContactID = asString (map_of rec ''contact_id''),
          iv_Currency = asString (map_of rec ''currency''), iv_Status = asString (map_of rec ''status''),
          iv_Number = asString (map_of rec ''number''), iv_IssueDate = asString (map_of rec ''issue_date''),
          iv_ARAccount = asString (map_of rec ''ar_account''), iv_TaxAccount = asString (map_of rec ''tax_account''),
          iv_Locale = asString (map_of rec ''locale''), iv_Lines = ls, iv_NetMinor = asInt64 (map_of rec ''net_minor''),
          iv_TaxMinor = asInt64 (map_of rec ''tax_minor''), iv_GrossMinor = asInt64 (map_of rec ''gross_minor''),
          iv_GLEntryID = asString (map_of rec ''gl_entry_id''), iv_PostedAt = asString (map_of rec ''posted_at'')\<rparr>)"

section \<open>Drafts\<close>

fun validate_draft_lines :: "inv_Line list \<Rightarrow> invoice_error + unit" where
  "validate_draft_lines [] = Inr ()"
| "validate_draft_lines (l # ls) =
     (if il_RevenueAccount l = '''' then Inl ErrInvalidDraft
      else if il_Quantity l < 0 \<or> il_UnitPriceMinor l < 0 then Inl ErrInvalidDraft
      else if il_TaxJurisdiction l = '''' \<or> il_TaxCategory l = '''' then Inl ErrInvalidDraft
      else validate_draft_lines ls)"

definition validateDraft :: "inv_env \<Rightarrow> DraftInput \<Rightarrow> invoice_error + unit" where
  "validateDraft env i =
     (if di_ContactID i = '''' then Inl ErrInvalidDraft
      else
     (case Lookup (env_iso (ie_crud env)) (di_Currency i) of Inl e \<Rightarrow> Inl (InvMoney e)
      | Inr _ \<Rightarrow>
          if di_IssueDate i = '''' then Inl ErrInvalidDraft
          else if di_ARAccount i = '''' \<or> di_TaxAccount i = '''' then Inl ErrInvalidDraft
          else if di_Locale i \<noteq> '''' \<and> \<not> ie_lang env (di_Locale i) then Inl ErrInvalidDraft
          else if di_Lines i = [] then Inl ErrInvalidDraft
          else validate_draft_lines (di_Lines i)))"

definition draft_fields :: "DraftInput \<Rightarrow> Record" where
  "draft_fields i = [(''contact_id'', VStr (di_ContactID i)), (''currency'', VStr (di_Currency i)),
     (''issue_date'', VStr (di_IssueDate i)), (''ar_account'', VStr (di_ARAccount i)),
     (''tax_account'', VStr (di_TaxAccount i)), (''locale'', VStr (di_Locale i)),
     (''lines'', VText (JArr (map inv_line_json (di_Lines i))))]"

definition CreateDraft ::
  "inv_env \<Rightarrow> Actor option \<Rightarrow> int \<Rightarrow> string \<Rightarrow> string \<Rightarrow> string \<Rightarrow> DraftInput \<Rightarrow> ('x invoice_db_scheme, invoice_error, Invoice) tx" where
  "CreateDraft env ctx now fresh auid tenant i db =
     (case validateDraft env i of Inl e \<Rightarrow> (Inl e, db)
      | Inr _ \<Rightarrow>
     (case invoiceCRUD of Inl e \<Rightarrow> (Inl (InvMeta e), db)
      | Inr crud \<Rightarrow>
     (case Create (ie_crud env) ctx now fresh auid crud tenant
             (draft_fields i @ [(''status'', VStr StatusDraft), (''number'', VStr '''')]) db of
        (Inl e, db') \<Rightarrow> (Inl (InvMeta e), db')
      | (Inr out, db') \<Rightarrow> (recordToInvoice out, db'))))"

definition GetInvoice :: "Actor option \<Rightarrow> string \<Rightarrow> string \<Rightarrow> 'x invoice_db_scheme \<Rightarrow> invoice_error + Invoice" where
  "GetInvoice ctx tenant rid db =
     (case invoiceCRUD of Inl e \<Rightarrow> Inl (InvMeta e)
      | Inr crud \<Rightarrow>
     (case Get ctx crud tenant rid db of
        Inl e \<Rightarrow> Inl (if e = ErrRecordNotFound then ErrInvoiceNotFound rid else InvMeta e)
      | Inr rec \<Rightarrow> recordToInvoice rec))"

text \<open>The immutability triggers of \<open>enforcePostedImmutability\<close>: an update of a row whose stored status is
  \<open>posted\<close> fails and rolls its transaction back.\<close>

definition posted_row :: "string \<Rightarrow> string \<Rightarrow> string \<Rightarrow> 'x crud_db_scheme \<Rightarrow> bool" where
  "posted_row object tenant rid db \<longleftrightarrow>
     (\<exists>r \<in> set (obj_rows db). cr_table r = TableName object \<and> cr_tenant r = tenant \<and> cr_id r = rid \<and>
        rec_value (cr_core r) ''status'' = VStr StatusPosted)"

definition guarded :: "string \<Rightarrow> string \<Rightarrow> string \<Rightarrow> ('x crud_db_scheme, meta_error, 'a) tx \<Rightarrow> ('x crud_db_scheme, meta_error, 'a) tx" where
  "guarded object tenant rid f db =
     (case f db of
        (Inl e, _) \<Rightarrow> (Inl e, db)
      | (Inr x, db') \<Rightarrow> if posted_row object tenant rid db then (Inl ErrDatabase, db) else (Inr x, db'))"

definition UpdateDraft ::
  "inv_env \<Rightarrow> Actor option \<Rightarrow> int \<Rightarrow> string \<Rightarrow> string \<Rightarrow> string \<Rightarrow> DraftInput \<Rightarrow> ('x invoice_db_scheme, invoice_error, Invoice) tx" where
  "UpdateDraft env ctx now auid tenant rid i db =
     (case validateDraft env i of Inl e \<Rightarrow> (Inl e, db)
      | Inr _ \<Rightarrow>
     (case GetInvoice ctx tenant rid db of Inl e \<Rightarrow> (Inl e, db)
      | Inr current \<Rightarrow>
          if iv_Status current \<noteq> StatusDraft then (Inl (ErrNotDraft rid), db)
          else
         (case invoiceCRUD of Inl e \<Rightarrow> (Inl (InvMeta e), db)
          | Inr crud \<Rightarrow>
         (case guarded ''Invoice'' tenant rid (Update (ie_crud env) ctx now auid crud tenant rid (draft_fields i)) db of
            (Inl e, db') \<Rightarrow> (Inl (InvMeta e), db')
          | (Inr _, db') \<Rightarrow> (GetInvoice ctx tenant rid db', db')))))"

definition ListPosted :: "Actor option \<Rightarrow> string \<Rightarrow> 'x invoice_db_scheme \<Rightarrow> invoice_error + Invoice list" where
  "ListPosted ctx tenant db =
     (case invoiceCRUD of Inl e \<Rightarrow> Inl (InvMeta e)
      | Inr crud \<Rightarrow>
     (case List_records ctx crud tenant db of Inl e \<Rightarrow> Inl (InvMeta e)
      | Inr records \<Rightarrow>
     (case traverse recordToInvoice records of Inl e \<Rightarrow> Inl e
      | Inr invs \<Rightarrow> Inr (filter (\<lambda>v. iv_Status v = StatusPosted) invs))))"

section \<open>Numbers\<close>

text \<open>\<open>None\<close>: the counter has left 64 bits.\<close>

definition allocateNumber :: "string \<Rightarrow> string \<Rightarrow> 'x invoice_db_scheme \<Rightarrow> (int \<times> 'x invoice_db_scheme) option" where
  "allocateNumber tenant series db =
     (case map_of (number_series db) (tenant, series) of
        None \<Rightarrow> Some (1, db\<lparr>number_series := put_key (tenant, series) 2 (number_series db)\<rparr>)
      | Some n \<Rightarrow>
          if int64 (n + 1) then Some (n, db\<lparr>number_series := put_key (tenant, series) (n + 1) (number_series db)\<rparr>) else None)"

definition formatInvoiceNumber :: "int \<Rightarrow> string" where
  "formatInvoiceNumber seq = ''INV-'' @ format_pad 6 seq"

definition formatReceiptNumber :: "int \<Rightarrow> string" where
  "formatReceiptNumber seq = ''RCT-'' @ format_pad 6 seq"

section \<open>Posting an invoice\<close>

record Totals =
  tot_NetMinor :: int
  tot_TaxMinor :: int
  tot_GrossMinor :: int

fun journal_lines ::
  "string \<Rightarrow> (inv_Line \<times> LineResult) list \<Rightarrow> (string \<times> money) list \<Rightarrow> money \<Rightarrow> money \<Rightarrow> money \<Rightarrow>
     money_error + (string \<times> money) list \<times> money \<times> money \<times> money" where
  "journal_lines cur [] revs gross net tax = Inr (revs, gross, net, tax)"
| "journal_lines cur ((l, lr) # ls) revs gross net tax =
     (if currency (lr_Net lr) \<noteq> cur \<or> currency (lr_Tax lr) \<noteq> cur
      then Inl (ErrCurrencyMismatch (currency (lr_Net lr)) cur)
      else
     (case Add (case map_of revs (il_RevenueAccount l) of None \<Rightarrow> \<lparr>amount = 0, currency = currency gross\<rparr> | Some m \<Rightarrow> m)
             (lr_Net lr) of Inl e \<Rightarrow> Inl e
      | Inr s \<Rightarrow>
     (case Add gross (lr_Gross lr) of Inl e \<Rightarrow> Inl e
      | Inr gross' \<Rightarrow>
     (case Add net (lr_Net lr) of Inl e \<Rightarrow> Inl e
      | Inr net' \<Rightarrow>
     (case Add tax (lr_Tax lr) of Inl e \<Rightarrow> Inl e
      | Inr tax' \<Rightarrow> journal_lines cur ls (put_key (il_RevenueAccount l) s revs) gross' net' tax')))))"

definition credit_lines :: "(string \<times> money) list \<Rightarrow> Line list" where
  "credit_lines m = map (\<lambda>a. \<lparr>ln_AccountID = a, ln_Debit = 0, ln_Credit = amount (the (map_of m a))\<rparr>) (sort (map fst m))"

definition buildInvoiceJournal ::
  "iso_table \<Rightarrow> Invoice \<Rightarrow> LineResult list \<Rightarrow> string \<Rightarrow> string \<Rightarrow> invoice_error + PostCmd \<times> Totals" where
  "buildInvoiceJournal iso4217 v taxLines period command =
     (if length taxLines \<noteq> length (iv_Lines v) then Inl ErrTaxLineCount
      else
     (case Zero iso4217 (iv_Currency v) of Inl e \<Rightarrow> Inl (InvMoney e)
      | Inr z \<Rightarrow>
     (case journal_lines (iv_Currency v) (zip (iv_Lines v) taxLines) [] z z z of Inl e \<Rightarrow> Inl (InvMoney e)
      | Inr (revs, gross, net, tax) \<Rightarrow>
          Inr (\<lparr>pc_Period = period, pc_Currency = iv_Currency v, pc_Memo = ''invoice '' @ iv_ID v,
                pc_Lines = [\<lparr>ln_AccountID = iv_ARAccount v, ln_Debit = amount gross, ln_Credit = 0\<rparr>] @ credit_lines revs
                  @ (if Sign tax \<noteq> 0 then [\<lparr>ln_AccountID = iv_TaxAccount v, ln_Debit = 0, ln_Credit = amount tax\<rparr>] else []),
                pc_CommandID = command\<rparr>,
              \<lparr>tot_NetMinor = amount net, tot_TaxMinor = amount tax, tot_GrossMinor = amount gross\<rparr>))))"

definition resolveInvoiceTax :: "inv_env \<Rightarrow> 'x invoice_db_scheme \<Rightarrow> string \<Rightarrow> Invoice \<Rightarrow> invoice_error + LineResult list" where
  "resolveInvoiceTax env db tenant v =
     (case parse_date (iv_IssueDate v) of None \<Rightarrow> Inl ErrIssueDate
      | Some d \<Rightarrow>
     (case traverse (\<lambda>l. case New (env_iso (ie_crud env)) (netMinor l) (iv_Currency v) of Inl e \<Rightarrow> Inl e
             | Inr base \<Rightarrow> Inr \<lparr>dl_Jurisdiction = il_TaxJurisdiction l, dl_Category = il_TaxCategory l, dl_Base = base,
                 dl_Inclusive = False\<rparr>) (iv_Lines v) of
        Inl e \<Rightarrow> Inl (InvMoney e)
      | Inr docLines \<Rightarrow>
     (case ResolveAndCalculate (env_iso (ie_crud env)) (ie_rat env) (tax_rates db) tenant docLines ((d - 719528) * day_ns) of
        Inl e \<Rightarrow> Inl (InvTax e)
      | Inr res \<Rightarrow> Inr (res_Lines res))))"

text \<open>The acceptance transaction of a document: a number, then the update of the row that is still a draft, then the
  audit row. \<open>check\<close> is what runs before the number is taken.\<close>

definition recordPostAudit :: "int \<Rightarrow> string \<Rightarrow> string \<Rightarrow> string \<Rightarrow> string \<Rightarrow> val \<Rightarrow> string \<Rightarrow> 'x crud_db_scheme \<Rightarrow> 'x crud_db_scheme" where
  "recordPostAudit now auid tenant object rid changes actor db =
     db\<lparr>audit_log := audit_log db @ [\<lparr>au_id = auid, au_tenant = tenant, au_object = object, au_record = rid,
        au_action = ''post'', au_changes = changes, au_actor = actor, au_at = now\<rparr>]\<rparr>"

definition is_draft_row :: "MetaObject \<Rightarrow> string \<Rightarrow> string \<Rightarrow> crud_row \<Rightarrow> bool" where
  "is_draft_row schema tenant rid r \<longleftrightarrow> cr_table r = TableName (ObjectName schema) \<and> cr_tenant r = tenant \<and> cr_id r = rid \<and>
     rec_value (cr_core r) ''status'' = VStr StatusDraft"

definition accept_document ::
  "crud_env \<Rightarrow> int \<Rightarrow> string \<Rightarrow> string \<Rightarrow> MetaObject \<Rightarrow> string \<Rightarrow> string \<Rightarrow> (int \<Rightarrow> string) \<Rightarrow> Record \<Rightarrow> string \<Rightarrow>
     ('x invoice_db_scheme, invoice_error, unit) tx" where
  "accept_document env now auid tenant schema series rid number sets actor db =
     (case allocateNumber tenant series db of None \<Rightarrow> (Inl ErrInvoicingDatabase, db)
      | Some (seq, db1) \<Rightarrow>
          let new = [(''status'', VStr StatusPosted), (''number'', VStr (number seq))] @ sets
                 @ [(''posted_at'', VStr (format_rfc3339 (now - now mod second_ns)))]
          in
         (case write_columns env new (touched new (core_fields schema)) of None \<Rightarrow> (Inl ErrInvoicingDatabase, db)
          | Some cols \<Rightarrow>
              if length (filter (is_draft_row schema tenant rid) (obj_rows db1)) \<noteq> 1 then (Inl (ErrNotDraft rid), db)
              else
                (Inr (), recordPostAudit now auid tenant (ObjectName schema) rid
                   (VMap [(''status'', VStr StatusPosted), (''number'', VStr (number seq)),
                      (''gl_entry_id'', rec_value sets ''gl_entry_id'')]) actor
                   (db1\<lparr>obj_rows := map (\<lambda>r. if is_draft_row schema tenant rid r
                       then r\<lparr>cr_core := put_all cols (cr_core r), cr_updated := now\<rparr> else r) (obj_rows db1)\<rparr>))))"

definition PostInvoice ::
  "inv_env \<Rightarrow> Actor option \<Rightarrow> int \<Rightarrow> string \<Rightarrow> string \<Rightarrow> string \<Rightarrow> string \<Rightarrow> string \<Rightarrow>
     ('x invoice_db_scheme, invoice_error, Invoice) tx" where
  "PostInvoice env ctx now fresh auid tenant rid period db =
     (case GetInvoice ctx tenant rid db of Inl e \<Rightarrow> (Inl e, db)
      | Inr v \<Rightarrow>
          if iv_Status v \<noteq> StatusDraft then (Inl (ErrNotDraft rid), db)
          else
         (case Authorize db ctx ''Invoice'' ''post'' of Inl e \<Rightarrow> (Inl (InvAuthz e), db)
          | Inr actor \<Rightarrow>
         (case resolveInvoiceTax env db tenant v of Inl e \<Rightarrow> (Inl e, db)
          | Inr taxLines \<Rightarrow>
         (case buildInvoiceJournal (env_iso (ie_crud env)) v taxLines period (''invoice-post-'' @ iv_ID v) of Inl e \<Rightarrow> (Inl e, db)
          | Inr (cmd, totals) \<Rightarrow>
         (case Post (ie_crud env) ctx now fresh tenant cmd db of (Inl e, db1) \<Rightarrow> (Inl (InvLedger e), db1)
          | (Inr entry, db1) \<Rightarrow>
         (case accept_document (ie_crud env) now auid tenant invoice_schema ''invoice'' (iv_ID v) formatInvoiceNumber
                 [(''net_minor'', VInt (tot_NetMinor totals)), (''tax_minor'', VInt (tot_TaxMinor totals)),
                  (''gross_minor'', VInt (tot_GrossMinor totals)), (''gl_entry_id'', VStr (en_ID entry))]
                 (UserID actor) db1 of
            (Inl e, _) \<Rightarrow> (Inl e, db1)
          | (Inr _, db2) \<Rightarrow> (GetInvoice ctx tenant rid db2, db2)))))))"

end
