(* ===== verification/Receipts.thy ===== *)
theory Receipts
  imports Invoicing
begin

text \<open>
  Customer receipts (\<open>receipt.go\<close>, \<open>receipt_post.go\<close>) and the settlement of invoices derived from them
  (\<open>settlement.go\<close>). A receipt applies amounts to posted invoices; posting one books the money, checks that no invoice
  is settled beyond its gross (INV-F8) and numbers the receipt.
\<close>

record Application =
  ap_InvoiceID :: string
  ap_AmountMinor :: int

record ReceiptInput =
  ri_ContactID :: string
  ri_Currency :: string
  ri_ReceivedDate :: string
  ri_BankAccount :: string
  ri_Applications :: "Application list"

record Receipt =
  rc_ID :: string
  rc_ContactID :: string
  rc_Currency :: string
  rc_Status :: string
  rc_Number :: string
  rc_ReceivedDate :: string
  rc_BankAccount :: string
  rc_Applications :: "Application list"
  rc_TotalMinor :: int
  rc_GLEntryID :: string
  rc_PostedAt :: string

definition application_json :: "Application \<Rightarrow> json" where
  "application_json a = JObj [(''invoice_id'', JStr (ap_InvoiceID a)), (''amount_minor'', JInt (ap_AmountMinor a))]"

definition dec_application :: "json \<Rightarrow> Application option" where
  "dec_application j =
     (case j of
        JObj _ \<Rightarrow>
          (case (dec_str (jfield ''invoice_id'' j), dec_int (jfield ''amount_minor'' j)) of
             (Some i, Some n) \<Rightarrow> Some \<lparr>ap_InvoiceID = i, ap_AmountMinor = n\<rparr> | _ \<Rightarrow> None)
      | JNull \<Rightarrow> Some \<lparr>ap_InvoiceID = '''', ap_AmountMinor = 0\<rparr>
      | _ \<Rightarrow> None)"

definition recordToReceipt :: "Record \<Rightarrow> invoice_error + Receipt" where
  "recordToReceipt rec =
     (case dec_text dec_application (map_of rec ''applications'') of None \<Rightarrow> Inl ErrDocumentDecode
      | Some apps \<Rightarrow> Inr \<lparr>rc_ID = asString (map_of rec ''id''), rc_ContactID = asString (map_of rec ''contact_id''),
          rc_Currency = asString (map_of rec ''currency''), rc_Status = asString (map_of rec ''status''),
          rc_Number = asString (map_of rec ''number''), rc_ReceivedDate = asString (map_of rec ''received_date''),
          rc_BankAccount = asString (map_of rec ''bank_account''), rc_Applications = apps,
          rc_TotalMinor = asInt64 (map_of rec ''total_minor''), rc_GLEntryID = asString (map_of rec ''gl_entry_id''),
          rc_PostedAt = asString (map_of rec ''posted_at'')\<rparr>)"

section \<open>Drafts\<close>

fun validate_applications :: "Application list \<Rightarrow> string set \<Rightarrow> invoice_error + unit" where
  "validate_applications [] seen = Inr ()"
| "validate_applications (a # as) seen =
     (if ap_InvoiceID a = '''' then Inl ErrInvalidReceipt
      else if ap_InvoiceID a \<in> seen then Inl ErrInvalidReceipt
      else if ap_AmountMinor a \<le> 0 then Inl ErrInvalidReceipt
      else validate_applications as (insert (ap_InvoiceID a) seen))"

definition validateReceipt :: "inv_env \<Rightarrow> ReceiptInput \<Rightarrow> invoice_error + unit" where
  "validateReceipt env i =
     (if ri_ContactID i = '''' then Inl ErrInvalidReceipt
      else
     (case Lookup (env_iso (ie_crud env)) (ri_Currency i) of Inl e \<Rightarrow> Inl (InvMoney e)
      | Inr _ \<Rightarrow>
          if ri_ReceivedDate i = '''' then Inl ErrInvalidReceipt
          else if ri_BankAccount i = '''' then Inl ErrInvalidReceipt
          else if ri_Applications i = [] then Inl ErrInvalidReceipt
          else validate_applications (ri_Applications i) {}))"

definition receipt_fields :: "ReceiptInput \<Rightarrow> Record" where
  "receipt_fields i = [(''contact_id'', VStr (ri_ContactID i)), (''currency'', VStr (ri_Currency i)),
     (''received_date'', VStr (ri_ReceivedDate i)), (''bank_account'', VStr (ri_BankAccount i)),
     (''applications'', VText (JArr (map application_json (ri_Applications i))))]"

definition CreateReceiptDraft ::
  "inv_env \<Rightarrow> Actor option \<Rightarrow> int \<Rightarrow> string \<Rightarrow> string \<Rightarrow> string \<Rightarrow> ReceiptInput \<Rightarrow> ('x invoice_db_scheme, invoice_error, Receipt) tx" where
  "CreateReceiptDraft env ctx now fresh auid tenant i db =
     (case validateReceipt env i of Inl e \<Rightarrow> (Inl e, db)
      | Inr _ \<Rightarrow>
     (case receiptCRUD of Inl e \<Rightarrow> (Inl (InvMeta e), db)
      | Inr crud \<Rightarrow>
     (case Create (ie_crud env) ctx now fresh auid crud tenant
             (receipt_fields i @ [(''status'', VStr StatusDraft), (''number'', VStr '''')]) db of
        (Inl e, db') \<Rightarrow> (Inl (InvMeta e), db')
      | (Inr out, db') \<Rightarrow> (recordToReceipt out, db'))))"

definition GetReceipt :: "Actor option \<Rightarrow> string \<Rightarrow> string \<Rightarrow> 'x invoice_db_scheme \<Rightarrow> invoice_error + Receipt" where
  "GetReceipt ctx tenant rid db =
     (case receiptCRUD of Inl e \<Rightarrow> Inl (InvMeta e)
      | Inr crud \<Rightarrow>
     (case Get ctx crud tenant rid db of
        Inl e \<Rightarrow> Inl (if e = ErrRecordNotFound then ErrReceiptNotFound rid else InvMeta e)
      | Inr rec \<Rightarrow> recordToReceipt rec))"

definition UpdateReceiptDraft ::
  "inv_env \<Rightarrow> Actor option \<Rightarrow> int \<Rightarrow> string \<Rightarrow> string \<Rightarrow> string \<Rightarrow> ReceiptInput \<Rightarrow> ('x invoice_db_scheme, invoice_error, Receipt) tx" where
  "UpdateReceiptDraft env ctx now auid tenant rid i db =
     (case validateReceipt env i of Inl e \<Rightarrow> (Inl e, db)
      | Inr _ \<Rightarrow>
     (case GetReceipt ctx tenant rid db of Inl e \<Rightarrow> (Inl e, db)
      | Inr current \<Rightarrow>
          if rc_Status current \<noteq> StatusDraft then (Inl (ErrNotDraft rid), db)
          else
         (case receiptCRUD of Inl e \<Rightarrow> (Inl (InvMeta e), db)
          | Inr crud \<Rightarrow>
         (case guarded ''Receipt'' tenant rid (Update (ie_crud env) ctx now auid crud tenant rid (receipt_fields i)) db of
            (Inl e, db') \<Rightarrow> (Inl (InvMeta e), db')
          | (Inr _, db') \<Rightarrow> (GetReceipt ctx tenant rid db', db')))))"

section \<open>What is applied to an invoice\<close>

definition applications_of :: "crud_row \<Rightarrow> Application list option" where
  "applications_of row = dec_text dec_application (Some (rec_value (cr_core row) ''applications''))"

definition posted_receipts :: "'x crud_db_scheme \<Rightarrow> string \<Rightarrow> crud_row list" where
  "posted_receipts db tenant =
     filter (\<lambda>r. cr_table r = TableName ''Receipt'' \<and> cr_tenant r = tenant \<and>
         rec_value (cr_core r) ''status'' = VStr StatusPosted \<and> cr_archived r = None) (obj_rows db)"

definition applied_amounts :: "string \<Rightarrow> Application list \<Rightarrow> int list" where
  "applied_amounts invoice apps = map ap_AmountMinor (filter (\<lambda>a. ap_InvoiceID a = invoice) apps)"

text \<open>The sum wraps; a list that does not decode is an error.\<close>

fun applied_rows :: "string \<Rightarrow> string \<Rightarrow> crud_row list \<Rightarrow> int \<Rightarrow> invoice_error + int" where
  "applied_rows invoice exclude [] acc = Inr acc"
| "applied_rows invoice exclude (r # rs) acc =
     (if cr_id r = exclude then applied_rows invoice exclude rs acc
      else
     (case applications_of r of None \<Rightarrow> Inl ErrDocumentDecode
      | Some apps \<Rightarrow> applied_rows invoice exclude rs (foldl (\<lambda>t n. i64 (t + n)) acc (applied_amounts invoice apps))))"

definition appliedToInvoiceTx :: "'x crud_db_scheme \<Rightarrow> string \<Rightarrow> string \<Rightarrow> string \<Rightarrow> invoice_error + int" where
  "appliedToInvoiceTx db tenant invoice exclude = applied_rows invoice exclude (posted_receipts db tenant) 0"

definition AppliedToInvoice :: "'x crud_db_scheme \<Rightarrow> string \<Rightarrow> string \<Rightarrow> invoice_error + int" where
  "AppliedToInvoice db tenant invoice = appliedToInvoiceTx db tenant invoice ''''"

definition SettlementOpen :: string where "SettlementOpen = ''open''"

definition SettlementPartial :: string where "SettlementPartial = ''partial''"

definition SettlementPaid :: string where "SettlementPaid = ''paid''"

definition settlementStatus :: "int \<Rightarrow> int \<Rightarrow> string" where
  "settlementStatus gross settled =
     (if settled \<le> 0 then SettlementOpen else if gross \<le> settled then SettlementPaid else SettlementPartial)"

record Settlement =
  st_InvoiceID :: string
  st_GrossMinor :: int
  st_SettledMinor :: int
  st_OutstandingMinor :: int
  st_Status :: string

definition SettlementFor :: "'x crud_db_scheme \<Rightarrow> string \<Rightarrow> Invoice \<Rightarrow> invoice_error + Settlement" where
  "SettlementFor db tenant v =
     (case (if iv_Status v = StatusPosted then AppliedToInvoice db tenant (iv_ID v) else Inr 0) of Inl e \<Rightarrow> Inl e
      | Inr settled \<Rightarrow> Inr \<lparr>st_InvoiceID = iv_ID v, st_GrossMinor = iv_GrossMinor v, st_SettledMinor = settled,
          st_OutstandingMinor = i64 (iv_GrossMinor v - settled), st_Status = settlementStatus (iv_GrossMinor v) settled\<rparr>)"

fun check_applications :: "'x crud_db_scheme \<Rightarrow> string \<Rightarrow> string \<Rightarrow> Application list \<Rightarrow> invoice_error + unit" where
  "check_applications db tenant rid [] = Inr ()"
| "check_applications db tenant rid (a # as) =
     (case List.find (\<lambda>r. cr_table r = TableName ''Invoice'' \<and> cr_tenant r = tenant \<and> cr_id r = ap_InvoiceID a) (obj_rows db) of
        None \<Rightarrow> Inl (ErrInvoiceNotFound (ap_InvoiceID a))
      | Some row \<Rightarrow>
     (case rec_value (cr_core row) ''gross_minor'' of
        VInt gross \<Rightarrow>
          (case appliedToInvoiceTx db tenant (ap_InvoiceID a) rid of Inl e \<Rightarrow> Inl e
           | Inr applied \<Rightarrow>
               if i64 (applied + ap_AmountMinor a) > gross then Inl (ErrOverApplied (ap_InvoiceID a))
               else check_applications db tenant rid as)
      | _ \<Rightarrow> Inl ErrInvoicingDatabase))"

definition checkNotOverApplied :: "'x crud_db_scheme \<Rightarrow> string \<Rightarrow> Receipt \<Rightarrow> invoice_error + unit" where
  "checkNotOverApplied db tenant r = check_applications db tenant (rc_ID r) (rc_Applications r)"

section \<open>Posting a receipt\<close>

fun receipt_lines ::
  "iso_table \<Rightarrow> string \<Rightarrow> (string \<times> string) list \<Rightarrow> Application list \<Rightarrow> (string \<times> money) list \<Rightarrow> money \<Rightarrow>
     invoice_error + (string \<times> money) list \<times> money" where
  "receipt_lines iso4217 cur ars [] accounts acc = Inr (accounts, acc)"
| "receipt_lines iso4217 cur ars (a # as) accounts acc =
     (case map_of ars (ap_InvoiceID a) of None \<Rightarrow> Inl (ErrNoARAccount (ap_InvoiceID a))
      | Some account \<Rightarrow>
          if account = '''' then Inl (ErrNoARAccount (ap_InvoiceID a))
          else
         (case New iso4217 (ap_AmountMinor a) cur of Inl e \<Rightarrow> Inl (InvMoney e)
          | Inr amt \<Rightarrow>
         (case Add (case map_of accounts account of None \<Rightarrow> \<lparr>amount = 0, currency = currency acc\<rparr> | Some m \<Rightarrow> m) amt of
            Inl e \<Rightarrow> Inl (InvMoney e)
          | Inr s \<Rightarrow>
         (case Add acc amt of Inl e \<Rightarrow> Inl (InvMoney e)
          | Inr acc' \<Rightarrow> receipt_lines iso4217 cur ars as (put_key account s accounts) acc'))))"

definition buildReceiptJournal ::
  "iso_table \<Rightarrow> Receipt \<Rightarrow> (string \<times> string) list \<Rightarrow> string \<Rightarrow> string \<Rightarrow> invoice_error + PostCmd \<times> int" where
  "buildReceiptJournal iso4217 r ars period command =
     (case Zero iso4217 (rc_Currency r) of Inl e \<Rightarrow> Inl (InvMoney e)
      | Inr z \<Rightarrow>
     (case receipt_lines iso4217 (rc_Currency r) ars (rc_Applications r) [] z of Inl e \<Rightarrow> Inl e
      | Inr (accounts, acc) \<Rightarrow>
          if Sign acc \<le> 0 then Inl ErrReceiptTotal
          else Inr (\<lparr>pc_Period = period, pc_Currency = rc_Currency r, pc_Memo = ''receipt '' @ rc_ID r,
                  pc_Lines = \<lparr>ln_AccountID = rc_BankAccount r, ln_Debit = amount acc, ln_Credit = 0\<rparr> # credit_lines accounts,
                  pc_CommandID = command\<rparr>, amount acc)))"

fun load_applied ::
  "Actor option \<Rightarrow> string \<Rightarrow> string \<Rightarrow> 'x invoice_db_scheme \<Rightarrow> Application list \<Rightarrow> (string \<times> string) list \<Rightarrow>
     invoice_error + (string \<times> string) list" where
  "load_applied ctx tenant cur db [] ars = Inr ars"
| "load_applied ctx tenant cur db (a # as) ars =
     (case GetInvoice ctx tenant (ap_InvoiceID a) db of Inl e \<Rightarrow> Inl e
      | Inr v \<Rightarrow>
          if iv_Status v \<noteq> StatusPosted then Inl (ErrNotPosted (ap_InvoiceID a))
          else if iv_Currency v \<noteq> cur then Inl (InvMoney (ErrCurrencyMismatch cur (iv_Currency v)))
          else load_applied ctx tenant cur db as (put_key (ap_InvoiceID a) (iv_ARAccount v) ars))"

definition PostReceipt ::
  "inv_env \<Rightarrow> Actor option \<Rightarrow> int \<Rightarrow> string \<Rightarrow> string \<Rightarrow> string \<Rightarrow> string \<Rightarrow> string \<Rightarrow>
     ('x invoice_db_scheme, invoice_error, Receipt) tx" where
  "PostReceipt env ctx now fresh auid tenant rid period db =
     (case GetReceipt ctx tenant rid db of Inl e \<Rightarrow> (Inl e, db)
      | Inr r \<Rightarrow>
          if rc_Status r \<noteq> StatusDraft then (Inl (ErrNotDraft rid), db)
          else
         (case Authorize db ctx ''Receipt'' ''post'' of Inl e \<Rightarrow> (Inl (InvAuthz e), db)
          | Inr actor \<Rightarrow>
         (case load_applied ctx tenant (rc_Currency r) db (rc_Applications r) [] of Inl e \<Rightarrow> (Inl e, db)
          | Inr ars \<Rightarrow>
         (case buildReceiptJournal (env_iso (ie_crud env)) r ars period (''receipt-post-'' @ rc_ID r) of Inl e \<Rightarrow> (Inl e, db)
          | Inr (cmd, acc) \<Rightarrow>
         (case Post (ie_crud env) ctx now fresh tenant cmd db of (Inl e, db1) \<Rightarrow> (Inl (InvLedger e), db1)
          | (Inr entry, db1) \<Rightarrow>
         (case checkNotOverApplied db1 tenant r of Inl e \<Rightarrow> (Inl e, db1)
          | Inr _ \<Rightarrow>
         (case accept_document (ie_crud env) now auid tenant receipt_schema ''receipt'' (rc_ID r) formatReceiptNumber
                 [(''total_minor'', VInt acc), (''gl_entry_id'', VStr (en_ID entry))] (UserID actor) db1 of
            (Inl e, _) \<Rightarrow> (Inl e, db1)
          | (Inr _, db2) \<Rightarrow> (GetReceipt ctx tenant rid db2, db2))))))))"

end
