(* ===== verification/InvoicingFacts.thy ===== *)
theory InvoicingFacts
  imports Receipts LedgerPosting
begin

text \<open>What the invoicing module guarantees: balanced journals (INV-F1, INV-F5), gapless numbers (INV-F6), frozen
  posted documents (INV-F2) and no over-application (INV-F8).\<close>

section \<open>Journals\<close>

text \<open>The total of the accounts credited.\<close>

definition credited :: "(string \<times> money) list \<Rightarrow> int" where
  "credited m = sum_list (map (amount \<circ> snd) m)"

lemma credited_put_key:
  "distinct (map fst m) \<Longrightarrow> credited (put_key k v m) =
     credited m + amount v - (case map_of m k of None \<Rightarrow> 0 | Some w \<Rightarrow> amount w)"
proof (induction m)
  case (Cons x m)
  then show ?case by (cases x) (auto simp: credited_def map_of_eq_None_iff split: option.splits)
qed (simp add: credited_def)

lemma credit_lines_credits:
  assumes "distinct (map fst m)"
  shows "credits (credit_lines m) = credited m" "debits (credit_lines m) = 0"
proof -
  let ?f = "\<lambda>a. amount (the (map_of m a))"
  have "mset (sort (map fst m)) = mset (map fst m)" by simp
  then have "mset (map ?f (sort (map fst m))) = mset (map ?f (map fst m))" by (metis mset_map)
  then have "sum_list (map ?f (sort (map fst m))) = sum_list (map ?f (map fst m))" by (metis sum_mset_sum_list)
  also have "map ?f (map fst m) = map (amount \<circ> snd) m" using assms by (auto simp: map_of_eq_Some_iff)
  finally show "credits (credit_lines m) = credited m"
    by (simp add: credits_def credit_lines_def comp_def credited_def)
  have "map (\<lambda>a. 0 :: int) xs = replicate (length xs) 0" for xs :: "string list" by (simp add: map_replicate_const)
  then show "debits (credit_lines m) = 0" by (simp add: debits_def credit_lines_def comp_def sum_list_replicate)
qed

lemma debits_simps [simp]:
  "debits [] = 0" "debits (l # ls) = ln_Debit l + debits ls" "debits (ls @ ls') = debits ls + debits ls'"
  "credits [] = 0" "credits (l # ls) = ln_Credit l + credits ls" "credits (ls @ ls') = credits ls + credits ls'"
  by (simp_all add: debits_def credits_def)

text \<open>A tax result whose gross is net plus tax.\<close>

definition result_sums :: "LineResult \<Rightarrow> bool" where
  "result_sums lr \<longleftrightarrow> amount (lr_Gross lr) = i64 (amount (lr_Net lr) + amount (lr_Tax lr))"

lemma i64_diff_cong:
  assumes "i64 a = i64 a'" "i64 b = i64 b'"
  shows "i64 (a + b) = i64 (a' + b')"
  by (metis assms i64_add_left i64_add_right)

lemma journal_lines_sums:
  assumes "journal_lines cur ls revs gross net tax = Inr (revs', gross', net', tax')" "distinct (map fst revs)"
    "\<forall>(l, lr) \<in> set ls. result_sums lr" "i64 (amount gross) = i64 (amount net + amount tax)"
    "i64 (credited revs) = i64 (amount net)"
  shows "distinct (map fst revs') \<and> i64 (amount gross') = i64 (amount net' + amount tax') \<and>
     i64 (credited revs') = i64 (amount net')"
  using assms
proof (induction cur ls revs gross net tax rule: journal_lines.induct)
  case (2 cur l lr ls revs gross net tax)
  let ?old = "case map_of revs (il_RevenueAccount l) of None \<Rightarrow> \<lparr>amount = 0, currency = currency gross\<rparr> | Some m \<Rightarrow> m"
  from "2.prems"(1) obtain s g n t where st: "\<not> (currency (lr_Net lr) \<noteq> cur \<or> currency (lr_Tax lr) \<noteq> cur)"
    "Add ?old (lr_Net lr) = Inr s" "Add gross (lr_Gross lr) = Inr g" "Add net (lr_Net lr) = Inr n" "Add tax (lr_Tax lr) = Inr t"
    "journal_lines cur ls (put_key (il_RevenueAccount l) s revs) g n t = Inr (revs', gross', net', tax')"
    by (auto split: if_splits sum.splits)
  have am: "amount s = i64 (amount ?old + amount (lr_Net lr))" "amount g = i64 (amount gross + amount (lr_Gross lr))"
    "amount n = i64 (amount net + amount (lr_Net lr))" "amount t = i64 (amount tax + amount (lr_Tax lr))"
    using st(2-5) by (auto simp: Add_Inr_iff)
  have lr: "amount (lr_Gross lr) = i64 (amount (lr_Net lr) + amount (lr_Tax lr))" using "2.prems"(3) by (simp add: result_sums_def)
  have "i64 (amount g) = i64 (amount gross + (amount (lr_Net lr) + amount (lr_Tax lr)))"
    unfolding am(2) lr i64_add_right by simp
  also have "\<dots> = i64 ((amount net + amount tax) + (amount (lr_Net lr) + amount (lr_Tax lr)))"
    by (rule i64_diff_cong [OF "2.prems"(4) refl])
  also have "\<dots> = i64 ((amount net + amount (lr_Net lr)) + (amount tax + amount (lr_Tax lr)))" by (simp add: algebra_simps)
  also have "\<dots> = i64 (amount n + amount t)" unfolding am(3,4) by (simp add: i64_add_left i64_add_right)
  finally have g: "i64 (amount g) = i64 (amount n + amount t)" .
  have e: "credited (put_key (il_RevenueAccount l) s revs) = credited revs + amount s - amount ?old"
    using credited_put_key [OF "2.prems"(2), of "il_RevenueAccount l" s] by (simp split: option.split)
  have "i64 (credited (put_key (il_RevenueAccount l) s revs)) = i64 (amount s + (credited revs - amount ?old))"
    unfolding e by (simp add: algebra_simps)
  also have "\<dots> = i64 (amount (lr_Net lr) + credited revs)" unfolding am(1) i64_add_left by (simp add: algebra_simps)
  also have "\<dots> = i64 (amount (lr_Net lr) + amount net)" by (rule i64_diff_cong [OF refl "2.prems"(5)])
  also have "\<dots> = i64 (amount n)" unfolding am(3) by (simp add: add.commute)
  finally have c: "i64 (credited (put_key (il_RevenueAccount l) s revs)) = i64 (amount n)" .
  show ?case
    by (rule "2.IH" [OF st(1-5) st(6) put_key_distinct [OF "2.prems"(2)] _ g c]) (use "2.prems"(3) in simp)
qed simp


lemma calc_lines_results:
  "calc_lines iso4217 i ls res gs = Inr (res', gs') \<Longrightarrow> \<exists>rs. res' = res @ rs \<and> list_all2 (\<lambda>l r. calcLine l = Inr r) ls rs"
proof (induction iso4217 i ls res gs rule: calc_lines.induct)
  case (2 iso4217 i line lines res groups)
  then obtain lr net tax where st: "calcLine line = Inr lr"
      "Add (tt_Net (group_of iso4217 line lr groups)) (lr_Net lr) = Inr net"
      "Add (tt_Tax (group_of iso4217 line lr groups)) (lr_Tax lr) = Inr tax"
      "calc_lines iso4217 (i + 1) lines (res @ [lr])
         (put_group ((group_of iso4217 line lr groups)\<lparr>tt_Net := net, tt_Tax := tax\<rparr>) groups) = Inr (res', gs')"
    by (auto simp: Let_def split: sum.splits)
  from "2.IH" [OF st(1) refl st(2,3,4)] obtain rs where "res' = (res @ [lr]) @ rs" "list_all2 (\<lambda>l r. calcLine l = Inr r) lines rs"
    by blast
  with st(1) show ?case by (intro exI [of _ "lr # rs"]) simp
qed simp

text \<open>What the tax engine returns for an invoice: one result per line, whose net is the line's amount and whose
  gross is net plus tax.\<close>

definition line_result :: "inv_Line \<Rightarrow> LineResult \<Rightarrow> bool" where
  "line_result l lr \<longleftrightarrow> amount (lr_Net lr) = netMinor l \<and> result_sums lr"

lemma resolveInvoiceTax_results:
  assumes "resolveInvoiceTax env db tenant v = Inr trs"
  shows "list_all2 line_result (iv_Lines v) trs"
proof -
  let ?doc = "\<lambda>l. case New (env_iso (ie_crud env)) (netMinor l) (iv_Currency v) of Inl e \<Rightarrow> Inl e
             | Inr base \<Rightarrow> Inr \<lparr>dl_Jurisdiction = il_TaxJurisdiction l, dl_Category = il_TaxCategory l, dl_Base = base,
                 dl_Inclusive = False\<rparr>"
  from assms obtain d docs resolved res where s:
    "traverse ?doc (iv_Lines v) = Inr docs"
    "traverse (resolve_line (ie_rat env) (tax_rates db) tenant ((d - 719528) * day_ns)) docs = Inr resolved"
    "Calculate (env_iso (ie_crud env)) resolved = Inr res" "trs = res_Lines res"
    by (auto simp: resolveInvoiceTax_def ResolveAndCalculate_def split: option.splits sum.splits)
  have r: "list_all2 (\<lambda>l r. calcLine l = Inr r) resolved trs"
    using s(3,4) calc_lines_results [of _ 0 resolved "[]" "[]"] by (auto simp: Calculate_def split: sum.splits)
  have "list_all2 (\<lambda>l d. \<not> dl_Inclusive d \<and> amount (dl_Base d) = netMinor l) (iv_Lines v) docs"
    using s(1) unfolding traverse_Inr_iff
    by (rule list_all2_mono) (auto simp: New_def split: sum.splits)
  moreover have "list_all2 (\<lambda>d t. tl_Base t = dl_Base d \<and> tl_Inclusive t = dl_Inclusive d) docs resolved"
    using s(2) unfolding traverse_Inr_iff
    by (rule list_all2_mono) (auto simp: resolve_line_def split: sum.splits)
  ultimately have "list_all2 (\<lambda>l t. \<not> tl_Inclusive t \<and> amount (tl_Base t) = netMinor l) (iv_Lines v) resolved"
    by (rule list_all2_trans [rotated 1]) auto
  from this r show ?thesis
    by (rule list_all2_trans [rotated 1]) (auto simp: line_result_def result_sums_def dest: calcLine_exclusive)
qed

lemma net_acc:
  assumes "journal_lines cur ls revs gross net tax = Inr (revs', gross', net', tax')"
  shows "i64 (amount net') = i64 (amount net + sum_list (map (\<lambda>(l, lr). amount (lr_Net lr)) ls))"
  using assms
proof (induction cur ls revs gross net tax rule: journal_lines.induct)
  case (2 cur l lr ls revs gross net tax)
  let ?old = "case map_of revs (il_RevenueAccount l) of None \<Rightarrow> \<lparr>amount = 0, currency = currency gross\<rparr> | Some m \<Rightarrow> m"
  from "2.prems" obtain s g n t where st: "\<not> (currency (lr_Net lr) \<noteq> cur \<or> currency (lr_Tax lr) \<noteq> cur)"
    "Add ?old (lr_Net lr) = Inr s" "Add gross (lr_Gross lr) = Inr g" "Add net (lr_Net lr) = Inr n" "Add tax (lr_Tax lr) = Inr t"
    "journal_lines cur ls (put_key (il_RevenueAccount l) s revs) g n t = Inr (revs', gross', net', tax')"
    by (auto split: if_splits sum.splits)
  have "amount n = i64 (amount net + amount (lr_Net lr))" using st(4) by (simp add: Add_Inr_iff)
  with "2.IH" [OF st(1-6)] show ?case by (simp add: i64_add_left add.assoc)
qed simp

text \<open>C7: an invoice reaches the ledger as a balanced entry (INV-F1, INV-F5): the journal built from the resolved
  tax debits the receivable with the gross total and credits revenue and tax with as much, the gross is net plus
  tax, and the net is the sum of quantity times price over the lines (all in the 64-bit arithmetic of the code).\<close>

theorem invoice_journal_balanced:
  assumes "resolveInvoiceTax env db tenant v = Inr taxLines"
    "buildInvoiceJournal (env_iso (ie_crud env)) v taxLines period command = Inr (cmd, totals)"
  shows "i64 (debits (pc_Lines cmd)) = i64 (credits (pc_Lines cmd)) \<and>
    debits (pc_Lines cmd) = tot_GrossMinor totals \<and>
    i64 (tot_GrossMinor totals) = i64 (tot_NetMinor totals + tot_TaxMinor totals) \<and>
    i64 (tot_NetMinor totals) = i64 (sum_list (map (\<lambda>l. il_UnitPriceMinor l * il_Quantity l) (iv_Lines v)))"
proof -
  note lr = resolveInvoiceTax_results [OF assms(1)]
  from assms(2) obtain z revs gross net tax where b: "Zero (env_iso (ie_crud env)) (iv_Currency v) = Inr z"
    "journal_lines (iv_Currency v) (zip (iv_Lines v) taxLines) [] z z z = Inr (revs, gross, net, tax)"
    "pc_Lines cmd = [\<lparr>ln_AccountID = iv_ARAccount v, ln_Debit = amount gross, ln_Credit = 0\<rparr>] @ credit_lines revs
       @ (if Sign tax \<noteq> 0 then [\<lparr>ln_AccountID = iv_TaxAccount v, ln_Debit = 0, ln_Credit = amount tax\<rparr>] else [])"
    "totals = \<lparr>tot_NetMinor = amount net, tot_TaxMinor = amount tax, tot_GrossMinor = amount gross\<rparr>"
    by (auto simp: buildInvoiceJournal_def split: if_splits sum.splits)
  have z: "amount z = 0" using b(1) by (auto simp: Zero_def New_def split: sum.splits)
  have sums: "\<forall>(l, r) \<in> set (zip (iv_Lines v) taxLines). result_sums r"
    using lr by (auto simp: list_all2_iff line_result_def)
  have j: "distinct (map fst revs)" "i64 (amount gross) = i64 (amount net + amount tax)" "i64 (credited revs) = i64 (amount net)"
    using journal_lines_sums [OF b(2) _ sums] z by (simp_all add: credited_def)
  have tax: "(if Sign tax \<noteq> 0 then amount tax else 0) = amount tax" by (simp add: Sign_def)
  have cr: "credits (pc_Lines cmd) = credited revs + amount tax" and de: "debits (pc_Lines cmd) = amount gross"
    using b(3) credit_lines_credits [OF j(1)] tax by (auto split: if_splits)
  have "i64 (credits (pc_Lines cmd)) = i64 (amount net + amount tax)" unfolding cr by (rule i64_diff_cong [OF j(3) refl])
  moreover have "map (\<lambda>(l, r). amount (lr_Net r)) (zip (iv_Lines v) taxLines) = map netMinor (iv_Lines v)"
    using lr by (induction rule: list_all2_induct) (auto simp: line_result_def)
  with net_acc [OF b(2)] z have "i64 (amount net) = i64 (sum_list (map netMinor (iv_Lines v)))" by simp
  moreover have "i64 (sum_list (map netMinor ls)) = i64 (sum_list (map (\<lambda>l. il_UnitPriceMinor l * il_Quantity l) ls))" for ls
  proof (induction ls)
    case (Cons l ls)
    from i64_diff_cong [OF i64_idem Cons.IH] show ?case by (simp add: netMinor_def)
  qed simp
  ultimately show ?thesis using j(2) b(4) de by simp
qed

end
