(* ===== verification/InvoicingDocs.thy ===== *)
theory InvoicingDocs
  imports InvoicingFacts
begin

text \<open>The life of a document in the tables: drafts are added and edited, an acceptance turns exactly one draft into a
  posted row with the next number of its series, and nothing touches a posted row (INV-F2, INV-F6).\<close>

section \<open>What the record engine writes\<close>

definition kept_type :: "FieldType \<Rightarrow> bool" where
  "kept_type t \<longleftrightarrow> t = FieldEnum \<or> t = FieldText \<or> t = FieldJSON"

lemma validateValue_keeps: "validateValue env f v = Inr v' \<Longrightarrow> kept_type (f_type f) \<Longrightarrow> v' = v"
  by (auto simp: validateValue_def valueRules_def kept_type_def ruleEnum_def ruleString_def ruleJSON_def
      split: if_splits val.splits)

lemma validated_keeps:
  assumes "validated env schema rec partial = Inr out" "distinct (map f_name (Fields schema))"
    "f \<in> set (Fields schema)" "kept_type (f_type f)"
  shows "map_of out (f_name f) = map_of rec (f_name f)"
proof -
  have v: "validate_record (venv env) partial rec (Fields schema) rec = Inr out"
    using assms(1) by (auto simp: validated_def split: sum.splits)
  show ?thesis
  proof (cases "map_of rec (f_name f)")
    case None
    with validate_record_fields(1) [OF v assms(2)] assms(3) show ?thesis by fastforce
  next
    case (Some x)
    with validate_record_fields(1) [OF v assms(2)] assms(3) obtain v' where
      v': "validateValue (venv env) f x = Inr v'" "map_of out (f_name f) = Some v'" by fastforce
    with validateValue_keeps [OF v'(1) assms(4)] Some show ?thesis by simp
  qed
qed

definition quiet_env :: "crud_env \<Rightarrow> bool" where
  "quiet_env env \<longleftrightarrow> env_hooks env = None \<and> driver_ok env"

lemma driver_keeps: "driver_ok env \<Longrightarrow> storable (env_dial env) t v \<Longrightarrow> env_drv env (env_dial env) t v = Some v"
  by (simp add: driver_ok_def)

lemma write_columns_keeps:
  assumes "write_columns env rec fs = Some cols" "distinct (map f_name fs)" "f \<in> set fs" "driver_ok env"
    "storable (env_dial env) (f_type f) (rec_value rec (f_name f))"
  shows "map_of cols (f_name f) = Some (rec_value rec (f_name f))"
  using map_of_write_columns [OF assms(1)] assms(2,3) driver_keeps [OF assms(4,5)] by fastforce

lemma Create_row:
  assumes "Create env ctx now fresh auid schema tenant rec db = (Inr out, db')" "quiet_env env"
    "distinct (map f_name (Fields schema))"
  obtains row where "db' = db\<lparr>obj_rows := obj_rows db @ [row], change_feed := change_feed db', feed_next := feed_next db',
       audit_log := audit_log db'\<rparr>"
    "cr_table row = TableName (ObjectName schema)" "cr_tenant row = tenant" "cr_archived row = None"
    "\<not> (\<exists>r \<in> set (obj_rows db). cr_table r = cr_table row \<and> cr_id r = cr_id row)"
    "\<And>f v. f \<in> set (core_fields schema) \<Longrightarrow> kept_type (f_type f) \<Longrightarrow> map_of rec (f_name f) = Some v \<Longrightarrow>
       storable (env_dial env) (f_type f) v \<Longrightarrow> rec_value (cr_core row) (f_name f) = v"
proof -
  from assms(1) obtain rec1 rec2 rid blob cols where s:
    "validated env schema rec False = Inr rec1" "runBefore env schema tenant ''create'' rec1 False = Inr rec2"
    "write_columns env rec2 (core_fields schema) = Some cols"
    "\<not> (\<exists>r \<in> set (obj_rows db). cr_table r = TableName (ObjectName schema) \<and> cr_id r = rid)"
    "audited ctx tenant (ObjectName schema) rid ''create'' (obj_rows db @ [new_row schema tenant rid now cols blob]) db db'"
    by (elim Create_Inr)
  have "rec2 = rec1" using s(2) assms(2) by (simp add: runBefore_def quiet_env_def)
  have d: "distinct (map f_name (core_fields schema))" using assms(3) by (simp add: core_fields_def distinct_map_filter)
  show thesis
  proof (rule that [of "new_row schema tenant rid now cols blob"], goal_cases)
    case 1
    show ?case using s(5) by (auto simp: audited_def)
  next
    case (6 f v)
    have "map_of rec1 (f_name f) = Some v"
      using validated_keeps [OF s(1) assms(3), of f] 6 by (simp add: core_fields_def)
    then have "rec_value rec2 (f_name f) = v" using \<open>rec2 = rec1\<close> by (simp add: rec_value_def)
    with write_columns_keeps [OF s(3) d 6(1)] 6 assms(2) show ?case
      by (simp add: new_row_def rec_value_def quiet_env_def)
  qed (use s(4) in \<open>simp_all add: new_row_def\<close>)
qed

lemma Update_rows:
  assumes "Update env ctx now auid schema tenant rid changes db = (Inr out, db')" "quiet_env env"
    "distinct (map f_name (Fields schema))"
  obtains cols blob where
    "db' = db\<lparr>obj_rows := replace_row schema tenant rid (updated_row now cols blob) (obj_rows db), change_feed := change_feed db',
       feed_next := feed_next db', audit_log := audit_log db'\<rparr>"
    "\<And>k. map_of changes k = None \<Longrightarrow> map_of cols k = None"
    "\<And>f v. f \<in> set (core_fields schema) \<Longrightarrow> kept_type (f_type f) \<Longrightarrow> map_of changes (f_name f) = Some v \<Longrightarrow>
       storable (env_dial env) (f_type f) v \<Longrightarrow> map_of cols (f_name f) = Some v"
proof -
  from assms(1) obtain ch1 ch2 blob cols where s:
    "validated env schema changes True = Inr ch1" "runBefore env schema tenant ''update'' ch1 True = Inr ch2"
    "write_columns env ch2 (touched ch2 (core_fields schema)) = Some cols"
    "audited ctx tenant (ObjectName schema) rid ''update''
       (replace_row schema tenant rid (updated_row now cols blob) (obj_rows db)) db db'"
    by (elim Update_Inr)
  have ch: "ch2 = ch1" using s(2) assms(2) by (simp add: runBefore_def quiet_env_def)
  have d: "distinct (map f_name (core_fields schema))" using assms(3) by (simp add: core_fields_def distinct_map_filter)
  then have dt: "distinct (map f_name (touched ch2 (core_fields schema)))" by (simp add: touched_def distinct_map_filter)
  have v: "validate_record (venv env) True changes (Fields schema) changes = Inr ch1"
    using s(1) by (auto simp: validated_def split: sum.splits)
  have none: "map_of ch1 k = None" if "map_of changes k = None" for k
  proof (cases "k \<in> f_name ` set (Fields schema)")
    case True
    then obtain f where "f \<in> set (Fields schema)" "f_name f = k" by auto
    with validate_record_fields(1) [OF v assms(3)] that show ?thesis by fastforce
  qed (use validate_record_fields(2) [OF v assms(3)] that in simp)
  have keys: "fst ` set cols = f_name ` set (touched ch2 (core_fields schema))"
    using map_of_write_columns [OF s(3)] by (metis set_map)
  show thesis
  proof (rule that [of cols blob], goal_cases)
    case 1
    show ?case using s(4) by (auto simp: audited_def)
  next
    case (2 k)
    with none [of k] keys ch show ?case by (auto simp: map_of_eq_None_iff touched_def)
  next
    case (3 f v)
    have m: "map_of ch2 (f_name f) = Some v"
      using validated_keeps [OF s(1) assms(3), of f] 3 ch by (simp add: core_fields_def)
    then have "f \<in> set (touched ch2 (core_fields schema))" using 3(1) by (simp add: touched_def)
    from write_columns_keeps [OF s(3) dt this] m 3 assms(2) show ?case by (simp add: rec_value_def quiet_env_def)
  qed
qed


section \<open>Changes of the document tables\<close>

definition is_doc :: "crud_row \<Rightarrow> bool" where
  "is_doc r \<longleftrightarrow> cr_table r = TableName ''Invoice'' \<or> cr_table r = TableName ''Receipt''"

definition status_of :: "crud_row \<Rightarrow> val" where
  "status_of r = rec_value (cr_core r) ''status''"

definition is_posted :: "crud_row \<Rightarrow> bool" where
  "is_posted r \<longleftrightarrow> status_of r = VStr StatusPosted"

definition row_key :: "crud_row \<Rightarrow> string \<times> string \<times> string \<times> int option" where
  "row_key r = (cr_table r, cr_tenant r, cr_id r, cr_archived r)"

type_synonym doc_tables = "crud_row list \<times> ((string \<times> string) \<times> int) list"

definition docs :: "'x invoice_db_scheme \<Rightarrow> doc_tables" where
  "docs db = (filter is_doc (obj_rows db), number_series db)"

text \<open>A kind of document: its table, its series and the text of its numbers.\<close>

definition doc_kind :: "string \<Rightarrow> string \<Rightarrow> (int \<Rightarrow> string) \<Rightarrow> bool" where
  "doc_kind table series fmt \<longleftrightarrow>
     table = TableName ''Invoice'' \<and> series = ''invoice'' \<and> fmt = formatInvoiceNumber \<or>
     table = TableName ''Receipt'' \<and> series = ''receipt'' \<and> fmt = formatReceiptNumber"

definition next_number :: "string \<Rightarrow> string \<Rightarrow> ((string \<times> string) \<times> int) list \<Rightarrow> int" where
  "next_number tenant series ns = (case map_of ns (tenant, series) of None \<Rightarrow> 1 | Some n \<Rightarrow> n)"

inductive doc_change :: "doc_tables \<Rightarrow> doc_tables \<Rightarrow> bool" where
  same: "doc_change (rows, ns) (rows, ns)"
| added: "\<lbrakk>status_of row = VStr StatusDraft; \<forall>r \<in> set rows. \<not> (cr_table r = cr_table row \<and> cr_id r = cr_id row)\<rbrakk>
    \<Longrightarrow> doc_change (rows, ns) (rows @ [row], ns)"
| edited: "\<lbrakk>\<And>r. r \<in> set rows \<Longrightarrow> g r = r \<or> \<not> is_posted r \<and> row_key (g r) = row_key r \<and> status_of (g r) = status_of r\<rbrakk>
    \<Longrightarrow> doc_change (rows, ns) (map g rows, ns)"
| accepted: "\<lbrakk>doc_kind (cr_table r) series fmt; status_of r = VStr StatusDraft; row_key r' = row_key r; is_posted r';
     rec_value (cr_core r') ''number'' = VStr (fmt (next_number (cr_tenant r) series ns))\<rbrakk>
    \<Longrightarrow> doc_change (xs @ r # ys, ns)
          (xs @ r' # ys, put_key (cr_tenant r, series) (next_number (cr_tenant r) series ns + 1) ns)"

lemma doc_fields:
  "distinct (map f_name (Fields invoice_schema))" "distinct (map f_name (Fields receipt_schema))"
  by code_simp+

lemma schema_names [simp]: "ObjectName invoice_schema = ''Invoice''" "ObjectName receipt_schema = ''Receipt''"
  by (simp_all add: invoice_schema_def receipt_schema_def)

lemma status_field:
  assumes "schema = invoice_schema \<or> schema = receipt_schema" "name = ''status'' \<or> name = ''number''"
  obtains f where "f \<in> set (core_fields schema)" "f_name f = name" "kept_type (f_type f)" "\<And>d x. storable d (f_type f) (VStr x)"
proof -
  let ?f = "if name = ''status'' then (base_field ''status'' FieldEnum True)\<lparr>f_options := [''draft'', ''posted'']\<rparr>
     else (base_field ''number'' FieldText False)\<lparr>f_index := True\<rparr>"
  show thesis
    by (rule that [of ?f]) (use assms in \<open>auto simp: core_fields_def invoice_schema_def receipt_schema_def base_field_def kept_type_def storable_def\<close>)
qed

lemma schema_is_doc: "schema = invoice_schema \<or> schema = receipt_schema \<Longrightarrow>
    TableName (ObjectName schema) = TableName ''Invoice'' \<or> TableName (ObjectName schema) = TableName ''Receipt''"
  by (auto simp: invoice_schema_def receipt_schema_def)

lemma Create_doc_change:
  assumes "Create env ctx now fresh auid schema tenant rec db = (r, db')" "quiet_env env"
    "schema = invoice_schema \<or> schema = receipt_schema" "map_of rec ''status'' = Some (VStr StatusDraft)"
  shows "doc_change (docs db) (docs db')"
proof (cases r)
  case (Inl e)
  with assms(1) have "db' = db" using Create_Inl by (metis fst_conv snd_conv)
  then show ?thesis by (simp add: docs_def doc_change.same)
next
  case (Inr out)
  have d: "distinct (map f_name (Fields schema))" using assms(3) doc_fields by auto
  from Create_row [OF assms(1) [unfolded Inr] assms(2) d] obtain row where
    row: "db' = db\<lparr>obj_rows := obj_rows db @ [row], change_feed := change_feed db', feed_next := feed_next db',
       audit_log := audit_log db'\<rparr>"
    "cr_table row = TableName (ObjectName schema)"
    "\<not> (\<exists>r \<in> set (obj_rows db). cr_table r = cr_table row \<and> cr_id r = cr_id row)"
    "\<And>f v. f \<in> set (core_fields schema) \<Longrightarrow> kept_type (f_type f) \<Longrightarrow> map_of rec (f_name f) = Some v \<Longrightarrow>
       storable (env_dial env) (f_type f) v \<Longrightarrow> rec_value (cr_core row) (f_name f) = v" by blast
  obtain f where f: "f \<in> set (core_fields schema)" "f_name f = ''status''" "kept_type (f_type f)" "\<And>d x. storable d (f_type f) (VStr x)"
    using status_field [OF assms(3), of "''status''"] by blast
  have st: "status_of row = VStr StatusDraft"
    using row(4) [OF f(1,3)] f(2,4) assms(4) by (simp add: status_of_def)
  have rows: "obj_rows db' = obj_rows db @ [row]" and ns: "number_series db' = number_series db"
    by (subst row(1), simp)+
  have "is_doc row" using schema_is_doc [OF assms(3)] row(2) by (simp add: is_doc_def)
  with rows ns show ?thesis
    using doc_change.added [OF st, of "filter is_doc (obj_rows db)"] row(3) by (auto simp: docs_def)
qed

lemma filter_map_doc:
  assumes "\<And>r. cr_table (g r) = cr_table r"
  shows "filter is_doc (map g rows) = map g (filter is_doc rows)"
  using assms by (induction rows) (auto simp: is_doc_def)

lemma Update_doc_change:
  assumes "guarded (ObjectName schema) tenant rid (Update env ctx now auid schema tenant rid changes) db = (r, db')" "quiet_env env"
    "schema = invoice_schema \<or> schema = receipt_schema" "map_of changes ''status'' = None"
  shows "doc_change (docs db) (docs db')"
proof (cases r)
  case (Inl e)
  with assms(1) have "db' = db" by (auto simp: guarded_def split: prod.splits sum.splits if_splits)
  then show ?thesis by (simp add: docs_def doc_change.same)
next
  case (Inr out)
  have d: "distinct (map f_name (Fields schema))" using assms(3) doc_fields by auto
  from assms(1) Inr have u: "Update env ctx now auid schema tenant rid changes db = (Inr out, db')"
    and np: "\<not> posted_row (ObjectName schema) tenant rid db"
    by (auto simp: guarded_def split: prod.splits sum.splits if_splits)
  obtain cols blob where
    s: "db' = db\<lparr>obj_rows := replace_row schema tenant rid (updated_row now cols blob) (obj_rows db), change_feed := change_feed db',
       feed_next := feed_next db', audit_log := audit_log db'\<rparr>"
    "\<And>k. map_of changes k = None \<Longrightarrow> map_of cols k = None"
    by (rule Update_rows [OF u assms(2) d]) (rule that)
  let ?g = "\<lambda>r. if cr_table r = TableName (ObjectName schema) \<and> cr_tenant r = tenant \<and> cr_id r = rid
     then updated_row now cols blob r else r"
  have rows: "obj_rows db' = map ?g (obj_rows db)" and ns: "number_series db' = number_series db"
    by (subst s(1), simp add: replace_row_def)+
  have "map_of (rev cols) ''status'' = None" using s(2) [OF assms(4)] by (simp add: map_of_eq_None_iff)
  then have st: "status_of (updated_row now cols blob r) = status_of r" for r
    by (simp add: status_of_def updated_row_def rec_value_def map_of_put_all)
  have "docs db' = (map ?g (filter is_doc (obj_rows db)), number_series db)"
    using rows ns filter_map_doc [of ?g "obj_rows db"] by (simp add: docs_def)
  moreover have "doc_change (filter is_doc (obj_rows db), number_series db) (map ?g (filter is_doc (obj_rows db)), number_series db)"
    by (rule doc_change.edited) (use np st in \<open>auto simp: posted_row_def is_posted_def status_of_def row_key_def\<close>)
  ultimately show ?thesis by (simp add: docs_def)
qed

lemma filter_length_one:
  assumes "length (filter P xs) = 1"
  obtains ys x zs where "xs = ys @ x # zs" "P x" "\<forall>y \<in> set (ys @ zs). \<not> P y"
proof -
  from assms obtain x where "filter P xs = [x]" by (auto simp: length_Suc_conv)
  then obtain ys zs where "xs = ys @ x # zs" "\<forall>y \<in> set ys. \<not> P y" "P x" "filter P zs = []"
    by (auto simp: filter_eq_Cons_iff)
  then show thesis by (intro that [of ys x zs]) (auto simp: filter_empty_conv)
qed

lemma map_only:
  assumes "xs = ys @ x # zs" "P x" "\<forall>y \<in> set (ys @ zs). \<not> P y"
  shows "map (\<lambda>r. if P r then g r else r) xs = ys @ g x # zs"
  using assms by (simp add: map_idI)

lemma accept_cases:
  assumes "accept_document env now auid tenant schema series rid number sets actor db = (r, db')" "quiet_env env"
    "schema = invoice_schema \<or> schema = receipt_schema" "map_of sets ''status'' = None" "map_of sets ''number'' = None"
  obtains (failed) e where "r = Inl e" "db' = db"
  | (accepted) cols xs row ys where "r = Inr ()" "obj_rows db = xs @ row # ys" "is_draft_row schema tenant rid row"
      "obj_rows db' = xs @ row\<lparr>cr_core := put_all cols (cr_core row), cr_updated := now\<rparr> # ys"
      "number_series db' = put_key (tenant, series) (next_number tenant series (number_series db) + 1) (number_series db)"
      "map_of (rev cols) ''status'' = Some (VStr StatusPosted)"
      "map_of (rev cols) ''number'' = Some (VStr (number (next_number tenant series (number_series db))))"
      "\<And>k. k \<notin> {''status'', ''number'', ''posted_at''} \<Longrightarrow> map_of sets k = None \<Longrightarrow> map_of (rev cols) k = None"
      "events db' = events db"
proof (cases r)
  case (Inl e)
  with assms(1) have "db' = db" by (auto simp: accept_document_def Let_def split: option.splits if_splits)
  with Inl show thesis by (rule failed)
next
  case (Inr u)
  let ?n = "next_number tenant series (number_series db)"
  define new where "new = [(''status'', VStr StatusPosted), (''number'', VStr (number ?n))] @ sets
                 @ [(''posted_at'', VStr (format_rfc3339 (now - now mod second_ns)))]"
  have new: "map_of new ''status'' = Some (VStr StatusPosted)" "map_of new ''number'' = Some (VStr (number ?n))"
    "\<And>k. k \<notin> {''status'', ''number'', ''posted_at''} \<Longrightarrow> map_of sets k = None \<Longrightarrow> map_of new k = None"
    by (auto simp: new_def map_add_def split: option.split)
  let ?fs = "touched new (core_fields schema)"
  from assms(1) Inr obtain db1 where al: "allocateNumber tenant series db = Some (?n, db1)"
    by (auto simp: accept_document_def allocateNumber_def next_number_def split: option.splits if_splits)
  then have db1: "db1 = db\<lparr>number_series := put_key (tenant, series) (?n + 1) (number_series db)\<rparr>"
    by (auto simp: allocateNumber_def next_number_def split: option.splits if_splits)
  from assms(1) Inr al obtain cols where c: "write_columns env new ?fs = Some cols"
    "length (filter (is_draft_row schema tenant rid) (obj_rows db1)) = 1"
    "\<exists>ch. db' = recordPostAudit now auid tenant (ObjectName schema) rid ch actor
       (db1\<lparr>obj_rows := map (\<lambda>r. if is_draft_row schema tenant rid r
           then r\<lparr>cr_core := put_all cols (cr_core r), cr_updated := now\<rparr> else r) (obj_rows db1)\<rparr>)"
    unfolding new_def by (auto simp: accept_document_def Let_def split: option.splits if_splits)
  have "length (filter (is_draft_row schema tenant rid) (obj_rows db)) = 1" using c(2) db1 by simp
  from filter_length_one [OF this] obtain xs row ys where
    rows: "obj_rows db = xs @ row # ys" "is_draft_row schema tenant rid row" "\<forall>y \<in> set (xs @ ys). \<not> is_draft_row schema tenant rid y" .
  have "distinct (map f_name (Fields schema))" using assms(3) doc_fields by auto
  then have dt: "distinct (map f_name ?fs)" by (simp add: touched_def core_fields_def distinct_map_filter)
  have keys: "map fst cols = map f_name ?fs" using map_of_write_columns [OF c(1)] by blast
  then have rv: "map_of (rev cols) = map_of cols" using dt by (intro map_of_inject_set [THEN iffD2]) (simp_all add: rev_map [symmetric])
  have kept: "map_of (rev cols) name = Some v"
    if nm: "name = ''status'' \<or> name = ''number''" and nv: "map_of new name = Some v" and str: "\<exists>x. v = VStr x" for name v
  proof -
    obtain f where f: "f \<in> set (core_fields schema)" "f_name f = name" "kept_type (f_type f)" "\<And>d x. storable d (f_type f) (VStr x)"
      using status_field [OF assms(3) nm] by blast
    have "map_of new (f_name f) \<noteq> None" unfolding f(2) nv by simp
    then have "f \<in> set ?fs" using f(1) unfolding touched_def by simp
    moreover have "rec_value new (f_name f) = v" using nv f(2) by (simp add: rec_value_def)
    ultimately show ?thesis
      using write_columns_keeps [OF c(1) dt, of f] f str assms(2) by (auto simp: rv quiet_env_def)
  qed
  show thesis
  proof (rule accepted [OF _ rows(1,2), where cols = cols], goal_cases)
    case 2
    show ?case using c(3) db1 map_only [OF rows] by (auto simp: recordPostAudit_def)
  next
    case (6 k)
    have "map_of new k = None" using 6 by (intro new(3))
    then have "k \<notin> f_name ` set ?fs" by (auto simp: touched_def)
    then have "k \<notin> fst ` set cols" using keys by (metis set_map)
    then show ?case by (simp add: map_of_eq_None_iff)
  qed (use Inr c(3) db1 kept new in \<open>auto simp: recordPostAudit_def\<close>)
qed


lemma put_all_column: "map_of (rev cols) k = Some v \<Longrightarrow> rec_value (put_all cols core) k = v"
  "map_of (rev cols) k = None \<Longrightarrow> rec_value (put_all cols core) k = rec_value core k"
  by (simp_all add: rec_value_def map_of_put_all)

lemma accept_doc_change:
  assumes "accept_document env now auid tenant schema series rid fmt sets actor db = (r, db')" "quiet_env env"
    "schema = invoice_schema \<and> series = ''invoice'' \<and> fmt = formatInvoiceNumber \<or>
     schema = receipt_schema \<and> series = ''receipt'' \<and> fmt = formatReceiptNumber"
    "map_of sets ''status'' = None" "map_of sets ''number'' = None"
  shows "doc_change (docs db) (docs db')"
proof -
  have schema: "schema = invoice_schema \<or> schema = receipt_schema" using assms(3) by blast
  from assms(1,2) schema assms(4,5) show ?thesis
  proof (cases rule: accept_cases)
    case (accepted cols xs row ys)
    let ?row' = "row\<lparr>cr_core := put_all cols (cr_core row), cr_updated := now\<rparr>"
    have row: "cr_table row = TableName (ObjectName schema)" "cr_tenant row = tenant" "status_of row = VStr StatusDraft"
      using accepted(3) by (simp_all add: is_draft_row_def status_of_def)
    have kind: "doc_kind (cr_table row) series fmt"
      using assms(3) row(1) by (auto simp: doc_kind_def invoice_schema_def receipt_schema_def)
    have "is_doc row" "is_doc ?row'" using schema_is_doc [OF schema] row(1) by (simp_all add: is_doc_def)
    moreover have "doc_change (filter is_doc xs @ row # filter is_doc ys, number_series db)
       (filter is_doc xs @ ?row' # filter is_doc ys, put_key (cr_tenant row, series)
          (next_number (cr_tenant row) series (number_series db) + 1) (number_series db))"
      by (rule doc_change.accepted [OF kind row(3)])
        (use accepted(6,7) row in \<open>simp_all add: row_key_def is_posted_def status_of_def put_all_column\<close>)
    ultimately show ?thesis using accepted(2,4,5) row(2) by (simp add: docs_def)
  qed (simp add: docs_def doc_change.same)
qed

lemma Post_docs: "Post env ctx now fresh tenant cmd db = (r, db') \<Longrightarrow> docs db' = docs db \<and> obj_rows db' = obj_rows db"
  unfolding Post_def by (elim post_cases) (simp_all add: docs_def)

lemma draft_names: "map_of (draft_fields i) ''status'' = None" "map_of (receipt_fields i') ''status'' = None"
  by (simp_all add: draft_fields_def receipt_fields_def)

lemma draft_status:
  "map_of (draft_fields i @ [(''status'', VStr StatusDraft), (''number'', VStr '''')]) ''status'' = Some (VStr StatusDraft)"
  "map_of (receipt_fields i' @ [(''status'', VStr StatusDraft), (''number'', VStr '''')]) ''status'' = Some (VStr StatusDraft)"
  by (simp_all add: draft_fields_def receipt_fields_def)

text \<open>The operations of the module, as steps on its database; \<open>elsewhere\<close> is any step of the rest of the program.\<close>

inductive inv_step :: "inv_env \<Rightarrow> invoice_db \<Rightarrow> invoice_db \<Rightarrow> bool" for env where
  drafting: "CreateDraft env ctx now fresh auid tenant i db = (r, db') \<Longrightarrow> inv_step env db db'"
| editing: "UpdateDraft env ctx now auid tenant rid i db = (r, db') \<Longrightarrow> inv_step env db db'"
| invoicing: "PostInvoice env ctx now fresh auid tenant rid period db = (r, db') \<Longrightarrow> inv_step env db db'"
| receiving: "CreateReceiptDraft env ctx now fresh auid tenant i' db = (q, db') \<Longrightarrow> inv_step env db db'"
| correcting: "UpdateReceiptDraft env ctx now auid tenant rid i' db = (q, db') \<Longrightarrow> inv_step env db db'"
| settling: "PostReceipt env ctx now fresh auid tenant rid period db = (q, db') \<Longrightarrow> inv_step env db db'"
| elsewhere: "docs db' = docs db \<Longrightarrow> inv_step env db db'"

lemma Create_result_change:
  assumes "(case Create env ctx now fresh auid schema tenant rec db of
        (Inl e, db') \<Rightarrow> (Inl (InvMeta e), db') | (Inr out, db') \<Rightarrow> (f out, db')) = (r, db')" "quiet_env env"
    "schema = invoice_schema \<or> schema = receipt_schema" "map_of rec ''status'' = Some (VStr StatusDraft)"
  shows "doc_change (docs db) (docs db')"
proof -
  obtain q db1 where c: "Create env ctx now fresh auid schema tenant rec db = (q, db1)" by fastforce
  then have "db' = db1" using assms(1) by (cases q) auto
  with Create_doc_change [OF c assms(2-4)] show ?thesis by simp
qed

lemma Update_result_change:
  assumes "(case guarded object tenant rid (Update env ctx now auid schema tenant rid changes) db of
        (Inl e, db') \<Rightarrow> (Inl (InvMeta e), db') | (Inr out, db') \<Rightarrow> (f db', db')) = (r, db')" "quiet_env env"
    "schema = invoice_schema \<or> schema = receipt_schema" "map_of changes ''status'' = None" "object = ObjectName schema"
  shows "doc_change (docs db) (docs db')"
proof -
  obtain q db1 where c: "guarded (ObjectName schema) tenant rid (Update env ctx now auid schema tenant rid changes) db = (q, db1)"
    by fastforce
  then have "db' = db1" using assms(1,5) by (cases q) auto
  with Update_doc_change [OF c assms(2-4)] show ?thesis by simp
qed

lemma PostInvoice_cases:
  assumes "PostInvoice env ctx now fresh auid tenant rid period db = (r, db')"
  obtains (unchanged) e where "r = Inl e" "db' = db"
  | (stuck) e cmd p where "r = Inl e" "Post (ie_crud env) ctx now fresh tenant cmd db = (p, db')"
  | (posted) v actor trs cmd totals entry db1 where "GetInvoice ctx tenant rid db = Inr v" "iv_Status v = StatusDraft"
      "Authorize db ctx ''Invoice'' ''post'' = Inr actor" "resolveInvoiceTax env db tenant v = Inr trs"
      "buildInvoiceJournal (env_iso (ie_crud env)) v trs period (''invoice-post-'' @ iv_ID v) = Inr (cmd, totals)"
      "Post (ie_crud env) ctx now fresh tenant cmd db = (Inr entry, db1)"
      "accept_document (ie_crud env) now auid tenant invoice_schema ''invoice'' (iv_ID v) formatInvoiceNumber
                 [(''net_minor'', VInt (tot_NetMinor totals)), (''tax_minor'', VInt (tot_TaxMinor totals)),
                  (''gross_minor'', VInt (tot_GrossMinor totals)), (''gl_entry_id'', VStr (en_ID entry))]
                 (UserID actor) db1 = (Inr (), db')"
      "r = GetInvoice ctx tenant rid db'"
proof (cases "GetInvoice ctx tenant rid db")
  case (Inl e)
  show thesis by (rule unchanged [of e]) (use assms Inl in \<open>simp_all add: PostInvoice_def\<close>)
next
  case v: (Inr v)
  show thesis
  proof (cases "iv_Status v = StatusDraft")
    case False
    show thesis by (rule unchanged [of "ErrNotDraft rid"]) (use assms v False in \<open>simp_all add: PostInvoice_def\<close>)
  next
    case d: True
    show thesis
    proof (cases "Authorize db ctx ''Invoice'' ''post''")
      case (Inl e)
      show thesis by (rule unchanged [of "InvAuthz e"]) (use assms v d Inl in \<open>simp_all add: PostInvoice_def\<close>)
    next
      case a: (Inr actor)
      show thesis
      proof (cases "resolveInvoiceTax env db tenant v")
        case (Inl e)
        show thesis by (rule unchanged [of e]) (use assms v d a Inl in \<open>simp_all add: PostInvoice_def\<close>)
      next
        case t: (Inr trs)
        show thesis
        proof (cases "buildInvoiceJournal (env_iso (ie_crud env)) v trs period (''invoice-post-'' @ iv_ID v)")
          case (Inl e)
          show thesis by (rule unchanged [of e]) (use assms v d a t Inl in \<open>simp_all add: PostInvoice_def\<close>)
        next
          case b: (Inr ct)
          obtain cmd totals where ct: "ct = (cmd, totals)" by fastforce
          obtain p db1 where p: "Post (ie_crud env) ctx now fresh tenant cmd db = (p, db1)" by fastforce
          show thesis
          proof (cases p)
            case (Inl e)
            then have "r = Inl (InvLedger e)" "db' = db1" using assms v d a t b ct p by (simp_all add: PostInvoice_def)
            with p show thesis by (intro stuck [of "InvLedger e"]) simp_all
          next
            case e: (Inr entry)
            let ?acc = "accept_document (ie_crud env) now auid tenant invoice_schema ''invoice'' (iv_ID v) formatInvoiceNumber
                 [(''net_minor'', VInt (tot_NetMinor totals)), (''tax_minor'', VInt (tot_TaxMinor totals)),
                  (''gross_minor'', VInt (tot_GrossMinor totals)), (''gl_entry_id'', VStr (en_ID entry))]
                 (UserID actor) db1"
            obtain q db2 where q: "?acc = (q, db2)" by fastforce
            show thesis
            proof (cases q)
              case (Inl e')
              then have "r = Inl e'" "db' = db1" using assms v d a t b ct p e q by (simp_all add: PostInvoice_def)
              with p show thesis by (intro stuck [of e']) simp_all
            next
              case (Inr u)
              have ok: "q = Inr ()" using Inr by simp
              have res: "GetInvoice ctx tenant rid db2 = r" and db: "db2 = db'"
                using assms v d a t b ct p e q Inr by (auto simp: PostInvoice_def)
              show thesis
                by (rule posted [OF v d a t b [unfolded ct] p [unfolded e] q [unfolded ok db] res [symmetric, unfolded db]])
            qed
          qed
        qed
      qed
    qed
  qed
qed


lemma PostReceipt_cases:
  assumes "PostReceipt env ctx now fresh auid tenant rid period db = (r, db')"
  obtains (unchanged) e where "r = Inl e" "db' = db"
  | (stuck) e cmd p where "r = Inl e" "Post (ie_crud env) ctx now fresh tenant cmd db = (p, db')"
  | (posted) q actor ars cmd tot entry db1 where "GetReceipt ctx tenant rid db = Inr q" "rc_Status q = StatusDraft"
      "Authorize db ctx ''Receipt'' ''post'' = Inr actor"
      "load_applied ctx tenant (rc_Currency q) db (rc_Applications q) [] = Inr ars"
      "buildReceiptJournal (env_iso (ie_crud env)) q ars period (''receipt-post-'' @ rc_ID q) = Inr (cmd, tot)"
      "Post (ie_crud env) ctx now fresh tenant cmd db = (Inr entry, db1)" "checkNotOverApplied db1 tenant q = Inr ()"
      "accept_document (ie_crud env) now auid tenant receipt_schema ''receipt'' (rc_ID q) formatReceiptNumber
                 [(''total_minor'', VInt tot), (''gl_entry_id'', VStr (en_ID entry))] (UserID actor) db1 = (Inr (), db')"
      "r = GetReceipt ctx tenant rid db'"
proof (cases "GetReceipt ctx tenant rid db")
  case (Inl e)
  show thesis by (rule unchanged [of e]) (use assms Inl in \<open>simp_all add: PostReceipt_def\<close>)
next
  case v: (Inr q)
  show thesis
  proof (cases "rc_Status q = StatusDraft")
    case False
    show thesis by (rule unchanged [of "ErrNotDraft rid"]) (use assms v False in \<open>simp_all add: PostReceipt_def\<close>)
  next
    case d: True
    show thesis
    proof (cases "Authorize db ctx ''Receipt'' ''post''")
      case (Inl e)
      show thesis by (rule unchanged [of "InvAuthz e"]) (use assms v d Inl in \<open>simp_all add: PostReceipt_def\<close>)
    next
      case a: (Inr actor)
      show thesis
      proof (cases "load_applied ctx tenant (rc_Currency q) db (rc_Applications q) []")
        case (Inl e)
        show thesis by (rule unchanged [of e]) (use assms v d a Inl in \<open>simp_all add: PostReceipt_def\<close>)
      next
        case t: (Inr ars)
        show thesis
        proof (cases "buildReceiptJournal (env_iso (ie_crud env)) q ars period (''receipt-post-'' @ rc_ID q)")
          case (Inl e)
          show thesis by (rule unchanged [of e]) (use assms v d a t Inl in \<open>simp_all add: PostReceipt_def\<close>)
        next
          case b: (Inr ct)
          obtain cmd tot where ct: "ct = (cmd, tot)" by fastforce
          obtain p db1 where p: "Post (ie_crud env) ctx now fresh tenant cmd db = (p, db1)" by fastforce
          show thesis
          proof (cases p)
            case (Inl e)
            then have "r = Inl (InvLedger e)" "db' = db1" using assms v d a t b ct p by (simp_all add: PostReceipt_def)
            with p show thesis by (intro stuck [of "InvLedger e"]) simp_all
          next
            case e: (Inr entry)
            show thesis
            proof (cases "checkNotOverApplied db1 tenant q")
              case (Inl e')
              then have "r = Inl e'" "db' = db1" using assms v d a t b ct p e by (simp_all add: PostReceipt_def)
              with p show thesis by (intro stuck [of e']) simp_all
            next
              case c: (Inr u')
              let ?acc = "accept_document (ie_crud env) now auid tenant receipt_schema ''receipt'' (rc_ID q) formatReceiptNumber
                 [(''total_minor'', VInt tot), (''gl_entry_id'', VStr (en_ID entry))] (UserID actor) db1"
              obtain x db2 where x: "?acc = (x, db2)" by fastforce
              show thesis
              proof (cases x)
                case (Inl e')
                then have "r = Inl e'" "db' = db1" using assms v d a t b ct p e c x by (simp_all add: PostReceipt_def)
                with p show thesis by (intro stuck [of e']) simp_all
              next
                case (Inr u)
                have ok: "x = Inr ()" using Inr by simp
                have res: "GetReceipt ctx tenant rid db2 = r" and db: "db2 = db'"
                  using assms v d a t b ct p e c x Inr by (auto simp: PostReceipt_def)
                have c': "checkNotOverApplied db1 tenant q = Inr ()" using c by simp
                show thesis
                  by (rule posted [OF v d a t b [unfolded ct] p [unfolded e] c' x [unfolded ok db] res [symmetric, unfolded db]])
              qed
            qed
          qed
        qed
      qed
    qed
  qed
qed

lemma same_docs: "docs db' = docs db \<Longrightarrow> doc_change (docs db) (docs db')"
  by (cases "docs db") (simp add: doc_change.same)

lemma inv_step_change:
  assumes "inv_step env db db'" "quiet_env (ie_crud env)"
  shows "doc_change (docs db) (docs db')"
  using assms(1)
proof cases
  case (drafting ctx now fresh auid tenant i r)
  show ?thesis
  proof (cases "validateDraft env i")
    case (Inl e)
    then show ?thesis using drafting by (intro same_docs) (simp add: CreateDraft_def)
  next
    case (Inr u)
    then have "(case Create (ie_crud env) ctx now fresh auid invoice_schema tenant
          (draft_fields i @ [(''status'', VStr StatusDraft), (''number'', VStr '''')]) db of
        (Inl e, db') \<Rightarrow> (Inl (InvMeta e), db') | (Inr out, db') \<Rightarrow> (recordToInvoice out, db')) = (r, db')"
      using drafting by (simp add: CreateDraft_def invoiceCRUD_eq)
    from Create_result_change [OF this assms(2) _ draft_status(1)] show ?thesis by simp
  qed
next
  case (editing ctx now auid tenant rid i r)
  show ?thesis
  proof (cases "\<exists>u v. validateDraft env i = Inr u \<and> GetInvoice ctx tenant rid db = Inr v \<and> iv_Status v = StatusDraft")
    case False
    then have "db' = db" using editing by (auto simp: UpdateDraft_def split: sum.splits if_splits)
    then show ?thesis by (intro same_docs) simp
  next
    case True
    then obtain u v where ok: "validateDraft env i = Inr u" "GetInvoice ctx tenant rid db = Inr v" "iv_Status v = StatusDraft" by blast
    have "UpdateDraft env ctx now auid tenant rid i db =
        (case guarded ''Invoice'' tenant rid (Update (ie_crud env) ctx now auid invoice_schema tenant rid (draft_fields i)) db of
            (Inl e, db') \<Rightarrow> (Inl (InvMeta e), db') | (Inr _, db') \<Rightarrow> (GetInvoice ctx tenant rid db', db'))"
      unfolding UpdateDraft_def invoiceCRUD_eq ok by (simp only: sum.case ok(3) simp_thms if_False)
    note this [unfolded editing, symmetric]
    from this assms(2) disjI1 [OF refl] draft_names(1) schema_names(1) [symmetric] show ?thesis by (rule Update_result_change)
  qed
next
  case (invoicing ctx now fresh auid tenant rid period r)
  from invoicing show ?thesis
  proof (cases rule: PostInvoice_cases)
    case (stuck e cmd p)
    then show ?thesis using Post_docs [OF stuck(2)] by (intro same_docs) simp
  next
    case (posted v actor trs cmd totals entry db1)
    have "doc_change (docs db1) (docs db')" by (rule accept_doc_change [OF posted(7) assms(2)]) simp_all
    then show ?thesis using Post_docs [OF posted(6)] by simp
  qed (simp add: same_docs)
next
  case (receiving ctx now fresh auid tenant i q)
  show ?thesis
  proof (cases "validateReceipt env i")
    case (Inl e)
    then show ?thesis using receiving by (intro same_docs) (simp add: CreateReceiptDraft_def)
  next
    case (Inr u)
    then have "(case Create (ie_crud env) ctx now fresh auid receipt_schema tenant
          (receipt_fields i @ [(''status'', VStr StatusDraft), (''number'', VStr '''')]) db of
        (Inl e, db') \<Rightarrow> (Inl (InvMeta e), db') | (Inr out, db') \<Rightarrow> (recordToReceipt out, db')) = (q, db')"
      using receiving by (simp add: CreateReceiptDraft_def receiptCRUD_eq)
    from Create_result_change [OF this assms(2) _ draft_status(2)] show ?thesis by simp
  qed
next
  case (correcting ctx now auid tenant rid i q)
  show ?thesis
  proof (cases "\<exists>u v. validateReceipt env i = Inr u \<and> GetReceipt ctx tenant rid db = Inr v \<and> rc_Status v = StatusDraft")
    case False
    then have "db' = db" using correcting by (auto simp: UpdateReceiptDraft_def split: sum.splits if_splits)
    then show ?thesis by (intro same_docs) simp
  next
    case True
    then obtain u v where ok: "validateReceipt env i = Inr u" "GetReceipt ctx tenant rid db = Inr v" "rc_Status v = StatusDraft" by blast
    have "UpdateReceiptDraft env ctx now auid tenant rid i db =
        (case guarded ''Receipt'' tenant rid (Update (ie_crud env) ctx now auid receipt_schema tenant rid (receipt_fields i)) db of
            (Inl e, db') \<Rightarrow> (Inl (InvMeta e), db') | (Inr _, db') \<Rightarrow> (GetReceipt ctx tenant rid db', db'))"
      unfolding UpdateReceiptDraft_def receiptCRUD_eq ok by (simp only: sum.case ok(3) simp_thms if_False)
    note this [unfolded correcting, symmetric]
    from this assms(2) disjI2 [OF refl] draft_names(2) schema_names(2) [symmetric] show ?thesis by (rule Update_result_change)
  qed
next
  case (settling ctx now fresh auid tenant rid period q)
  from settling show ?thesis
  proof (cases rule: PostReceipt_cases)
    case (stuck e cmd p)
    then show ?thesis using Post_docs [OF stuck(2)] by (intro same_docs) simp
  next
    case (posted q' actor ars cmd tot entry db1)
    have "doc_change (docs db1) (docs db')" by (rule accept_doc_change [OF posted(8) assms(2)]) simp_all
    then show ?thesis using Post_docs [OF posted(6)] by simp
  qed (simp add: same_docs)
next
  case elsewhere
  then show ?thesis by (rule same_docs)
qed


section \<open>Frozen documents, gapless numbers\<close>

lemma doc_change_posted: "doc_change s s' \<Longrightarrow> r \<in> set (fst s) \<Longrightarrow> is_posted r \<Longrightarrow> r \<in> set (fst s')"
proof (induction rule: doc_change.induct)
  case (edited rows g ns)
  have "g r = r" using edited(1) [of r] edited(2,3) by auto
  with edited(2) show ?case by force
qed (auto simp: is_posted_def StatusDraft_def StatusPosted_def)

lemma inv_steps_change:
  assumes "(inv_step env)\<^sup>*\<^sup>* db db'" "quiet_env (ie_crud env)"
  shows "doc_change\<^sup>*\<^sup>* (docs db) (docs db')"
  using assms(1)
proof (induction rule: rtranclp_induct)
  case (step y z)
  with inv_step_change [OF step(2) assms(2)] show ?case by (rule_tac rtranclp.rtrancl_into_rtrancl)
qed simp

text \<open>C6: a posted document is frozen (INV-F2): whatever drafts are created or edited, whatever is posted or settled
  afterwards, in any order, by anyone, the row of a posted invoice or receipt stays in the table unchanged, provided
  no plugin hook rewrites records.\<close>

theorem posted_document_frozen:
  assumes "(inv_step env)\<^sup>*\<^sup>* db db'" "quiet_env (ie_crud env)" "row \<in> set (obj_rows db)" "is_doc row" "is_posted row"
  shows "row \<in> set (obj_rows db')"
proof -
  have "row \<in> set (fst (docs db))" using assms(3,4) by (simp add: docs_def)
  with inv_steps_change [OF assms(1,2)] have "row \<in> set (fst (docs db'))"
  proof (induction rule: rtranclp_induct)
    case (step y z)
    then show ?case using doc_change_posted assms(5) by blast
  qed
  then show ?thesis by (simp add: docs_def)
qed

definition posted_of :: "string \<Rightarrow> string \<Rightarrow> crud_row list \<Rightarrow> crud_row list" where
  "posted_of table tenant rows = filter (\<lambda>r. cr_table r = table \<and> cr_tenant r = tenant \<and> is_posted r) rows"

definition numbers :: "crud_row list \<Rightarrow> val multiset" where
  "numbers rows = mset (map (\<lambda>r. rec_value (cr_core r) ''number'') rows)"

definition first_numbers :: "(int \<Rightarrow> string) \<Rightarrow> int \<Rightarrow> val multiset" where
  "first_numbers fmt n = mset (map (\<lambda>k. VStr (fmt k)) [1..n])"

definition gapless :: "doc_tables \<Rightarrow> bool" where
  "gapless s \<longleftrightarrow> (\<forall>table series fmt tenant. doc_kind table series fmt \<longrightarrow>
     1 \<le> next_number tenant series (snd s) \<and>
     numbers (posted_of table tenant (fst s)) = first_numbers fmt (next_number tenant series (snd s) - 1))"

lemma doc_kind_unique:
  "doc_kind table series fmt \<Longrightarrow> doc_kind table' series' fmt' \<Longrightarrow> table = table' \<longleftrightarrow> series = series'"
  "doc_kind table series fmt \<Longrightarrow> doc_kind table series' fmt' \<Longrightarrow> fmt = fmt'"
proof -
  have "TableName ''Invoice'' \<noteq> TableName ''Receipt''" by code_simp
  then show "doc_kind table series fmt \<Longrightarrow> doc_kind table' series' fmt' \<Longrightarrow> table = table' \<longleftrightarrow> series = series'"
    "doc_kind table series fmt \<Longrightarrow> doc_kind table series' fmt' \<Longrightarrow> fmt = fmt'"
    by (auto simp: doc_kind_def)
qed

lemma first_numbers_step: "1 \<le> n \<Longrightarrow> first_numbers fmt n = add_mset (VStr (fmt n)) (first_numbers fmt (n - 1))"
proof -
  assume "1 \<le> n"
  then have "[1..n] = [1..n - 1] @ [n]" by (simp add: upto_rec2)
  then show ?thesis by (simp add: first_numbers_def)
qed

lemma next_number_put:
  "next_number t s (put_key (t', s') n ns) = (if t = t' \<and> s = s' then n else next_number t s ns)"
  by (auto simp: next_number_def)

lemma posted_of_edited:
  assumes "\<And>r. r \<in> set rows \<Longrightarrow> g r = r \<or> \<not> is_posted r \<and> row_key (g r) = row_key r \<and> status_of (g r) = status_of r"
  shows "posted_of table tenant (map g rows) = posted_of table tenant rows"
  using assms
proof (induction rows)
  case (Cons r rows)
  then have "posted_of table tenant (map g rows) = posted_of table tenant rows" by simp
  moreover have "g r = r \<or> \<not> is_posted r \<and> \<not> is_posted (g r)" using Cons.prems [of r] by (auto simp: is_posted_def)
  ultimately show ?case by (auto simp: posted_of_def)
qed (simp add: posted_of_def)

lemma doc_change_gapless: "doc_change s s' \<Longrightarrow> gapless s \<Longrightarrow> gapless s'"
proof (induction rule: doc_change.induct)
  case (added row rows ns)
  have "\<not> is_posted row" using added(1) by (simp add: is_posted_def StatusDraft_def StatusPosted_def)
  with added(3) show ?case by (simp add: gapless_def posted_of_def)
next
  case (edited rows g ns)
  then show ?case using posted_of_edited [of rows g] by (simp add: gapless_def)
next
  case (accepted r series fmt r' ns xs ys)
  let ?n = "next_number (cr_tenant r) series ns"
  let ?s' = "(xs @ r' # ys, put_key (cr_tenant r, series) (?n + 1) ns)"
  have np: "\<not> is_posted r" using accepted(2) by (simp add: is_posted_def StatusDraft_def StatusPosted_def)
  have key: "cr_table r' = cr_table r" "cr_tenant r' = cr_tenant r" using accepted(3) by (simp_all add: row_key_def)
  show ?case unfolding gapless_def
  proof (intro allI impI)
    fix table series' fmt' tenant
    assume k: "doc_kind table series' fmt'"
    have old: "1 \<le> next_number tenant series' ns"
      "numbers (posted_of table tenant (xs @ r # ys)) = first_numbers fmt' (next_number tenant series' ns - 1)"
      using accepted(6) k by (auto simp: gapless_def)
    show "1 \<le> next_number tenant series' (snd ?s') \<and>
        numbers (posted_of table tenant (fst ?s')) = first_numbers fmt' (next_number tenant series' (snd ?s') - 1)"
    proof (cases "table = cr_table r \<and> tenant = cr_tenant r")
      case True
      then have s: "series' = series" "fmt' = fmt"
        using doc_kind_unique(1) [OF k accepted(1)] doc_kind_unique(2) [OF k, of series fmt] accepted(1) by auto
      have "numbers (posted_of table tenant (xs @ r' # ys)) =
          add_mset (VStr (fmt ?n)) (numbers (posted_of table tenant (xs @ r # ys)))"
        using np key accepted(4,5) True by (simp add: posted_of_def numbers_def)
      also have "\<dots> = first_numbers fmt ?n"
        using old first_numbers_step [of ?n fmt] True s by simp
      finally show ?thesis using old(1) True s by (simp add: next_number_put)
    next
      case False
      then have "\<not> (tenant = cr_tenant r \<and> series' = series)" using doc_kind_unique(1) [OF k accepted(1)] by auto
      moreover have "posted_of table tenant (xs @ r' # ys) = posted_of table tenant (xs @ r # ys)"
        using False key by (auto simp: posted_of_def)
      ultimately show ?thesis using old by (auto simp: next_number_put)
    qed
  qed
qed simp

text \<open>C5: document numbers are gapless (INV-F6): starting without documents, after any sequence of operations, failed
  and repeated ones included, the posted invoices of a tenant bear exactly the numbers 1 to some \<open>k\<close>, each one once,
  and so do its receipts in their own series, provided no plugin hook rewrites records.\<close>

theorem numbers_gapless:
  assumes "(inv_step env)\<^sup>*\<^sup>* db db'" "quiet_env (ie_crud env)" "docs db = ([], [])"
  shows "(\<exists>k. numbers (posted_of (TableName ''Invoice'') tenant (obj_rows db')) = first_numbers formatInvoiceNumber k) \<and>
    (\<exists>k. numbers (posted_of (TableName ''Receipt'') tenant (obj_rows db')) = first_numbers formatReceiptNumber k)"
proof -
  have "gapless (docs db)" by (simp add: assms(3) gapless_def posted_of_def numbers_def first_numbers_def next_number_def)
  with inv_steps_change [OF assms(1,2)] have g: "gapless (docs db')"
    by (induction rule: rtranclp_induct) (auto intro: doc_change_gapless)
  have docs: "posted_of table tenant (fst (docs db')) = posted_of table tenant (obj_rows db')"
    if "table = TableName ''Invoice'' \<or> table = TableName ''Receipt''" for table
    using that by (auto simp: docs_def posted_of_def is_doc_def intro!: filter_cong)
  have "doc_kind (TableName ''Invoice'') ''invoice'' formatInvoiceNumber" "doc_kind (TableName ''Receipt'') ''receipt'' formatReceiptNumber"
    by (simp_all add: doc_kind_def)
  with g docs have "\<exists>k. numbers (posted_of (TableName ''Invoice'') tenant (obj_rows db')) = first_numbers formatInvoiceNumber k"
    "\<exists>k. numbers (posted_of (TableName ''Receipt'') tenant (obj_rows db')) = first_numbers formatReceiptNumber k"
    unfolding gapless_def by metis+
  then show ?thesis by blast
qed


section \<open>An example\<close>

definition shop_env :: inv_env where
  "shop_env = \<lparr>ie_crud = books_env, ie_lang = (\<lambda>_. True), ie_rat = (\<lambda>s. if s = ''0.2'' then Some (1 / 5) else None)\<rparr>"

definition shop_db :: invoice_db where
  "shop_db = ledger_db.extend (crud_db.extend (books_db\<lparr>role_permissions := map (\<lambda>(o', a). \<lparr>pe_id = o' @ a, pe_tenant = ''acme'',
        pe_role = ''r'', pe_object = o', pe_action = a, pe_condition = None\<rparr>)
        [(''JournalEntry'', ''post''), (''Invoice'', ''create''), (''Invoice'', ''read''), (''Invoice'', ''post'')]\<rparr>)
      (ledger_db.fields [] []))
    (invoice_db.fields [\<lparr>tenant_id = '''', as_of = ''2020-01-01'', tr_jurisdiction = ''DE'', tr_category = ''std'', tr_rate = ''0.2'',
        tr_rounding = ''half_even'', tr_name = ''VAT'', tr_provider = ''seed'', tr_recorded_at = 0\<rparr>] [])"

definition shop_input :: DraftInput where
  "shop_input = \<lparr>di_ContactID = ''carl'', di_Currency = ''EUR'', di_IssueDate = ''2026-01-15'', di_ARAccount = ''cash'',
     di_TaxAccount = ''sales'', di_Locale = '''', di_Lines = [\<lparr>il_Description = ''bolt'', il_Quantity = 3, il_UnitPriceMinor = 250,
       il_RevenueAccount = ''sales'', il_TaxJurisdiction = ''DE'', il_TaxCategory = ''std'', il_DescriptionI18n = []\<rparr>]\<rparr>"

definition shop_draft :: invoice_db where
  "shop_draft = snd (CreateDraft shop_env (Some sample_actor) 1000 ''i1'' ''a1'' ''acme'' shop_input shop_db)"

definition shop_posted :: invoice_db where
  "shop_posted = snd (PostInvoice shop_env (Some sample_actor) 2000 ''e1'' ''a2'' ''acme'' ''i1'' ''2026-01'' shop_draft)"

lemma shop_facts:
  "is_ok (GetInvoice (Some sample_actor) ''acme'' ''i1'' shop_draft)"
  by code_simp


lemma shop_quiet: "quiet_env (ie_crud shop_env)"
  by (simp add: quiet_env_def shop_env_def books_env_def sample_env_def driver_ok_def)

lemma shop_journal:
  obtains v trs cmd totals where "resolveInvoiceTax shop_env shop_draft ''acme'' v = Inr trs"
    "buildInvoiceJournal (env_iso (ie_crud shop_env)) v trs ''2026-01'' ''c'' = Inr (cmd, totals)"
    "GetInvoice (Some sample_actor) ''acme'' ''i1'' shop_draft = Inr v"
proof -
  have "is_ok (case GetInvoice (Some sample_actor) ''acme'' ''i1'' shop_draft of Inl e \<Rightarrow> Inl e | Inr v \<Rightarrow>
      (case resolveInvoiceTax shop_env shop_draft ''acme'' v of Inl e \<Rightarrow> Inl e
       | Inr t \<Rightarrow> buildInvoiceJournal (env_iso (ie_crud shop_env)) v t ''2026-01'' ''c''))"
    by code_simp
  then show thesis using that by (auto simp: is_ok_iff split: sum.splits)
qed

theorem invoice_journal_balanced_witness:
  "\<exists>v trs cmd totals. GetInvoice (Some sample_actor) ''acme'' ''i1'' shop_draft = Inr v \<and>
     buildInvoiceJournal (env_iso (ie_crud shop_env)) v trs ''2026-01'' ''c'' = Inr (cmd, totals) \<and>
     debits (pc_Lines cmd) = tot_GrossMinor totals"
proof -
  obtain v trs cmd totals where j: "resolveInvoiceTax shop_env shop_draft ''acme'' v = Inr trs"
    "buildInvoiceJournal (env_iso (ie_crud shop_env)) v trs ''2026-01'' ''c'' = Inr (cmd, totals)"
    "GetInvoice (Some sample_actor) ''acme'' ''i1'' shop_draft = Inr v" by (rule shop_journal)
  from invoice_journal_balanced [OF j(1,2)] j show ?thesis by blast
qed

lemma shop_steps: "(inv_step shop_env)\<^sup>*\<^sup>* shop_db shop_posted"
proof -
  have "inv_step shop_env shop_db shop_draft"
    unfolding shop_draft_def by (rule inv_step.drafting [OF prod.collapse [symmetric]])
  moreover have "inv_step shop_env shop_draft shop_posted"
    unfolding shop_posted_def by (rule inv_step.invoicing [OF prod.collapse [symmetric]])
  ultimately show ?thesis by (meson converse_rtranclp_into_rtranclp rtranclp.rtrancl_refl)
qed

theorem numbers_gapless_witness:
  "\<exists>k. numbers (posted_of (TableName ''Invoice'') ''acme'' (obj_rows shop_posted)) = first_numbers formatInvoiceNumber k"
proof -
  have "docs shop_db = ([], [])" by code_simp
  from numbers_gapless [OF shop_steps shop_quiet this] show ?thesis by blast
qed

definition shop_frozen :: crud_row where
  "shop_frozen = books_row ''Invoice'' ''i0'' [(''status'', VStr ''posted'')]"

theorem posted_document_frozen_witness:
  "shop_frozen \<in> set (obj_rows (snd (CreateDraft shop_env (Some sample_actor) 1000 ''i1'' ''a1'' ''acme'' shop_input
     (shop_db\<lparr>obj_rows := [shop_frozen]\<rparr>))))"
proof (rule posted_document_frozen [OF r_into_rtranclp shop_quiet])
  show "inv_step shop_env (shop_db\<lparr>obj_rows := [shop_frozen]\<rparr>)
      (snd (CreateDraft shop_env (Some sample_actor) 1000 ''i1'' ''a1'' ''acme'' shop_input (shop_db\<lparr>obj_rows := [shop_frozen]\<rparr>)))"
    by (rule inv_step.drafting [OF prod.collapse [symmetric]])
qed (simp_all add: shop_frozen_def is_doc_def is_posted_def status_of_def books_row_def rec_value_def StatusPosted_def)

end
