(* ===== verification/Cron.thy ===== *)
theory Cron
  imports Calendar
begin

text \<open>
  \<open>kernel/jobs/cron.go\<close>: the five-field cron expressions of schedules. \<open>ParseCron\<close> reads an expression into
  one set of allowed values per field, kept as the source's arrays of booleans; \<open>Next\<close> searches for the first
  minute after an instant that all sets allow, jumping over days that do not match, for at most five years.
  A reference reading of the text (\<open>cron_due\<close>) says which minutes an expression names, and the two are shown
  to agree.
\<close>

section \<open>Parsing\<close>

record Cron =
  cron_src :: string
  cron_minute :: "bool list"
  cron_hour :: "bool list"
  cron_dom :: "bool list"
  cron_month :: "bool list"
  cron_dow :: "bool list"
  domStar :: bool
  dowStar :: bool

record cronField =
  cf_name :: string
  cf_min :: int
  cf_max :: int

definition cronFields :: "cronField list" where
  "cronFields =
     [\<lparr>cf_name = ''minute'', cf_min = 0, cf_max = 59\<rparr>,
      \<lparr>cf_name = ''hour'', cf_min = 0, cf_max = 23\<rparr>,
      \<lparr>cf_name = ''day of month'', cf_min = 1, cf_max = 31\<rparr>,
      \<lparr>cf_name = ''month'', cf_min = 1, cf_max = 12\<rparr>,
      \<lparr>cf_name = ''day of week'', cf_min = 0, cf_max = 6\<rparr>]"

datatype field_error =
    FieldEmpty
  | InvalidStep string
  | InvalidRange string
  | ReversedRange string
  | NotANumber string
  | OutsideRange string
  | IndexPanic

datatype cron_error =
    ErrFieldCount nat
  | ErrCronField string field_error
  | ErrNeverFires string

text \<open>The text after the first occurrence of a character.\<close>

definition cut_after :: "char \<Rightarrow> string \<Rightarrow> string" where
  "cut_after c s = drop 1 (dropWhile (\<lambda>x. x \<noteq> c) s)"

text \<open>One part of a field, such as \<open>*/5\<close> or \<open>10-20/2\<close>, as the range and the step the source reads from it.\<close>

definition part_step :: "string \<Rightarrow> field_error + int" where
  "part_step part =
     (if CHR ''/'' \<in> set part then
        (case atoi (cut_after CHR ''/'' part) of None \<Rightarrow> Inl (InvalidStep part)
         | Some n \<Rightarrow> if n < 1 then Inl (InvalidStep part) else Inr n)
      else Inr 1)"

definition part_range :: "cronField \<Rightarrow> string \<Rightarrow> field_error + int \<times> int" where
  "part_range f part =
     (let rangePart = cut_before CHR ''/'' part in
      if rangePart = ''*'' then Inr (cf_min f, cf_max f)
      else if CHR ''-'' \<in> set rangePart then
        (case (atoi (cut_before CHR ''-'' rangePart), atoi (cut_after CHR ''-'' rangePart)) of
           (Some a, Some b) \<Rightarrow> if b < a then Inl (ReversedRange part) else Inr (a, b)
         | _ \<Rightarrow> Inl (InvalidRange part))
      else (case atoi rangePart of None \<Rightarrow> Inl (NotANumber part) | Some v \<Rightarrow> Inr (v, v)))"

text \<open>\<open>for v := lo; v <= hi; v += step { set(v) }\<close>, with the wrap-around of the addition and the panic of an
  index outside the array. The steps that reach the loop are positive \<open>int64\<close> values.\<close>

function set_steps :: "int \<Rightarrow> int \<Rightarrow> int \<Rightarrow> bool list \<Rightarrow> bool list option" where
  "set_steps v hi step bits =
     (if hi < v then Some bits
      else if v < 0 \<or> int (length bits) \<le> v \<or> step < 1 \<or> \<not> int64 step then None
      else set_steps (i64 (v + step)) hi step (bits[nat v := True]))"
  by pat_completeness auto
termination
proof (relation "measure (\<lambda>(v, hi, step, bits). if v < 0 then 0 else if int64 v then nat (hi - v + 1) else nat hi + 2)",
    goal_cases)
  case (2 v hi step bits)
  then have v: "0 \<le> v" "v \<le> hi" "1 \<le> step" "int64 step" by auto
  let ?w = "i64 (v + step)"
  show ?case
  proof (cases "int64 v")
    case True
    show ?thesis
    proof (cases "int64 (v + step)")
      case True
      then show ?thesis using v \<open>int64 v\<close> by auto
    next
      case False
      with v True have "int64 (v + step - 18446744073709551616)" by (auto simp: int64_def)
      moreover have "?w = i64 (v + step - 18446744073709551616)" unfolding i64_cong by simp
      ultimately have "?w = v + step - 18446744073709551616" by simp
      with v True have "?w < 0" by (auto simp: int64_def)
      with v True show ?thesis by auto
    qed
  next
    case False
    have "nat (hi - ?w + 1) < nat hi + 2" if "0 \<le> ?w" using that v by auto
    with v False show ?thesis by auto
  qed
qed simp

declare set_steps.simps [simp del]

definition parse_part :: "cronField \<Rightarrow> string \<Rightarrow> bool list \<Rightarrow> field_error + bool list" where
  "parse_part f part bits =
     (case part_step part of Inl e \<Rightarrow> Inl e
      | Inr step \<Rightarrow>
     (case part_range f part of Inl e \<Rightarrow> Inl e
      | Inr (lo, hi) \<Rightarrow>
          if lo < cf_min f \<or> cf_max f < hi then Inl (OutsideRange part)
          else (case set_steps lo hi step bits of None \<Rightarrow> Inl IndexPanic | Some bits' \<Rightarrow> Inr bits')))"

fun parse_parts :: "cronField \<Rightarrow> string list \<Rightarrow> bool list \<Rightarrow> field_error + bool list" where
  "parse_parts f [] bits = Inr bits"
| "parse_parts f (part # parts) bits =
     (case parse_part f part bits of Inl e \<Rightarrow> Inl e | Inr bits' \<Rightarrow> parse_parts f parts bits')"

definition parseField :: "string \<Rightarrow> cronField \<Rightarrow> nat \<Rightarrow> cron_error + bool list" where
  "parseField spec f len =
     (if spec = '''' then Inl (ErrCronField (cf_name f) FieldEmpty)
      else (case parse_parts f (split_char CHR '','' spec) (replicate len False) of
              Inl e \<Rightarrow> Inl (ErrCronField (cf_name f) e)
            | Inr bits \<Rightarrow> Inr bits))"

definition ParseCron :: "string \<Rightarrow> cron_error + Cron" where
  "ParseCron src =
     (case GoText.fields src of
        [mi, ho, dm, mo, dw] \<Rightarrow>
          (case parseField mi (cronFields ! 0) 60 of Inl e \<Rightarrow> Inl e
           | Inr minutes \<Rightarrow>
          (case parseField ho (cronFields ! 1) 24 of Inl e \<Rightarrow> Inl e
           | Inr hours \<Rightarrow>
          (case parseField dm (cronFields ! 2) 32 of Inl e \<Rightarrow> Inl e
           | Inr doms \<Rightarrow>
          (case parseField mo (cronFields ! 3) 13 of Inl e \<Rightarrow> Inl e
           | Inr months \<Rightarrow>
          (case parseField dw (cronFields ! 4) 7 of Inl e \<Rightarrow> Inl e
           | Inr dows \<Rightarrow>
               Inr \<lparr>cron_src = src, cron_minute = minutes, cron_hour = hours, cron_dom = doms, cron_month = months,
                 cron_dow = dows, domStar = (dm = ''*''), dowStar = (dw = ''*'')\<rparr>)))))
      | parts \<Rightarrow> Inl (ErrFieldCount (length parts)))"

section \<open>The next firing\<close>

definition minute_ns :: int where
  "minute_ns = 60000000000"

definition hour_of :: "int \<Rightarrow> nat" where
  "hour_of t = nat (t mod day_ns div 3600000000000)"

definition minute_of :: "int \<Rightarrow> nat" where
  "minute_of t = nat (t mod 3600000000000 div minute_ns)"

text \<open>\<open>time.Weekday\<close>: Sunday is 0; the first of January 1970 was a Thursday.\<close>

definition weekday :: "int \<Rightarrow> nat" where
  "weekday n = nat ((n + 6) mod 7)"

definition maxLookahead :: int where
  "maxLookahead = 5 * 366 * day_ns"

definition matchesDay :: "Cron \<Rightarrow> int \<Rightarrow> bool" where
  "matchesDay s t =
     (let (y, m, d) = civil_of_days (date_of t) in
      if \<not> cron_month s ! nat m then False
      else
        let dom = cron_dom s ! nat d; dow = cron_dow s ! weekday (date_of t) in
        if domStar s \<or> dowStar s then dom \<and> dow else dom \<or> dow)"

definition next_midnight :: "int \<Rightarrow> int" where
  "next_midnight t = (date_of t + 1 - 719528) * day_ns"

lemma next_midnight_later: "t < next_midnight t"
  using div_mult_mod_eq [of t day_ns] pos_mod_bound [of day_ns t]
  by (simp add: next_midnight_def date_of_def day_ns_def algebra_simps)

function next_from :: "Cron \<Rightarrow> int \<Rightarrow> int \<Rightarrow> int" where
  "next_from s limit t =
     (if t < limit then
        if \<not> matchesDay s t then next_from s limit (next_midnight t)
        else if cron_hour s ! hour_of t \<and> cron_minute s ! minute_of t then t
        else next_from s limit (t + minute_ns)
      else zero_time)"
  by pat_completeness auto
termination
  by (relation "measure (\<lambda>(s, limit, t). nat (limit - t))")
    (auto simp: minute_ns_def intro: diff_strict_left_mono next_midnight_later)

declare next_from.simps [simp del]

definition Next :: "Cron \<Rightarrow> int \<Rightarrow> int" where
  "Next s after = next_from s (after + maxLookahead) (after div minute_ns * minute_ns + minute_ns)"

definition ValidCron :: "int \<Rightarrow> string \<Rightarrow> cron_error + unit" where
  "ValidCron now src =
     (case ParseCron src of Inl e \<Rightarrow> Inl e
      | Inr c \<Rightarrow> if is_zero_time (Next c now) then Inl (ErrNeverFires src) else Inr ())"

section \<open>The search is exact\<close>

text \<open>The minutes the sets of a schedule allow.\<close>

definition fires :: "Cron \<Rightarrow> int \<Rightarrow> bool" where
  "fires s t \<longleftrightarrow> t mod minute_ns = 0 \<and> matchesDay s t \<and> cron_hour s ! hour_of t \<and> cron_minute s ! minute_of t"

lemma same_day: "t \<le> u \<Longrightarrow> u < next_midnight t \<Longrightarrow> date_of u = date_of t"
proof -
  assume a: "t \<le> u" "u < next_midnight t"
  from a(1) have "t div day_ns \<le> u div day_ns" by (simp add: zdiv_mono1 day_ns_def)
  moreover have "u div day_ns < t div day_ns + 1"
    using a(2) by (simp add: next_midnight_def date_of_def div_less_iff_less_mult day_ns_def mult.commute)
  ultimately show ?thesis by (simp add: date_of_def)
qed

lemma matchesDay_date: "date_of u = date_of t \<Longrightarrow> matchesDay s u = matchesDay s t"
  by (simp only: matchesDay_def)

lemma not_fires_same_day:
  assumes "\<not> matchesDay s t" "t \<le> u" "u < next_midnight t"
  shows "\<not> fires s u"
  using assms(1) matchesDay_date [OF same_day [OF assms(2,3)]] by (simp add: fires_def)

lemma not_fires_between_minutes:
  assumes "t mod minute_ns = 0" "t < u" "u < t + minute_ns"
  shows "\<not> fires s u"
proof
  assume "fires s u"
  then have "u mod minute_ns = 0" by (simp add: fires_def)
  with assms(1) have "minute_ns dvd u - t" by (metis mod_0_imp_dvd dvd_diff)
  from zdvd_imp_le [OF this] assms(2,3) show False by simp
qed

lemma midnight_minute: "next_midnight t mod minute_ns = 0"
proof -
  have "next_midnight t = ((date_of t + 1 - 719528) * 1440) * minute_ns"
    by (simp add: next_midnight_def day_ns_def minute_ns_def)
  then show ?thesis by simp
qed

lemma next_from_exact:
  assumes "t mod minute_ns = 0"
  shows "(t \<le> next_from s limit t \<and> next_from s limit t < limit \<and> fires s (next_from s limit t) \<and>
      (\<forall>u. t \<le> u \<and> u < next_from s limit t \<longrightarrow> \<not> fires s u)) \<or>
    (next_from s limit t = zero_time \<and> (\<forall>u. t \<le> u \<and> u < limit \<longrightarrow> \<not> fires s u))"
  using assms
proof (induction s limit t rule: next_from.induct)
  case (1 s limit t)
  show ?case
  proof (cases "t < limit")
    case lim: True
    show ?thesis
    proof (cases "matchesDay s t")
      case False
      have e: "next_from s limit t = next_from s limit (next_midnight t)"
        using lim False by (subst next_from.simps) simp
      have n: "\<not> fires s u" if "t \<le> u" "u < next_midnight t" for u
        by (rule not_fires_same_day [OF False that])
      have "t < next_midnight t" by (rule next_midnight_later)
      with 1(1) [OF lim False midnight_minute] n show ?thesis unfolding e by (meson le_less_trans less_le not_less)
    next
      case day: True
      show ?thesis
      proof (cases "cron_hour s ! hour_of t \<and> cron_minute s ! minute_of t")
        case True
        then have "next_from s limit t = t" "fires s t"
          using lim day 1 by (simp_all add: next_from.simps [of s limit t] fires_def)
        then show ?thesis using lim by auto
      next
        case False
        have m: "(t + minute_ns) mod minute_ns = 0" using 1 by (simp add: minute_ns_def)
        have e: "next_from s limit t = next_from s limit (t + minute_ns)"
          using lim day False by (subst next_from.simps) auto
        have "\<not> fires s t" using False by (simp add: fires_def)
        then have n: "\<not> fires s u" if "t \<le> u" "u < t + minute_ns" for u
          using not_fires_between_minutes [OF 1(3)] that by (cases "t = u") auto
        have "0 < minute_ns" by (simp add: minute_ns_def)
        with 1(2) [OF lim _ False m] day n show ?thesis unfolding e by (smt (verit))
      qed
    qed
  qed (auto simp: next_from.simps)
qed

lemma Next_exact:
  assumes "zero_time \<le> after"
  shows "if \<exists>u. after < u \<and> u < after + maxLookahead \<and> fires s u
    then after < Next s after \<and> fires s (Next s after) \<and> (\<forall>u. after < u \<and> fires s u \<longrightarrow> Next s after \<le> u)
    else is_zero_time (Next s after)"
proof -
  define t where "t = after div minute_ns * minute_ns + minute_ns"
  have t: "t mod minute_ns = 0" by (simp add: t_def)
  have b: "t - minute_ns \<le> after" "after < t"
    using div_mult_mod_eq [of after minute_ns] pos_mod_bound [of minute_ns after] pos_mod_sign [of minute_ns after]
    by (auto simp: t_def minute_ns_def)
  have skip: "t \<le> u" if "after < u" "fires s u" for u
  proof (rule ccontr)
    assume "\<not> t \<le> u"
    then have "\<not> fires s u"
      using that b by (intro not_fires_between_minutes [of "t - minute_ns"]) (auto simp: t minute_ns_def t_def)
    with that show False by simp
  qed
  from next_from_exact [OF t, of s "after + maxLookahead"] b skip show ?thesis
    unfolding Next_def t_def [symmetric] is_zero_time_def by (smt (verit))
qed

section \<open>What the text means\<close>

text \<open>The values a field's text names, read off the text: those of one of its parts, on the part's step.\<close>

definition part_names :: "cronField \<Rightarrow> string \<Rightarrow> int \<Rightarrow> bool" where
  "part_names f part v =
     (case (part_range f part, part_step part) of
        (Inr (lo, hi), Inr step) \<Rightarrow> lo \<le> v \<and> v \<le> hi \<and> (v - lo) mod step = 0
      | _ \<Rightarrow> False)"

definition field_names :: "nat \<Rightarrow> string \<Rightarrow> int \<Rightarrow> bool" where
  "field_names i spec v = (\<exists>part \<in> set (split_char CHR '','' spec). part_names (cronFields ! i) part v)"

text \<open>The minutes an expression names. A day has to be named by both day fields, or by either of them when both
  are restricted.\<close>

definition cron_due :: "string \<Rightarrow> int \<Rightarrow> bool" where
  "cron_due src t =
     (case GoText.fields src of
        [mi, ho, dm, mo, dw] \<Rightarrow>
          (let (y, m, d) = civil_of_days (date_of t);
               dom = field_names 2 dm d; dow = field_names 4 dw (int (weekday (date_of t))) in
           t mod minute_ns = 0 \<and> field_names 0 mi (int (minute_of t)) \<and> field_names 1 ho (int (hour_of t)) \<and>
           field_names 3 mo m \<and> (if dm = ''*'' \<or> dw = ''*'' then dom \<and> dow else dom \<or> dow))
      | _ \<Rightarrow> False)"

lemma set_steps_bits:
  assumes "set_steps v hi step bits = Some bits'" "0 \<le> v" "int (length bits) < 9223372036854775808"
  shows "length bits' = length bits" "\<forall>i < length bits.
    bits' ! i \<longleftrightarrow> bits ! i \<or> (v \<le> int i \<and> int i \<le> hi \<and> (int i - v) mod step = 0)"
proof -
  have "length bits' = length bits \<and> (\<forall>i < length bits.
    bits' ! i \<longleftrightarrow> bits ! i \<or> (v \<le> int i \<and> int i \<le> hi \<and> (int i - v) mod step = 0))"
    using assms
  proof (induction v hi step bits rule: set_steps.induct)
    case (1 v hi step bits)
    show ?case
    proof (cases "hi < v")
      case True
      then show ?thesis using 1(2) by (auto simp: set_steps.simps [of v hi])
    next
      case False
      with 1(2) have v: "v < int (length bits)" "1 \<le> step" "int64 step"
        and rest: "set_steps (i64 (v + step)) hi step (bits[nat v := True]) = Some bits'"
        by (auto simp: set_steps.simps [of v hi] split: if_splits)
      have pos: "0 \<le> i64 (v + step)"
      proof (rule ccontr)
        assume "\<not> 0 \<le> i64 (v + step)"
        with rest False 1(3) show False by (auto simp: set_steps.simps [of "i64 (v + step)"] split: if_splits)
      qed
      have "v + step < 9223372036854775808"
      proof (rule ccontr)
        assume "\<not> v + step < 9223372036854775808"
        moreover have "i64 (v + step) = i64 (v + step - 18446744073709551616)" unfolding i64_cong by simp
        ultimately show False using pos v 1(3,4) by (auto simp: int64_def)
      qed
      then have w: "i64 (v + step) = v + step" using 1(3) v by (simp add: int64_def)
      have g: "\<not> (v < 0 \<or> int (length bits) \<le> v \<or> step < 1 \<or> \<not> int64 step)" using v 1(3) by simp
      have step: "v \<le> i \<and> (i - v) mod step = 0 \<longleftrightarrow> i = v \<or> (v + step \<le> i \<and> (i - (v + step)) mod step = 0)" for i
      proof -
        have m: "(i - (v + step)) mod step = (i - v) mod step" by (metis diff_diff_eq minus_mod_self2)
        have "v + step \<le> i" if "v < i" "(i - v) mod step = 0"
          using zdvd_imp_le [of step "i - v"] that by (simp add: mod_eq_0_iff_dvd)
        then show ?thesis unfolding m using v by auto
      qed
      from 1(1) [OF False g rest pos] 1(4) have ih: "length bits' = length bits"
        "\<And>i. i < length bits \<Longrightarrow> bits' ! i \<longleftrightarrow> bits[nat v := True] ! i \<or>
          (v + step \<le> int i \<and> int i \<le> hi \<and> (int i - (v + step)) mod step = 0)"
        by (simp_all add: w)
      show ?thesis
      proof (intro conjI allI impI ih(1))
        fix i assume i: "i < length bits"
        show "bits' ! i \<longleftrightarrow> bits ! i \<or> (v \<le> int i \<and> int i \<le> hi \<and> (int i - v) mod step = 0)"
        proof (cases "int i = v")
          case True
          then have "bits[nat v := True] ! i" using i by (metis nat_int nth_list_update_eq)
          then show ?thesis using ih(2) [OF i] True False by simp
        next
          case ne: False
          then have "bits[nat v := True] ! i = bits ! i" using 1(3) by (metis nat_int nat_0_le nth_list_update_neq int_nat_eq)
          from ih(2) [OF i] have "bits' ! i \<longleftrightarrow> bits ! i \<or>
            (v + step \<le> int i \<and> int i \<le> hi \<and> (int i - (v + step)) mod step = 0)" by (simp only: \<open>bits[nat v := True] ! i = bits ! i\<close>)
          moreover have "v \<le> int i \<and> (int i - v) mod step = 0 \<longleftrightarrow> v + step \<le> int i \<and> (int i - (v + step)) mod step = 0"
            unfolding step [of "int i"] using ne by (simp only: simp_thms)
          ultimately show ?thesis by meson
        qed
      qed
    qed
  qed
  then show "length bits' = length bits" "\<forall>i < length bits.
    bits' ! i \<longleftrightarrow> bits ! i \<or> (v \<le> int i \<and> int i \<le> hi \<and> (int i - v) mod step = 0)"
    by (rule conjunct1, elim conjunct2)
qed

lemma parse_part_bits:
  assumes "parse_part f part bits = Inr bits'" "0 \<le> cf_min f" "int (length bits) < 9223372036854775808"
  shows "length bits' = length bits" "\<forall>i < length bits. bits' ! i \<longleftrightarrow> bits ! i \<or> part_names f part (int i)"
proof -
  from assms(1) obtain step lo hi where p: "part_step part = Inr step" "part_range f part = Inr (lo, hi)"
    "cf_min f \<le> lo" "set_steps lo hi step bits = Some bits'"
    by (auto simp: parse_part_def split: sum.splits if_splits option.splits prod.splits)
  with set_steps_bits [OF p(4)] assms(2,3)
  show "length bits' = length bits" "\<forall>i < length bits. bits' ! i \<longleftrightarrow> bits ! i \<or> part_names f part (int i)"
    by (simp_all add: part_names_def)
qed

lemma parse_parts_bits:
  assumes "parse_parts f parts bits = Inr bits'" "0 \<le> cf_min f" "int (length bits) < 9223372036854775808"
  shows "length bits' = length bits \<and>
    (\<forall>i < length bits. bits' ! i \<longleftrightarrow> bits ! i \<or> (\<exists>part \<in> set parts. part_names f part (int i)))"
  using assms
proof (induction parts arbitrary: bits)
  case (Cons part parts)
  then obtain b where b: "parse_part f part bits = Inr b" "parse_parts f parts b = Inr bits'"
    by (auto split: sum.splits)
  from parse_part_bits [OF b(1) Cons.prems(2,3)] Cons.IH [OF b(2) Cons.prems(2)] Cons.prems(3)
  show ?case by auto
qed simp

lemma parseField_bits:
  assumes "parseField spec (cronFields ! i) n = Inr bits" "i < 5" "n \<le> 60"
  shows "\<forall>k < n. bits ! k \<longleftrightarrow> field_names i spec (int k)"
proof -
  have "0 \<le> cf_min (cronFields ! i)"
    using assms(2) by (simp add: cronFields_def less_Suc_eq numeral_eq_Suc) auto
  with parse_parts_bits [of "cronFields ! i" "split_char CHR '','' spec" "replicate n False" bits] assms
  show ?thesis by (auto simp: parseField_def field_names_def split: if_splits sum.splits)
qed

lemma day_ranges:
  assumes "civil_of_days n = (y, m, d)"
  shows "0 \<le> m" "m < 13" "0 \<le> d" "d < 32"
proof -
  note s = civil_of_days_spec(1) [OF assms]
  have "month_lengths y ! nat (m - 1) \<in> set (month_lengths y)"
    using s by (intro nth_mem) (simp add: valid_civil_def nat_less_iff)
  then have "month_len y m \<le> 31" by (auto simp: month_len_def month_lengths_def)
  with s show "0 \<le> m" "m < 13" "0 \<le> d" "d < 32" by (auto simp: valid_civil_def)
qed

lemma clock_ranges: "minute_of t < 60" "hour_of t < 24" "weekday n < 7"
proof -
  have "t mod 3600000000000 div 60000000000 < 60" "t mod 86400000000000 div 3600000000000 < 24"
    by (simp_all add: div_less_iff_less_mult)
  then show "minute_of t < 60" "hour_of t < 24" "weekday n < 7"
    by (simp_all add: minute_of_def hour_of_def weekday_def minute_ns_def day_ns_def nat_less_iff)
qed

lemma ParseCron_fires:
  assumes "ParseCron src = Inr s"
  shows "fires s t \<longleftrightarrow> cron_due src t"
proof -
  obtain mi ho dm mo dw where f: "GoText.fields src = [mi, ho, dm, mo, dw]"
    using assms by (auto simp: ParseCron_def split: list.splits)
  with assms have p: "parseField mi (cronFields ! 0) 60 = Inr (cron_minute s)"
    "parseField ho (cronFields ! 1) 24 = Inr (cron_hour s)"
    "parseField dm (cronFields ! 2) 32 = Inr (cron_dom s)"
    "parseField mo (cronFields ! 3) 13 = Inr (cron_month s)"
    "parseField dw (cronFields ! 4) 7 = Inr (cron_dow s)"
    "domStar s = (dm = ''*'')" "dowStar s = (dw = ''*'')"
    by (auto simp: ParseCron_def split: sum.splits)
  obtain y m d where c: "civil_of_days (date_of t) = (y, m, d)" by (metis prod_cases3)
  note r = day_ranges [OF c] and k = clock_ranges [of t] clock_ranges(3) [of "date_of t"]
  have b: "cron_minute s ! minute_of t \<longleftrightarrow> field_names 0 mi (int (minute_of t))"
    "cron_hour s ! hour_of t \<longleftrightarrow> field_names 1 ho (int (hour_of t))"
    "cron_dom s ! nat d \<longleftrightarrow> field_names 2 dm d" "cron_month s ! nat m \<longleftrightarrow> field_names 3 mo m"
    "cron_dow s ! weekday (date_of t) \<longleftrightarrow> field_names 4 dw (int (weekday (date_of t)))"
    using parseField_bits [OF p(1)] parseField_bits [OF p(2)] parseField_bits [OF p(3)] parseField_bits [OF p(4)]
      parseField_bits [OF p(5)] r k by (simp_all add: nat_less_iff)
  show ?thesis
    unfolding fires_def matchesDay_def cron_due_def f c b p(6,7) Let_def list.case prod.case by argo
qed

section \<open>The guarantee\<close>

text \<open>C14: For every expression that is accepted, the next run is the first minute after the given instant that the
  text of the expression names, if it names one in the five years the search covers, and no run otherwise.\<close>

theorem Next_first:
  assumes "ParseCron src = Inr s" "zero_time \<le> after"
  shows "if \<exists>u. after < u \<and> u < after + maxLookahead \<and> cron_due src u
    then after < Next s after \<and> cron_due src (Next s after) \<and> (\<forall>u. after < u \<and> cron_due src u \<longrightarrow> Next s after \<le> u)
    else is_zero_time (Next s after)"
  using Next_exact [OF assms(2), of s] by (simp only: ParseCron_fires [OF assms(1)])

lemma sample_cron:
  "ParseCron ''30 9 1-31/2 * 1'' = Inr \<lparr>cron_src = ''30 9 1-31/2 * 1'',
     cron_minute = (replicate 60 False)[30 := True], cron_hour = (replicate 24 False)[9 := True],
     cron_dom = False # concat (replicate 15 [True, False]) @ [True], cron_month = False # replicate 12 True,
     cron_dow = [False, True, False, False, False, False, False], domStar = False, dowStar = False\<rparr>"
  by code_simp

lemma Next_first_witness:
  "\<exists>s. ParseCron ''30 9 1-31/2 * 1'' = Inr s \<and> zero_time \<le> 0 \<and>
    (if \<exists>u. 0 < u \<and> u < 0 + maxLookahead \<and> cron_due ''30 9 1-31/2 * 1'' u
     then 0 < Next s 0 \<and> cron_due ''30 9 1-31/2 * 1'' (Next s 0) \<and>
       (\<forall>u. 0 < u \<and> cron_due ''30 9 1-31/2 * 1'' u \<longrightarrow> Next s 0 \<le> u)
     else is_zero_time (Next s 0))"
proof -
  have z: "zero_time \<le> 0" by (simp add: zero_time_def day_ns_def)
  show ?thesis by (rule exI, intro conjI, rule sample_cron, rule z, rule Next_first [OF sample_cron z])
qed

text \<open>Two corners. A step near the largest \<open>int64\<close> wraps the loop variable below the array, which panics. And
  the five years do not always reach the next leap day: around 2100, which is no leap year, they are eight
  years apart.\<close>

lemma ParseCron_step_panics:
  "ParseCron ''0 0 */9223372036854775807 * *'' = Inl (ErrCronField ''day of month'' IndexPanic)"
proof -
  let ?part = "''*/9223372036854775807''"
  have "set_steps 1 31 9223372036854775807 (replicate 32 False) = None"
    by (subst set_steps.simps, simp add: int64_def, subst set_steps.simps, simp add: i64_mod)
  moreover have "part_step ?part = Inr 9223372036854775807"
    by (simp add: part_step_def cut_after_def parse_nat_def parse_digits_def digit_val_def is_digit_def int64_def)
  moreover have "part_range (cronFields ! 2) ?part = Inr (1, 31)"
    "split_char CHR '','' ?part = [?part]" "cf_min (cronFields ! 2) = 1" "cf_max (cronFields ! 2) = 31"
    "cf_name (cronFields ! 2) = ''day of month''"
    by code_simp+
  ultimately have "parseField ?part (cronFields ! 2) 32 = Inl (ErrCronField ''day of month'' IndexPanic)"
    by (simp add: parseField_def parse_part_def)
  moreover have "GoText.fields ''0 0 */9223372036854775807 * *'' = [''0'', ''0'', ?part, ''*'', ''*'']"
    "parseField ''0'' (cronFields ! 0) 60 = Inr ((replicate 60 False)[0 := True])"
    "parseField ''0'' (cronFields ! 1) 24 = Inr ((replicate 24 False)[0 := True])"
    by code_simp+
  ultimately show ?thesis by (simp add: ParseCron_def)
qed

lemma leap_day_cron_due: "cron_due ''0 0 29 2 *'' t \<Longrightarrow> \<exists>y. civil_of_days (date_of t) = (y, 2, 29)"
proof -
  assume a: "cron_due ''0 0 29 2 *'' t"
  have f: "GoText.fields ''0 0 29 2 *'' = [''0'', ''0'', ''29'', ''2'', ''*'']" by code_simp
  have p: "split_char CHR '','' ''29'' = [''29'']" "split_char CHR '','' ''2'' = [''2'']"
    "part_step ''29'' = Inr 1" "part_step ''2'' = Inr 1"
    "part_range (cronFields ! 2) ''29'' = Inr (29, 29)" "part_range (cronFields ! 3) ''2'' = Inr (2, 2)"
    by code_simp+
  obtain y m d where c: "civil_of_days (date_of t) = (y, m, d)" by (metis prod_cases3)
  from a have "field_names 2 ''29'' d" "field_names 3 ''2'' m" by (simp_all add: cron_due_def f c Let_def)
  then show ?thesis using c by (simp add: field_names_def part_names_def p)
qed

lemma leap_day_not_found:
  assumes "ParseCron ''0 0 29 2 *'' = Inr s" "civil_of_days (date_of after) = (2096, 3, 1)" "0 \<le> after"
  shows "is_zero_time (Next s after)"
proof -
  have "\<not> cron_due ''0 0 29 2 *'' u" if u: "after < u" "u < after + maxLookahead" for u
  proof
    assume "cron_due ''0 0 29 2 *'' u"
    then obtain y where y: "civil_of_days (date_of u) = (y, 2, 29)" using leap_day_cron_due by blast
    have "date_of after \<le> date_of u" using u by (intro date_of_mono) simp
    then have lo: "\<not> date_of u < date_of after" by simp
    have "u div day_ns \<le> (after + 1830 * day_ns) div day_ns"
      using u by (intro zdiv_mono1) (simp_all add: maxLookahead_def day_ns_def)
    then have "date_of u \<le> date_of after + 1830" by (simp add: date_of_def day_ns_def)
    moreover have "date_of after = days_of_civil 2096 3 1" using civil_of_days_spec(2) [OF assms(2)] by simp
    moreover have "days_of_civil 2096 3 1 + 1830 < days_of_civil 2102 1 1" by code_simp
    moreover have "civil_of_days (days_of_civil 2102 1 1) = (2102, 1, 1)" by code_simp
    ultimately have "y < 2102" using civil_less_iff [OF y, of "days_of_civil 2102 1 1" 2102 1 1] by auto
    moreover have "2096 < y" using lo civil_less_iff [OF y assms(2)] by auto
    moreover have "leap y" using civil_of_days_spec(1) [OF y]
      by (auto simp: valid_civil_def month_len_def month_lengths_def split: if_splits)
    ultimately have "y \<in> {2097, 2098, 2099, 2100, 2101}" "leap y" by auto
    then show False by (auto simp: leap_def)
  qed
  moreover have "zero_time \<le> after" using assms(3) by (simp add: zero_time_def day_ns_def)
  ultimately show ?thesis using Next_exact [of after s] ParseCron_fires [OF assms(1)] by (auto split: if_splits)
qed

end
