(* ===== verification/Jobs.thy ===== *)
theory Jobs
  imports Cron
begin

text \<open>
  \<open>kernel/jobs\<close>: the durable job queue (\<open>store.go\<close>), recurring schedules (\<open>schedules.go\<close>) and the runner that
  drains a tenant's queue (\<open>runner.go\<close>). The three tables are lists of rows with their keys checked as
  migration 0054 declares them; the due times and leases are microseconds since the epoch, as the columns are.

  A claim is one statement that chooses a candidate and updates it under the same predicate. The model keeps
  the two halves apart (\<open>claim_candidate\<close>, \<open>claim_update\<close>), because on Postgres another worker's transaction may
  run in between. Identifiers and claim tokens come from the caller, as does the clock; handlers are
  parameters that may change the job tables. Timestamps are taken at the resolution the databases keep.
\<close>

section \<open>Tables\<close>

record job_row =
  jb_tenant :: string
  jb_id :: string
  jb_kind :: string
  jb_payload :: string
  jb_dedupe :: "string option"
  jb_status :: string
  jb_run_at :: int
  jb_attempts :: int
  jb_locked_until :: "int option"
  jb_locked_by :: "string option"
  jb_token :: "string option"
  jb_error :: "string option"
  jb_created :: int
  jb_updated :: int

record DeadLetter =
  dl_tenant :: string
  dl_id :: string
  dl_job :: string
  dl_kind :: string
  dl_payload :: string
  dl_error :: string
  dl_attempts :: int
  dl_failed_at :: int

record schedule_row =
  sc_tenant :: string
  sc_id :: string
  sc_kind :: string
  sc_cron :: string
  sc_payload :: string
  sc_owner :: string
  sc_next :: int
  sc_created :: int
  sc_updated :: int

record job_db =
  jobs :: "job_row list"
  job_dead_letters :: "DeadLetter list"
  job_schedules :: "schedule_row list"

record Job =
  job_ID :: string
  job_Kind :: string
  job_Payload :: string
  job_Attempts :: int
  job_RunAt :: int
  job_CreatedAt :: int

record Schedule =
  sch_ID :: string
  sch_Kind :: string
  sch_Cron :: string
  sch_Payload :: string
  sch_Owner :: string
  sch_NextRunAt :: int

datatype jobs_error =
    ErrJobsRequired
  | ErrJobNotFound
  | ErrJobsUnique
  | ErrJobCron cron_error
  | ErrScheduleNever string

definition StatusPending :: string where "StatusPending = ''pending''"
definition StatusRunning :: string where "StatusRunning = ''running''"
definition StatusDone :: string where "StatusDone = ''done''"

definition MaxAttempts :: int where "MaxAttempts = 3"
definition LeaseDuration :: int where "LeaseDuration = 300000000000"
definition retryBase :: int where "retryBase = 10000000000"
definition retryMax :: int where "retryMax = 300000000000"
definition claimCandidates :: nat where "claimCandidates = 10"

definition micros :: "int \<Rightarrow> int" where
  "micros t = t div 1000"

definition unmicros :: "int \<Rightarrow> int" where
  "unmicros us = us * 1000"

lemma status_distinct [simp]:
  "StatusPending \<noteq> StatusDone" "StatusRunning \<noteq> StatusDone" "StatusPending \<noteq> StatusRunning"
  "StatusDone \<noteq> StatusPending" "StatusDone \<noteq> StatusRunning" "StatusRunning \<noteq> StatusPending"
  by (simp_all add: StatusPending_def StatusRunning_def StatusDone_def)

definition is_job :: "string \<Rightarrow> string \<Rightarrow> job_row \<Rightarrow> bool" where
  "is_job tenant rid j \<longleftrightarrow> jb_tenant j = tenant \<and> jb_id j = rid"

section \<open>Enqueue\<close>

text \<open>The insert of \<open>Enqueue\<close>, under the primary key and the unique index over tenant, kind and dedupe key (in
  which rows without a key are distinct).\<close>

definition insert_job :: "job_row \<Rightarrow> (job_db, jobs_error, string) tx" where
  "insert_job row db =
     (if (\<exists>j \<in> set (jobs db). is_job (jb_tenant row) (jb_id row) j \<or>
          (jb_tenant j = jb_tenant row \<and> jb_kind j = jb_kind row \<and> jb_dedupe j \<noteq> None \<and> jb_dedupe j = jb_dedupe row))
      then (Inl ErrJobsUnique, db)
      else (Inr (jb_id row), db\<lparr>jobs := jobs db @ [row]\<rparr>))"

definition Enqueue ::
  "int \<Rightarrow> string \<Rightarrow> string \<Rightarrow> string \<Rightarrow> string \<Rightarrow> int \<Rightarrow> string \<Rightarrow> (job_db, jobs_error, string) tx" where
  "Enqueue now fresh tenant kind payload runAt dedupeKey db =
     (if tenant = '''' \<or> kind = '''' then (Inl ErrJobsRequired, db)
      else
        let runAt' = (if is_zero_time runAt then now else runAt);
            existing = (if dedupeKey \<noteq> ''''
              then List.find (\<lambda>j. jb_tenant j = tenant \<and> jb_kind j = kind \<and> jb_dedupe j = Some dedupeKey) (jobs db)
              else None)
        in case existing of Some j \<Rightarrow> (Inr (jb_id j), db)
           | None \<Rightarrow> insert_job \<lparr>jb_tenant = tenant, jb_id = fresh, jb_kind = kind, jb_payload = payload,
               jb_dedupe = (if dedupeKey \<noteq> '''' then Some dedupeKey else None), jb_status = StatusPending,
               jb_run_at = micros runAt', jb_attempts = 0, jb_locked_until = None, jb_locked_by = None,
               jb_token = None, jb_error = None, jb_created = now, jb_updated = now\<rparr> db)"

section \<open>Claim\<close>

definition claimable :: "int \<Rightarrow> job_row \<Rightarrow> bool" where
  "claimable now j \<longleftrightarrow> jb_run_at j \<le> micros now \<and> jb_status j \<noteq> StatusDone \<and>
     (jb_status j = StatusPending \<or> (case jb_locked_until j of None \<Rightarrow> True | Some l \<Rightarrow> l \<le> micros now))"

definition due_jobs :: "string \<Rightarrow> int \<Rightarrow> job_db \<Rightarrow> job_row list" where
  "due_jobs tenant now db = filter (\<lambda>j. jb_tenant j = tenant \<and> claimable now j) (jobs db)"

text \<open>\<open>SELECT id ... ORDER BY run_at_us, id LIMIT 1\<close>\<close>

fun job_before :: "job_row \<Rightarrow> job_row \<Rightarrow> bool" where
  "job_before a b \<longleftrightarrow> jb_run_at a < jb_run_at b \<or> (jb_run_at a = jb_run_at b \<and> jb_id a < jb_id b)"

fun first_due :: "job_row list \<Rightarrow> job_row option" where
  "first_due [] = None"
| "first_due (j # js) =
     (case first_due js of None \<Rightarrow> Some j | Some k \<Rightarrow> if job_before k j then Some k else Some j)"

definition claim_candidate :: "string \<Rightarrow> int \<Rightarrow> job_db \<Rightarrow> string option" where
  "claim_candidate tenant now db = map_option jb_id (first_due (due_jobs tenant now db))"

definition claim_row :: "string \<Rightarrow> string \<Rightarrow> int \<Rightarrow> job_row \<Rightarrow> job_row" where
  "claim_row worker token now j = j\<lparr>jb_status := StatusRunning, jb_locked_until := Some (micros (now + LeaseDuration)),
     jb_locked_by := Some worker, jb_token := Some token, jb_attempts := jb_attempts j + 1, jb_updated := now\<rparr>"

definition claim_update ::
  "string \<Rightarrow> string \<Rightarrow> string \<Rightarrow> int \<Rightarrow> string option \<Rightarrow> job_db \<Rightarrow> nat \<times> job_db" where
  "claim_update tenant worker token now candidate db =
     (let hit = (\<lambda>j. jb_tenant j = tenant \<and> Some (jb_id j) = candidate \<and> claimable now j)
      in (length (filter hit (jobs db)),
          db\<lparr>jobs := map (\<lambda>j. if hit j then claim_row worker token now j else j) (jobs db)\<rparr>))"

definition read_claimed :: "string \<Rightarrow> string \<Rightarrow> job_db \<Rightarrow> Job option" where
  "read_claimed tenant token db =
     map_option (\<lambda>j. \<lparr>job_ID = jb_id j, job_Kind = jb_kind j, job_Payload = jb_payload j, job_Attempts = jb_attempts j,
         job_RunAt = unmicros (jb_run_at j), job_CreatedAt = jb_created j\<rparr>)
       (List.find (\<lambda>j. jb_tenant j = tenant \<and> jb_token j = Some token) (jobs db))"

fun claim_loop :: "string \<Rightarrow> string \<Rightarrow> int \<Rightarrow> string list \<Rightarrow> job_db \<Rightarrow> Job option \<times> job_db" where
  "claim_loop tenant worker now [] db = (None, db)"
| "claim_loop tenant worker now (token # tokens) db =
     (let (n, db1) = claim_update tenant worker token now (claim_candidate tenant now db) db in
      if n = 0 then (if due_jobs tenant now db1 = [] then (None, db1) else claim_loop tenant worker now tokens db1)
      else (read_claimed tenant token db1, db1))"

definition Claim :: "string \<Rightarrow> string \<Rightarrow> int \<Rightarrow> (nat \<Rightarrow> string) \<Rightarrow> job_db \<Rightarrow> Job option \<times> job_db" where
  "Claim tenant worker now tokens db = claim_loop tenant worker now (map tokens [0..<claimCandidates]) db"

section \<open>Outcome\<close>

definition Complete :: "string \<Rightarrow> string \<Rightarrow> int \<Rightarrow> job_db \<Rightarrow> job_db" where
  "Complete tenant rid now db = db\<lparr>jobs := map (\<lambda>j. if is_job tenant rid j
     then j\<lparr>jb_status := StatusDone, jb_locked_until := None, jb_locked_by := None, jb_updated := now\<rparr> else j) (jobs db)\<rparr>"

fun backoff_loop :: "nat \<Rightarrow> int \<Rightarrow> int" where
  "backoff_loop 0 d = d"
| "backoff_loop (Suc k) d = (if retryMax \<le> d * 2 then retryMax else backoff_loop k (d * 2))"

definition backoff :: "int \<Rightarrow> int" where
  "backoff attempts = backoff_loop (nat (attempts - 1)) retryBase"

definition Fail ::
  "string \<Rightarrow> string \<Rightarrow> string \<Rightarrow> string option \<Rightarrow> int \<Rightarrow> (job_db, jobs_error, unit) tx" where
  "Fail fresh tenant rid cause now db =
     (let msg = take 2000 (case cause of None \<Rightarrow> ''unknown'' | Some m \<Rightarrow> m) in
      case List.find (is_job tenant rid) (jobs db) of None \<Rightarrow> (Inl ErrJobNotFound, db)
      | Some row \<Rightarrow>
          if jb_attempts row < MaxAttempts then
            (Inr (), db\<lparr>jobs := map (\<lambda>j. if is_job tenant rid j
               then j\<lparr>jb_status := StatusPending, jb_run_at := micros (now + backoff (jb_attempts row)),
                 jb_locked_until := None, jb_locked_by := None, jb_error := Some msg, jb_updated := now\<rparr> else j) (jobs db)\<rparr>)
          else if (\<exists>l \<in> set (job_dead_letters db). dl_tenant l = tenant \<and> dl_id l = fresh) then (Inl ErrJobsUnique, db)
          else (Inr (), db\<lparr>
              job_dead_letters := job_dead_letters db @ [\<lparr>dl_tenant = tenant, dl_id = fresh, dl_job = rid,
                dl_kind = jb_kind row, dl_payload = jb_payload row, dl_error = msg, dl_attempts = jb_attempts row,
                dl_failed_at = now\<rparr>],
              jobs := filter (\<lambda>j. \<not> is_job tenant rid j) (jobs db)\<rparr>))"

text \<open>\<open>ORDER BY failed_at DESC, id\<close>: newest first, then by id.\<close>

definition DeadLetters :: "string \<Rightarrow> string \<Rightarrow> job_db \<Rightarrow> jobs_error + DeadLetter list" where
  "DeadLetters tenant kind db =
     (if tenant = '''' then Inl ErrJobsRequired
      else Inr (sort_key (\<lambda>l. - dl_failed_at l) (sort_key dl_id
             (filter (\<lambda>l. dl_tenant l = tenant \<and> (kind = '''' \<or> dl_kind l = kind)) (job_dead_letters db)))))"

text \<open>SQL's \<open>LIKE\<close>: SQLite compares letters without case and has no escape, Postgres compares exactly and
  escapes with a backslash.\<close>

definition like_char :: "dialect \<Rightarrow> char \<Rightarrow> char" where
  "like_char dial c = (if dial = SQLite then upper_char c else c)"

function like :: "dialect \<Rightarrow> string \<Rightarrow> string \<Rightarrow> bool" where
  "like dial [] s = (s = [])"
| "like dial (c # p) s =
     (if c = CHR ''%'' then like dial p s \<or> (case s of [] \<Rightarrow> False | x # r \<Rightarrow> like dial (c # p) r)
      else if dial = Postgres \<and> c = CHR 0x5C then
        (case (p, s) of (e # q, x # r) \<Rightarrow> e = x \<and> like dial q r | _ \<Rightarrow> False)
      else (case s of [] \<Rightarrow> False
            | x # r \<Rightarrow> (c = CHR ''_'' \<or> like_char dial c = like_char dial x) \<and> like dial p r))"
  by pat_completeness auto
termination by (relation "measure (\<lambda>(dial, p, s). length p + length s)") auto

definition CountPending :: "dialect \<Rightarrow> string \<Rightarrow> string \<Rightarrow> string \<Rightarrow> job_db \<Rightarrow> nat" where
  "CountPending dial tenant kind owner db =
     length (filter (\<lambda>j. jb_tenant j = tenant \<and> jb_kind j = kind \<and> jb_status j \<noteq> StatusDone \<and>
       (owner = '''' \<or> like dial (''%'' @ owner @ ''%'') (jb_payload j))) (jobs db))"

end
