(* ===== verification/JobRunner.thy ===== *)
theory JobRunner
  imports Jobs
begin

text \<open>
  Recurring schedules (\<open>kernel/jobs/schedules.go\<close>) and the runner (\<open>runner.go\<close>). A tick enqueues one job per due
  schedule and advances the schedule past the present; the runner ticks, then claims and runs due jobs until
  the queue is empty or the pass has run its share.

  Each database transaction of a tick is a definition of its own (\<open>dueSchedules\<close>, \<open>advanceSchedule\<close>, \<open>Enqueue\<close>).
  The bound of a pass is the length of the list of fresh identifiers it is given, one element per job it may
  run: the tokens its claim may use and the id of the dead letter it may file.
\<close>

section \<open>Schedules\<close>

definition is_schedule :: "string \<Rightarrow> string \<Rightarrow> schedule_row \<Rightarrow> bool" where
  "is_schedule tenant sid s \<longleftrightarrow> sc_tenant s = tenant \<and> sc_id s = sid"

definition UpsertSchedule :: "string \<Rightarrow> Schedule \<Rightarrow> int \<Rightarrow> (job_db, jobs_error, unit) tx" where
  "UpsertSchedule tenant s now db =
     (if tenant = '''' \<or> sch_ID s = '''' \<or> sch_Kind s = '''' \<or> sch_Owner s = '''' then (Inl ErrJobsRequired, db)
      else (case ParseCron (sch_Cron s) of Inl e \<Rightarrow> (Inl (ErrJobCron e), db)
      | Inr cron \<Rightarrow>
         (let nxt = Next cron now in
          if is_zero_time nxt then (Inl (ErrScheduleNever (sch_Cron s)), db)
          else if (\<exists>r \<in> set (job_schedules db). is_schedule tenant (sch_ID s) r) then
            (Inr (), db\<lparr>job_schedules := map (\<lambda>r. if is_schedule tenant (sch_ID s) r
               then r\<lparr>sc_kind := sch_Kind s, sc_cron := sch_Cron s, sc_payload := sch_Payload s, sc_owner := sch_Owner s,
                 sc_next := micros nxt, sc_updated := now\<rparr> else r) (job_schedules db)\<rparr>)
          else
            (Inr (), db\<lparr>job_schedules := job_schedules db @ [\<lparr>sc_tenant = tenant, sc_id = sch_ID s, sc_kind = sch_Kind s,
               sc_cron = sch_Cron s, sc_payload = sch_Payload s, sc_owner = sch_Owner s, sc_next = micros nxt,
               sc_created = now, sc_updated = now\<rparr>]\<rparr>))))"

definition DeleteSchedulesByOwner :: "string \<Rightarrow> string \<Rightarrow> (job_db, jobs_error, unit) tx" where
  "DeleteSchedulesByOwner tenant owner db =
     (if tenant = '''' \<or> owner = '''' then (Inl ErrJobsRequired, db)
      else (Inr (), db\<lparr>job_schedules := filter (\<lambda>r. \<not> (sc_tenant r = tenant \<and> sc_owner r = owner)) (job_schedules db)\<rparr>))"

definition schedule_of :: "schedule_row \<Rightarrow> Schedule" where
  "schedule_of r = \<lparr>sch_ID = sc_id r, sch_Kind = sc_kind r, sch_Cron = sc_cron r, sch_Payload = sc_payload r,
     sch_Owner = sc_owner r, sch_NextRunAt = unmicros (sc_next r)\<rparr>"

definition ListSchedules :: "string \<Rightarrow> job_db \<Rightarrow> Schedule list" where
  "ListSchedules tenant db = map schedule_of (sort_key sc_id (filter (\<lambda>r. sc_tenant r = tenant) (job_schedules db)))"

definition dueSchedules :: "string \<Rightarrow> int \<Rightarrow> job_db \<Rightarrow> Schedule list" where
  "dueSchedules tenant now db =
     map schedule_of (sort_key sc_next (sort_key sc_id
       (filter (\<lambda>r. sc_tenant r = tenant \<and> sc_next r \<le> micros now) (job_schedules db))))"

definition advanceSchedule :: "string \<Rightarrow> string \<Rightarrow> int \<Rightarrow> int \<Rightarrow> int \<Rightarrow> job_db \<Rightarrow> bool \<times> job_db" where
  "advanceSchedule tenant sid from_t to_t now db =
     (let hit = (\<lambda>r. is_schedule tenant sid r \<and> sc_next r = micros from_t)
      in (length (filter hit (job_schedules db)) = 1,
          db\<lparr>job_schedules := map (\<lambda>r. if hit r then r\<lparr>sc_next := micros to_t, sc_updated := now\<rparr> else r)
            (job_schedules db)\<rparr>))"

text \<open>\<open>t.AddDate(n, 0, 0)\<close>: a day that does not exist in the new year carries over into the next month.\<close>

definition add_years :: "int \<Rightarrow> int \<Rightarrow> int" where
  "add_years n t =
     (let (y, m, d) = civil_of_days (date_of t) in (days_of_civil (y + n) m d - 719528) * day_ns + t mod day_ns)"

definition next_firing :: "Cron \<Rightarrow> int \<Rightarrow> int" where
  "next_firing cron now = (let nxt = Next cron now in if is_zero_time nxt then add_years 100 now else nxt)"

fun tick_schedules ::
  "string \<Rightarrow> int \<Rightarrow> (nat \<Rightarrow> string) \<Rightarrow> nat \<Rightarrow> Schedule list \<Rightarrow> job_db \<Rightarrow> (nat \<times> jobs_error option) \<times> job_db" where
  "tick_schedules tenant now fresh n [] db = ((n, None), db)"
| "tick_schedules tenant now fresh n (s # due) db =
     (case ParseCron (sch_Cron s) of Inl _ \<Rightarrow> tick_schedules tenant now fresh n due db
      | Inr cron \<Rightarrow>
          let key = sch_ID s @ CHR ''@'' # format_int (micros (sch_NextRunAt s));
              (advanced, db1) = advanceSchedule tenant (sch_ID s) (sch_NextRunAt s) (next_firing cron now) now db
          in if \<not> advanced then tick_schedules tenant now fresh n due db1
             else (case Enqueue now (fresh n) tenant (sch_Kind s) (sch_Payload s) (sch_NextRunAt s) key db1 of
                     (Inl e, db2) \<Rightarrow> ((n, Some e), db2)
                   | (Inr _, db2) \<Rightarrow> tick_schedules tenant now fresh (n + 1) due db2))"

definition TickSchedules ::
  "string \<Rightarrow> int \<Rightarrow> (nat \<Rightarrow> string) \<Rightarrow> job_db \<Rightarrow> (nat \<times> jobs_error option) \<times> job_db" where
  "TickSchedules tenant now fresh db = tick_schedules tenant now fresh 0 (dueSchedules tenant now db) db"

section \<open>The runner\<close>

datatype handler_result = HandlerOk | HandlerError string | HandlerPanic string

type_synonym Handler = "string \<Rightarrow> string \<Rightarrow> job_db \<Rightarrow> handler_result \<times> job_db"
type_synonym job_registry = "string \<Rightarrow> Handler option"

text \<open>\<open>Register\<close> panics (\<open>None\<close>) on an empty kind and on a kind that has a handler.\<close>

definition Register :: "job_registry \<Rightarrow> string \<Rightarrow> Handler \<Rightarrow> job_registry option" where
  "Register r kind h = (if kind = '''' \<or> r kind \<noteq> None then None else Some (r(kind := Some h)))"

definition runGuarded :: "Handler \<Rightarrow> string \<Rightarrow> string \<Rightarrow> job_db \<Rightarrow> string option \<times> job_db" where
  "runGuarded h tenant payload db =
     (case h tenant payload db of
        (HandlerOk, db1) \<Rightarrow> (None, db1)
      | (HandlerError msg, db1) \<Rightarrow> (Some msg, db1)
      | (HandlerPanic v, db1) \<Rightarrow> (Some (''jobs: handler panicked: '' @ v), db1))"

definition run_job :: "job_registry \<Rightarrow> string \<Rightarrow> string \<Rightarrow> Job \<Rightarrow> int \<Rightarrow> (job_db, jobs_error, unit) tx" where
  "run_job handlers letter tenant job now db =
     (case handlers (job_Kind job) of
        None \<Rightarrow> Fail letter tenant (job_ID job)
          (Some (''jobs: no handler registered for this kind: '' @ job_Kind job)) now db
      | Some h \<Rightarrow>
          (case runGuarded h tenant (job_Payload job) db of
             (Some err, db1) \<Rightarrow> Fail letter tenant (job_ID job) (Some err) now db1
           | (None, db1) \<Rightarrow> (Inr (), Complete tenant (job_ID job) now db1)))"

fun drain ::
  "job_registry \<Rightarrow> string \<Rightarrow> string \<Rightarrow> int \<Rightarrow> ((nat \<Rightarrow> string) \<times> string) list \<Rightarrow> nat \<Rightarrow> job_db \<Rightarrow>
    (nat \<times> jobs_error option) \<times> job_db" where
  "drain handlers worker tenant now [] done_n db = ((done_n, None), db)"
| "drain handlers worker tenant now ((tokens, letter) # ids) done_n db =
     (case Claim tenant worker now tokens db of
        (None, db1) \<Rightarrow> ((done_n, None), db1)
      | (Some job, db1) \<Rightarrow>
          (case run_job handlers letter tenant job now db1 of
             (Inl e, db2) \<Rightarrow> ((done_n, Some e), db2)
           | (Inr _, db2) \<Rightarrow> drain handlers worker tenant now ids (done_n + 1) db2))"

definition RunOnce ::
  "job_registry \<Rightarrow> string \<Rightarrow> string \<Rightarrow> int \<Rightarrow> (nat \<Rightarrow> string) \<Rightarrow> ((nat \<Rightarrow> string) \<times> string) list \<Rightarrow> job_db \<Rightarrow>
    (nat \<times> jobs_error option) \<times> job_db" where
  "RunOnce handlers worker tenant now fresh ids db =
     (case TickSchedules tenant now fresh db of
        ((_, Some e), db1) \<Rightarrow> ((0, Some e), db1)
      | ((_, None), db1) \<Rightarrow> drain handlers worker tenant now ids 0 db1)"

end
