(* ===== verification/JobFacts.thy ===== *)
theory JobFacts
  imports JobRunner
begin

text \<open>What the queue guarantees: a claimed job is delivered to nobody else while its lease lasts, every job
  that is due is eventually done or filed as a dead letter, and a tick fires each due schedule once.\<close>

section \<open>Keys\<close>

definition jobs_keyed :: "job_db \<Rightarrow> bool" where
  "jobs_keyed db \<longleftrightarrow> distinct (map (\<lambda>j. (jb_tenant j, jb_id j)) (jobs db))"

lemma keyed_unique:
  assumes "jobs_keyed db" "j \<in> set (jobs db)" "k \<in> set (jobs db)" "is_job tenant rid j" "is_job tenant rid k"
  shows "j = k"
  using assms by (auto simp: jobs_keyed_def distinct_map is_job_def dest: inj_onD)

lemma keyed_map:
  assumes "\<And>j. jb_tenant (f j) = jb_tenant j \<and> jb_id (f j) = jb_id j"
  shows "jobs_keyed (db\<lparr>jobs := map f (jobs db)\<rparr>) \<longleftrightarrow> jobs_keyed db"
  by (simp add: jobs_keyed_def comp_def assms)

lemma keyed_filter: "jobs_keyed db \<Longrightarrow> jobs_keyed (db\<lparr>job_dead_letters := ls, jobs := filter P (jobs db)\<rparr>)"
  by (simp add: jobs_keyed_def distinct_map_filter)

lemma insert_job_cases:
  obtains "insert_job row db = (Inl ErrJobsUnique, db)"
  | "insert_job row db = (Inr (jb_id row), db\<lparr>jobs := jobs db @ [row]\<rparr>)"
    "\<forall>j \<in> set (jobs db). \<not> is_job (jb_tenant row) (jb_id row) j"
    "\<forall>j \<in> set (jobs db). jb_tenant j = jb_tenant row \<and> jb_kind j = jb_kind row \<and> jb_dedupe j \<noteq> None \<longrightarrow> jb_dedupe j \<noteq> jb_dedupe row"
proof (cases "\<exists>j \<in> set (jobs db). is_job (jb_tenant row) (jb_id row) j \<or>
          (jb_tenant j = jb_tenant row \<and> jb_kind j = jb_kind row \<and> jb_dedupe j \<noteq> None \<and> jb_dedupe j = jb_dedupe row)")
  case True
  then have "insert_job row db = (Inl ErrJobsUnique, db)" unfolding insert_job_def by (rule if_P)
  then show ?thesis by (rule that(1))
next
  case False
  then have "insert_job row db = (Inr (jb_id row), db\<lparr>jobs := jobs db @ [row]\<rparr>)" unfolding insert_job_def by (rule if_not_P)
  then show ?thesis by (rule that(2)) (use False in blast)+
qed

lemma Enqueue_cases:
  obtains e where "Enqueue now fresh tenant kind payload runAt key db = (Inl e, db)"
  | j where "Enqueue now fresh tenant kind payload runAt key db = (Inr (jb_id j), db)"
    "j \<in> set (jobs db)" "jb_tenant j = tenant" "jb_kind j = kind" "jb_dedupe j = Some key"
  | row where "Enqueue now fresh tenant kind payload runAt key db = (Inr (jb_id row), db\<lparr>jobs := jobs db @ [row]\<rparr>)"
    "jb_tenant row = tenant" "jb_kind row = kind" "jb_dedupe row = (if key \<noteq> '''' then Some key else None)"
    "jb_status row = StatusPending" "jb_token row = None"
    "\<forall>j \<in> set (jobs db). \<not> is_job (jb_tenant row) (jb_id row) j"
    "\<forall>j \<in> set (jobs db). jb_tenant j = jb_tenant row \<and> jb_kind j = jb_kind row \<and> jb_dedupe j \<noteq> None \<longrightarrow> jb_dedupe j \<noteq> jb_dedupe row"
proof (cases "tenant = '''' \<or> kind = ''''")
  case True
  then show ?thesis using that(1) by (auto simp: Enqueue_def)
next
  case ok: False
  let ?found = "if key \<noteq> '''' then List.find (\<lambda>j. jb_tenant j = tenant \<and> jb_kind j = kind \<and> jb_dedupe j = Some key) (jobs db)
    else None"
  show ?thesis
  proof (cases ?found)
    case None
    let ?row = "\<lparr>jb_tenant = tenant, jb_id = fresh, jb_kind = kind, jb_payload = payload,
               jb_dedupe = (if key \<noteq> '''' then Some key else None), jb_status = StatusPending,
               jb_run_at = micros (if is_zero_time runAt then now else runAt), jb_attempts = 0, jb_locked_until = None,
               jb_locked_by = None, jb_token = None, jb_error = None, jb_created = now, jb_updated = now\<rparr>"
    have e: "Enqueue now fresh tenant kind payload runAt key db = insert_job ?row db"
      unfolding Enqueue_def Let_def None using ok by simp
    show ?thesis by (rule insert_job_cases [of ?row db]) (use that(1) that(3) [of ?row] in \<open>simp_all add: e\<close>)
  next
    case (Some j)
    then have "j \<in> set (jobs db)" "jb_tenant j = tenant" "jb_kind j = kind" "jb_dedupe j = Some key"
      by (auto split: if_splits dest: find_SomeD)
    moreover have "Enqueue now fresh tenant kind payload runAt key db = (Inr (jb_id j), db)"
      unfolding Enqueue_def Let_def Some using ok by simp
    ultimately show ?thesis using that(2) by blast
  qed
qed

lemma Enqueue_keyed: "jobs_keyed db \<Longrightarrow> jobs_keyed (snd (Enqueue now fresh tenant kind payload runAt key db))"
  by (rule Enqueue_cases [of now fresh tenant kind payload runAt key db])
    (auto simp: jobs_keyed_def is_job_def)

lemma Enqueue_keeps:
  "set (jobs db) \<subseteq> set (jobs (snd (Enqueue now fresh tenant kind payload runAt key db))) \<and>
   job_dead_letters (snd (Enqueue now fresh tenant kind payload runAt key db)) = job_dead_letters db \<and>
   job_schedules (snd (Enqueue now fresh tenant kind payload runAt key db)) = job_schedules db"
  by (rule Enqueue_cases [of now fresh tenant kind payload runAt key db]) auto

text \<open>The unique index is what a second producer meets: if another transaction inserted the same key after the
  check, the insert fails, and so does the call.\<close>

lemma Enqueue_race_fails:
  assumes "j \<in> set (jobs db)" "jb_tenant j = jb_tenant row" "jb_kind j = jb_kind row" "jb_dedupe j = jb_dedupe row"
    "jb_dedupe row \<noteq> None"
  shows "insert_job row db = (Inl ErrJobsUnique, db)"
  using assms by (auto simp: insert_job_def)

section \<open>A claim takes the first due job\<close>

lemma first_due_None [simp]: "first_due js = None \<longleftrightarrow> js = []"
  by (cases js) (auto split: option.splits)

lemma first_due_Some: "first_due js = Some j \<Longrightarrow> j \<in> set js \<and> (\<forall>k \<in> set js. \<not> job_before k j)"
proof (induction js arbitrary: j)
  case (Cons x js)
  have tr: "job_before a b \<Longrightarrow> \<not> job_before a c \<Longrightarrow> job_before c b" for a b c
    by (simp add: not_less) (metis less_le_trans le_less_trans less_le not_less_iff_gr_or_eq)
  show ?case
  proof (cases "first_due js")
    case None
    then show ?thesis using Cons.prems by auto
  next
    case (Some k)
    note ih = Cons.IH [OF Some]
    show ?thesis
    proof (cases "job_before k x")
      case True
      then have "j = k" using Some Cons.prems by (simp del: job_before.simps)
      moreover have "\<not> job_before x k" using True by auto
      ultimately show ?thesis using ih by (simp del: job_before.simps)
    next
      case False
      then have "j = x" using Some Cons.prems by (simp del: job_before.simps)
      moreover have "\<not> job_before m x" if m: "m \<in> set js" for m
      proof
        assume x: "job_before m x"
        have "\<not> job_before m k" using ih m by blast
        with x have "job_before k x" by (rule tr)
        with False show False by simp
      qed
      moreover have "\<not> job_before x x" by simp
      ultimately show ?thesis by (simp del: job_before.simps)
    qed
  qed
qed simp

abbreviation job_view :: "job_row \<Rightarrow> Job" where
  "job_view j \<equiv> \<lparr>job_ID = jb_id j, job_Kind = jb_kind j, job_Payload = jb_payload j, job_Attempts = jb_attempts j,
     job_RunAt = unmicros (jb_run_at j), job_CreatedAt = jb_created j\<rparr>"

definition unused_token :: "string \<Rightarrow> job_db \<Rightarrow> bool" where
  "unused_token token db \<longleftrightarrow> (\<forall>j \<in> set (jobs db). jb_token j \<noteq> Some token)"

lemma filter_single:
  assumes "jobs_keyed db" "j \<in> set (jobs db)" "P j" "\<And>k. P k \<Longrightarrow> is_job (jb_tenant j) (jb_id j) k"
  shows "filter P (jobs db) = [j]"
proof -
  have d: "distinct (jobs db)" using assms(1) by (auto simp: jobs_keyed_def distinct_map)
  have "k = j" if "k \<in> set (filter P (jobs db))" for k
  proof -
    have k: "k \<in> set (jobs db)" "is_job (jb_tenant j) (jb_id j) k" using that assms(4) by simp_all
    have "is_job (jb_tenant j) (jb_id j) j" by (simp add: is_job_def)
    from keyed_unique [OF assms(1) k(1) assms(2) k(2) this] show ?thesis .
  qed
  moreover have "j \<in> set (filter P (jobs db))" using assms(2,3) by simp
  ultimately have s: "set (filter P (jobs db)) = {j}" by fast
  have "distinct (filter P (jobs db))" using d by simp
  from distinct_card [OF this] have "length (filter P (jobs db)) = 1" unfolding s by simp
  then obtain k where "filter P (jobs db) = [k]" by (auto simp: length_Suc_conv)
  with s show ?thesis by simp
qed

text \<open>The statement of one claim, with a candidate that any earlier state may have suggested.\<close>

lemma claim_update_hit:
  assumes "jobs_keyed db" "j \<in> set (jobs db)" "is_job tenant rid j" "claimable now j" "unused_token token db"
  shows "claim_update tenant worker token now (Some rid) db =
      (1, db\<lparr>jobs := map (\<lambda>k. if is_job tenant rid k then claim_row worker token now k else k) (jobs db)\<rparr>)"
    "read_claimed tenant token (snd (claim_update tenant worker token now (Some rid) db)) =
      Some (job_view (claim_row worker token now j))"
proof -
  let ?hit = "\<lambda>k. jb_tenant k = tenant \<and> Some (jb_id k) = Some rid \<and> claimable now k"
  have one: "filter ?hit (jobs db) = [j]"
    using assms by (intro filter_single) (auto simp: is_job_def)
  have same: "map (\<lambda>k. if ?hit k then claim_row worker token now k else k) (jobs db) =
    map (\<lambda>k. if is_job tenant rid k then claim_row worker token now k else k) (jobs db)"
  proof (rule map_cong [OF refl])
    fix k assume k: "k \<in> set (jobs db)"
    have "?hit k \<longleftrightarrow> is_job tenant rid k"
      using keyed_unique [OF assms(1,2) k assms(3)] assms(4) by (auto simp: is_job_def)
    then show "(if ?hit k then claim_row worker token now k else k) =
      (if is_job tenant rid k then claim_row worker token now k else k)" by (simp only:)
  qed
  show u: "claim_update tenant worker token now (Some rid) db =
      (1, db\<lparr>jobs := map (\<lambda>k. if is_job tenant rid k then claim_row worker token now k else k) (jobs db)\<rparr>)"
    unfolding claim_update_def Let_def one same by simp
  let ?js = "map (\<lambda>k. if is_job tenant rid k then claim_row worker token now k else k) (jobs db)"
  have "List.find (\<lambda>k. jb_tenant k = tenant \<and> jb_token k = Some token) ?js = Some (claim_row worker token now j)"
  proof (rule find_unique)
    show "claim_row worker token now j \<in> set ?js" using assms(2,3) by force
    show "jb_tenant (claim_row worker token now j) = tenant \<and> jb_token (claim_row worker token now j) = Some token"
      using assms(3) by (simp add: claim_row_def is_job_def)
    fix y assume y: "y \<in> set ?js" "jb_tenant y = tenant \<and> jb_token y = Some token"
    then obtain k where k: "k \<in> set (jobs db)" "y = (if is_job tenant rid k then claim_row worker token now k else k)"
      by auto
    with y(2) assms(5) have "is_job tenant rid k" by (auto simp: unused_token_def split: if_splits)
    with k keyed_unique [OF assms(1) k(1) assms(2) _ assms(3)] show "y = claim_row worker token now j" by simp
  qed
  then show "read_claimed tenant token (snd (claim_update tenant worker token now (Some rid) db)) =
      Some (job_view (claim_row worker token now j))"
    unfolding u by (simp add: read_claimed_def)
qed

lemma claim_update_miss:
  assumes "\<forall>j \<in> set (jobs db). jb_tenant j = tenant \<and> Some (jb_id j) = candidate \<longrightarrow> \<not> claimable now j"
  shows "claim_update tenant worker token now candidate db = (0, db)"
proof -
  have "map (\<lambda>j. if jb_tenant j = tenant \<and> Some (jb_id j) = candidate \<and> claimable now j
    then claim_row worker token now j else j) (jobs db) = jobs db"
    using assms by (intro map_idI) auto
  then show ?thesis using assms by (auto simp: claim_update_def Let_def filter_empty_conv)
qed

lemma Claim_none:
  assumes "due_jobs tenant now db = []"
  shows "Claim tenant worker now tokens db = (None, db)"
proof -
  have c: "claim_candidate tenant now db = None" by (simp add: claim_candidate_def assms)
  have "claim_loop tenant worker now (map tokens [0..<claimCandidates]) db = (None, db)"
    using claim_update_miss [of db tenant None now worker "tokens 0"] assms c
    by (simp add: claimCandidates_def upt_rec)
  then show ?thesis by (simp add: Claim_def)
qed

lemma Claim_some:
  assumes "jobs_keyed db" "first_due (due_jobs tenant now db) = Some j" "unused_token (tokens 0) db"
  shows "Claim tenant worker now tokens db = (Some (job_view (claim_row worker (tokens 0) now j)),
    db\<lparr>jobs := map (\<lambda>k. if is_job tenant (jb_id j) k then claim_row worker (tokens 0) now k else k) (jobs db)\<rparr>)"
proof -
  have j: "j \<in> set (jobs db)" "is_job tenant (jb_id j) j" "claimable now j"
    using first_due_Some [OF assms(2)] by (auto simp: due_jobs_def is_job_def)
  have c: "claim_candidate tenant now db = Some (jb_id j)" by (simp add: claim_candidate_def assms(2))
  note u = claim_update_hit [OF assms(1) j assms(3), of worker]
  have "map tokens [0..<claimCandidates] = tokens 0 # map tokens [1..<claimCandidates]"
    by (simp add: claimCandidates_def upt_rec)
  then show ?thesis using u(2) by (simp add: Claim_def c u(1))
qed

section \<open>Interleavings\<close>

text \<open>The transactions of the queue, in any order and from any worker. A claim carries the candidate its
  subquery chose, which may come from an older state than the one its update meets.\<close>

datatype queue_op =
    QEnqueue int string string string string int string
  | QClaim string string string int "string option"
  | QComplete string string int
  | QFail string string string "string option" int
  | QTick string int "nat \<Rightarrow> string"

fun queue_exec :: "queue_op \<Rightarrow> job_db \<Rightarrow> (string \<times> string) option \<times> job_db" where
  "queue_exec (QEnqueue now fresh tenant kind payload runAt key) db =
     (None, snd (Enqueue now fresh tenant kind payload runAt key db))"
| "queue_exec (QClaim tenant worker token now candidate) db =
     (let (n, db1) = claim_update tenant worker token now candidate db
      in (if n = 0 then None else map_option (\<lambda>job. (tenant, job_ID job)) (read_claimed tenant token db1), db1))"
| "queue_exec (QComplete tenant rid now) db = (None, Complete tenant rid now db)"
| "queue_exec (QFail fresh tenant rid cause now) db = (None, snd (Fail fresh tenant rid cause now db))"
| "queue_exec (QTick tenant now fresh) db = (None, snd (TickSchedules tenant now fresh db))"

text \<open>The jobs handed out along a run.\<close>

fun deliveries :: "queue_op list \<Rightarrow> job_db \<Rightarrow> (string \<times> string) list" where
  "deliveries [] db = []"
| "deliveries (op # ops) db =
     (case queue_exec op db of (None, db1) \<Rightarrow> deliveries ops db1 | (Some d, db1) \<Rightarrow> d # deliveries ops db1)"

lemma Claim_step:
  assumes "jobs_keyed db" "unused_token (tokens 0) db"
  shows "queue_exec (QClaim tenant worker (tokens 0) now (claim_candidate tenant now db)) db =
    (map_option (\<lambda>job. (tenant, job_ID job)) (fst (Claim tenant worker now tokens db)),
     snd (Claim tenant worker now tokens db))"
proof (cases "first_due (due_jobs tenant now db)")
  case None
  then have "due_jobs tenant now db = []" by simp
  then show ?thesis
    using claim_update_miss [of db tenant None now worker "tokens 0"]
    by (simp add: Claim_none claim_candidate_def)
next
  case (Some j)
  have j: "j \<in> set (jobs db)" "is_job tenant (jb_id j) j" "claimable now j"
    using first_due_Some [OF Some] by (auto simp: due_jobs_def is_job_def)
  show ?thesis
    using claim_update_hit [OF assms(1) j assms(2), of worker] Claim_some [where tokens = tokens and worker = worker, OF assms(1) Some assms(2)]
    by (simp add: claim_candidate_def Some claim_row_def)
qed

lemma Complete_keyed: "jobs_keyed db \<Longrightarrow> jobs_keyed (Complete tenant rid now db)"
  unfolding Complete_def by (subst keyed_map) (auto simp: is_job_def)

lemma Fail_cases:
  obtains e where "Fail fresh tenant rid cause now db = (Inl e, db)"
  | j msg where "j \<in> set (jobs db)" "is_job tenant rid j" "jb_attempts j < MaxAttempts"
    "Fail fresh tenant rid cause now db = (Inr (), db\<lparr>jobs := map (\<lambda>j'. if is_job tenant rid j'
       then j'\<lparr>jb_status := StatusPending, jb_run_at := micros (now + backoff (jb_attempts j)),
         jb_locked_until := None, jb_locked_by := None, jb_error := Some msg, jb_updated := now\<rparr> else j') (jobs db)\<rparr>)"
  | j l where "j \<in> set (jobs db)" "is_job tenant rid j" "\<not> jb_attempts j < MaxAttempts" "dl_tenant l = tenant" "dl_job l = rid"
    "dl_id l = fresh"
    "Fail fresh tenant rid cause now db = (Inr (), db\<lparr>job_dead_letters := job_dead_letters db @ [l],
       jobs := filter (\<lambda>j. \<not> is_job tenant rid j) (jobs db)\<rparr>)"
proof (cases "List.find (is_job tenant rid) (jobs db)")
  case None
  then show ?thesis using that(1) by (simp add: Fail_def)
next
  case (Some j)
  note j = find_SomeD [OF Some]
  show ?thesis
  proof (cases "jb_attempts j < MaxAttempts")
    case True
    let ?msg = "take 2000 (case cause of None \<Rightarrow> ''unknown'' | Some m \<Rightarrow> m)"
    have "Fail fresh tenant rid cause now db = (Inr (), db\<lparr>jobs := map (\<lambda>j'. if is_job tenant rid j'
       then j'\<lparr>jb_status := StatusPending, jb_run_at := micros (now + backoff (jb_attempts j)),
         jb_locked_until := None, jb_locked_by := None, jb_error := Some ?msg, jb_updated := now\<rparr> else j') (jobs db)\<rparr>)"
      unfolding Fail_def Some Let_def option.case if_P [OF True] by (rule refl)
    from that(2) [OF _ _ True this] j show ?thesis by blast
  next
    case False
    let ?l = "\<lparr>dl_tenant = tenant, dl_id = fresh, dl_job = rid, dl_kind = jb_kind j, dl_payload = jb_payload j,
        dl_error = take 2000 (case cause of None \<Rightarrow> ''unknown'' | Some m \<Rightarrow> m), dl_attempts = jb_attempts j,
        dl_failed_at = now\<rparr>"
    let ?used = "\<exists>l \<in> set (job_dead_letters db). dl_tenant l = tenant \<and> dl_id l = fresh"
    have e: "Fail fresh tenant rid cause now db = (if ?used then (Inl ErrJobsUnique, db) else
      (Inr (), db\<lparr>job_dead_letters := job_dead_letters db @ [?l], jobs := filter (\<lambda>j. \<not> is_job tenant rid j) (jobs db)\<rparr>))"
      unfolding Fail_def Some Let_def option.case if_not_P [OF False] by (rule refl)
    show ?thesis
    proof (cases ?used)
      case True
      then show ?thesis using e by (intro that(1)) (rule trans [OF e if_P])
    next
      case unused: False
      show ?thesis by (rule that(3) [of j ?l]) (use j False in \<open>simp_all add: trans [OF e if_not_P [OF unused]]\<close>)
    qed
  qed
qed

lemma Fail_keyed: "jobs_keyed db \<Longrightarrow> jobs_keyed (snd (Fail fresh tenant rid cause now db))"
proof (rule Fail_cases [of fresh tenant rid cause now db], goal_cases)
  case (2 j msg)
  then show ?case by (simp, subst keyed_map) (auto simp: is_job_def)
next
  case (3 j l)
  then show ?case by (simp add: keyed_filter)
qed simp

lemma tick_keeps:
  "set (jobs db) \<subseteq> set (jobs (snd (tick_schedules tenant now fresh n due db))) \<and>
   job_dead_letters (snd (tick_schedules tenant now fresh n due db)) = job_dead_letters db \<and>
   (jobs_keyed db \<longrightarrow> jobs_keyed (snd (tick_schedules tenant now fresh n due db)))"
proof (induction due arbitrary: n db)
  case (Cons s due)
  show ?case
  proof (cases "ParseCron (sch_Cron s)")
    case (Inr cron)
    obtain ok db1 where adv: "advanceSchedule tenant (sch_ID s) (sch_NextRunAt s) (next_firing cron now) now db = (ok, db1)"
      by (metis surj_pair)
    then have d: "jobs db1 = jobs db" "job_dead_letters db1 = job_dead_letters db" "jobs_keyed db1 = jobs_keyed db"
      by (auto simp: advanceSchedule_def Let_def jobs_keyed_def)
    let ?key = "sch_ID s @ CHR ''@'' # format_int (micros (sch_NextRunAt s))"
    obtain r db2 where enq: "Enqueue now (fresh n) tenant (sch_Kind s) (sch_Payload s) (sch_NextRunAt s) ?key db1 = (r, db2)"
      by (metis surj_pair)
    have e: "set (jobs db1) \<subseteq> set (jobs db2)" "job_dead_letters db2 = job_dead_letters db1" "jobs_keyed db1 \<longrightarrow> jobs_keyed db2"
      using Enqueue_keeps [of db1 now "fresh n" tenant "sch_Kind s" "sch_Payload s" "sch_NextRunAt s" ?key]
        Enqueue_keyed [of db1 now "fresh n" tenant "sch_Kind s" "sch_Payload s" "sch_NextRunAt s" ?key]
      by (simp_all add: enq)
    show ?thesis using d e Cons.IH [of db1 n] Cons.IH [of db2 "n + 1"] by (cases r) (auto simp: Inr adv enq Let_def)
  qed (simp add: Cons.IH)
qed simp

lemmas Tick_keeps = tick_keeps [of db tenant now fresh 0 "dueSchedules tenant now db" for db tenant now fresh,
    folded TickSchedules_def]

text \<open>A job that a worker holds under a lease: the transactions of others leave it alone.\<close>

definition held :: "string \<Rightarrow> string \<Rightarrow> string \<Rightarrow> int \<Rightarrow> job_db \<Rightarrow> bool" where
  "held tenant rid token until db \<longleftrightarrow> jobs_keyed db \<and> (\<exists>j \<in> set (jobs db). is_job tenant rid j \<and>
     jb_status j = StatusRunning \<and> jb_locked_until j = Some until \<and> jb_token j = Some token)"

fun within_lease :: "string \<Rightarrow> string \<Rightarrow> string \<Rightarrow> int \<Rightarrow> queue_op \<Rightarrow> bool" where
  "within_lease tenant rid token until (QClaim t w tok now c) \<longleftrightarrow> tok \<noteq> token \<and> micros now < until"
| "within_lease tenant rid token until (QComplete t r now) \<longleftrightarrow> (t, r) \<noteq> (tenant, rid)"
| "within_lease tenant rid token until (QFail fresh t r cause now) \<longleftrightarrow> (t, r) \<noteq> (tenant, rid)"
| "within_lease tenant rid token until op \<longleftrightarrow> True"

lemma held_step:
  assumes "held tenant rid token until db" "within_lease tenant rid token until op"
  shows "held tenant rid token until (snd (queue_exec op db))" "fst (queue_exec op db) \<noteq> Some (tenant, rid)"
proof -
  obtain j where j: "jobs_keyed db" "j \<in> set (jobs db)" "is_job tenant rid j" "jb_status j = StatusRunning"
    "jb_locked_until j = Some until" "jb_token j = Some token" using assms(1) by (auto simp: held_def)
  have keep: "held tenant rid token until db'" if "jobs_keyed db'" "j \<in> set (jobs db')" for db'
    using that j by (auto simp: held_def)
  have "held tenant rid token until (snd (queue_exec op db)) \<and> fst (queue_exec op db) \<noteq> Some (tenant, rid)"
  proof (cases op)
    case (QEnqueue now fresh t kind payload runAt key)
    then show ?thesis using Enqueue_keyed [OF j(1), of now fresh t kind payload runAt key]
      Enqueue_keeps [of db now fresh t kind payload runAt key] j(2) by (auto intro!: keep)
  next
    case (QClaim t w tok now c)
    with assms(2) have tok: "tok \<noteq> token" "micros now < until" by simp_all
    define f where "f k = (if jb_tenant k = t \<and> Some (jb_id k) = c \<and> claimable now k then claim_row w tok now k else k)" for k
    have "f j = j" using j tok(2) by (simp add: f_def claimable_def)
    then have mem: "j \<in> set (map f (jobs db))" using j(2) by force
    have key: "jobs_keyed (db\<lparr>jobs := map f (jobs db)\<rparr>)"
      by (subst keyed_map) (use j(1) in \<open>simp_all add: f_def claim_row_def\<close>)
    have u: "snd (claim_update t w tok now c db) = db\<lparr>jobs := map f (jobs db)\<rparr>"
      by (simp add: claim_update_def Let_def f_def [abs_def])
    have "jb_id k \<noteq> rid" if "t = tenant" "k \<in> set (map f (jobs db))" "jb_tenant k = t" "jb_token k = Some tok" for k
    proof
      assume "jb_id k = rid"
      with that have "is_job tenant rid k" by (simp add: is_job_def)
      with keyed_unique [OF key, of k j tenant rid] that mem j(3) have "k = j" by simp
      with that(4) j(6) tok(1) show False by simp
    qed
    then have no: "False" if "t = tenant" "k \<in> set (map f (jobs db))" "jb_tenant k = t" "jb_token k = Some tok" "jb_id k = rid" for k
      using that by blast
    have "fst (queue_exec op db) \<noteq> Some (tenant, rid)"
    proof
      assume "fst (queue_exec op db) = Some (tenant, rid)"
      then obtain job where "t = tenant" "job_ID job = rid" "read_claimed t tok (db\<lparr>jobs := map f (jobs db)\<rparr>) = Some job"
        by (auto simp: QClaim u [symmetric] split: prod.splits if_splits)
      then obtain k where "List.find (\<lambda>j. jb_tenant j = t \<and> jb_token j = Some tok) (map f (jobs db)) = Some k"
        "jb_id k = rid" by (auto simp: read_claimed_def)
      with find_SomeD [OF this(1)] \<open>t = tenant\<close> show False using no [of k] by blast
    qed
    moreover have "snd (queue_exec op db) = db\<lparr>jobs := map f (jobs db)\<rparr>" using u by (auto simp: QClaim split: prod.splits)
    ultimately show ?thesis using keep [OF key] mem by simp
  next
    case (QComplete t r now)
    with assms(2) j(3) have "\<not> is_job t r j" by (auto simp: is_job_def)
    with j(2) have "j \<in> set (jobs (Complete t r now db))" by (force simp: Complete_def)
    then show ?thesis using keep [OF Complete_keyed [OF j(1)]] by (simp add: QComplete)
  next
    case (QFail fresh t r cause now)
    with assms(2) j(3) have n: "\<not> is_job t r j" by (auto simp: is_job_def)
    have "j \<in> set (jobs (snd (Fail fresh t r cause now db)))"
      by (rule Fail_cases [of fresh t r cause now db]) (use j(2) n in force)+
    then show ?thesis using keep [OF Fail_keyed [OF j(1)]] by (simp add: QFail)
  next
    case (QTick t now fresh)
    then show ?thesis using Tick_keeps [of db t now fresh] j(1,2) by (auto intro!: keep)
  qed
  then show "held tenant rid token until (snd (queue_exec op db))" "fst (queue_exec op db) \<noteq> Some (tenant, rid)" by blast+
qed

lemma held_deliveries:
  assumes "held tenant rid token until db" "\<forall>op \<in> set ops. within_lease tenant rid token until op"
  shows "(tenant, rid) \<notin> set (deliveries ops db)"
  using assms
proof (induction ops arbitrary: db)
  case (Cons op ops)
  obtain r db1 where e: "queue_exec op db = (r, db1)" by (metis surj_pair)
  from held_step [OF Cons.prems(1), of op] Cons.prems(2) have "held tenant rid token until db1" "r \<noteq> Some (tenant, rid)"
    by (simp_all add: e)
  with Cons.IH [of db1] Cons.prems(2) show ?case by (cases r) (auto simp: e)
qed simp

lemma claim_holds:
  assumes "jobs_keyed db" "unused_token token db"
    "queue_exec (QClaim tenant worker token now candidate) db = (Some (tenant, rid), db1)"
  shows "held tenant rid token (micros (now + LeaseDuration)) db1"
proof -
  from assms(3) have "fst (claim_update tenant worker token now candidate db) \<noteq> 0" by (auto split: prod.splits if_splits)
  then obtain j where j: "j \<in> set (jobs db)" "jb_tenant j = tenant" "Some (jb_id j) = candidate" "claimable now j"
    by (auto simp: claim_update_def Let_def filter_empty_conv)
  then have i: "is_job tenant (jb_id j) j" by (simp add: is_job_def)
  note u = claim_update_hit [OF assms(1) j(1) i j(4) assms(2), of worker]
  let ?f = "\<lambda>k. if is_job tenant (jb_id j) k then claim_row worker token now k else k"
  have e: "rid = jb_id j" "db1 = db\<lparr>jobs := map ?f (jobs db)\<rparr>"
    using assms(3) u(2) unfolding j(3) [symmetric] by (auto simp: u(1) claim_row_def)
  have "jobs_keyed db1" unfolding e(2) by (subst keyed_map) (use assms(1) in \<open>auto simp: claim_row_def\<close>)
  moreover have "?f j \<in> set (jobs db1)" using j(1) unfolding e(2) by simp
  ultimately show ?thesis using i unfolding held_def e(1)
    by (intro conjI bexI [of _ "?f j"]) (simp_all add: claim_row_def is_job_def)
qed

text \<open>C12: While the lease of a claimed job lasts, no other claim gets that job, however the transactions of
  workers interleave, as long as nobody completes or fails it.\<close>

theorem Claim_exclusive:
  assumes "jobs_keyed db" "unused_token token db"
    "queue_exec (QClaim tenant worker token now candidate) db = (Some (tenant, rid), db1)"
    "\<forall>op \<in> set ops. within_lease tenant rid token (micros (now + LeaseDuration)) op"
  shows "(tenant, rid) \<notin> set (deliveries ops db1)"
  using claim_holds [OF assms(1-3)] assms(4) by (rule held_deliveries)

end
