(* ===== verification/JobLiveness.thy ===== *)
theory JobLiveness
  imports JobFacts
begin

text \<open>Every job ends. A pass of the runner empties the queue of what is due, and a job that keeps failing is
  tried at most \<open>MaxAttempts\<close> times: it is done, or filed as a dead letter. And a tick of the schedules fires
  each due schedule exactly once.\<close>

section \<open>The stages of a job\<close>

definition settled :: "string \<Rightarrow> string \<Rightarrow> job_db \<Rightarrow> bool" where
  "settled tenant rid db \<longleftrightarrow> (\<exists>j \<in> set (jobs db). is_job tenant rid j \<and> jb_status j = StatusDone) \<or>
     (\<exists>l \<in> set (job_dead_letters db). dl_tenant l = tenant \<and> dl_job l = rid)"

definition waiting :: "string \<Rightarrow> string \<Rightarrow> int \<Rightarrow> int \<Rightarrow> job_db \<Rightarrow> bool" where
  "waiting tenant rid a t db \<longleftrightarrow> (\<exists>j \<in> set (jobs db). is_job tenant rid j \<and> jb_status j = StatusPending \<and>
     jb_attempts j = a \<and> jb_run_at j \<le> t)"

definition rescheduled :: "string \<Rightarrow> string \<Rightarrow> int \<Rightarrow> int \<Rightarrow> job_db \<Rightarrow> bool" where
  "rescheduled tenant rid a now db \<longleftrightarrow> (\<exists>j \<in> set (jobs db). is_job tenant rid j \<and> jb_status j = StatusPending \<and>
     jb_attempts j = a \<and> a < MaxAttempts \<and> micros now < jb_run_at j \<and> jb_run_at j \<le> micros (now + retryMax))"

text \<open>A backoff is positive and capped.\<close>

lemma backoff_loop_bounds: "retryBase \<le> d \<Longrightarrow> d \<le> retryMax \<Longrightarrow> retryBase \<le> backoff_loop k d \<and> backoff_loop k d \<le> retryMax"
  by (induction k arbitrary: d) (auto simp: retryBase_def retryMax_def)

lemma backoff_bounds: "retryBase \<le> backoff a" "backoff a \<le> retryMax"
  using backoff_loop_bounds [of retryBase "nat (a - 1)"] by (simp_all add: backoff_def retryBase_def retryMax_def)

lemma micros_mono: "s \<le> t \<Longrightarrow> micros s \<le> micros t"
  by (simp add: micros_def zdiv_mono1)

lemma micros_later: "s + 1000 \<le> t \<Longrightarrow> micros s < micros t"
  using zdiv_mono1 [of "s + 1000" t 1000] by (simp add: micros_def)

lemma backoff_later: "micros now < micros (now + backoff a)"
  using backoff_bounds [of a] by (intro micros_later) (simp add: retryBase_def)

text \<open>The identifiers of a pass are fresh.\<close>

definition ids_fresh :: "((nat \<Rightarrow> string) \<times> string) list \<Rightarrow> job_db \<Rightarrow> bool" where
  "ids_fresh ids db \<longleftrightarrow> distinct (map (\<lambda>(tokens, letter). tokens 0) ids) \<and> distinct (map snd ids) \<and>
     (\<forall>(tokens, letter) \<in> set ids. unused_token (tokens 0) db \<and> (\<forall>l \<in> set (job_dead_letters db). dl_id l \<noteq> letter))"

text \<open>Handlers that leave the job tables alone.\<close>

definition quiet :: "job_registry \<Rightarrow> bool" where
  "quiet handlers \<longleftrightarrow> (\<forall>kind h tenant payload db. handlers kind = Some h \<longrightarrow> snd (h tenant payload db) = db)"

section \<open>One job of a pass\<close>

text \<open>What running a claimed job does to the tables: the job is done, or waits for a later attempt, or is a dead
  letter; the others are as they were.\<close>

definition job_processed :: "string \<Rightarrow> int \<Rightarrow> job_row \<Rightarrow> string \<Rightarrow> job_db \<Rightarrow> job_db \<Rightarrow> bool" where
  "job_processed tenant now j letter db db' \<longleftrightarrow>
     (\<exists>f. jobs db' = map (\<lambda>k. if is_job tenant (jb_id j) k then f k else k) (jobs db) \<and>
        job_dead_letters db' = job_dead_letters db \<and>
        (\<forall>k. jb_tenant (f k) = jb_tenant k \<and> jb_id (f k) = jb_id k \<and> jb_token (f k) = jb_token k) \<and>
        (jb_status (f j) = StatusDone \<or>
         (jb_status (f j) = StatusPending \<and> jb_attempts (f j) = jb_attempts j \<and> jb_attempts j < MaxAttempts \<and>
          micros now < jb_run_at (f j) \<and> jb_run_at (f j) \<le> micros (now + retryMax)))) \<or>
     (\<exists>l. jobs db' = filter (\<lambda>k. \<not> is_job tenant (jb_id j) k) (jobs db) \<and>
        job_dead_letters db' = job_dead_letters db @ [l] \<and> dl_id l = letter \<and> dl_tenant l = tenant \<and> dl_job l = jb_id j)"

lemma processed_update:
  assumes "\<And>k. jb_tenant (f k) = jb_tenant k \<and> jb_id (f k) = jb_id k \<and> jb_token (f k) = jb_token k"
    "jb_status (f j) = StatusDone \<or>
         (jb_status (f j) = StatusPending \<and> jb_attempts (f j) = jb_attempts j \<and> jb_attempts j < MaxAttempts \<and>
          micros now < jb_run_at (f j) \<and> jb_run_at (f j) \<le> micros (now + retryMax))"
  shows "job_processed tenant now j letter db (db\<lparr>jobs := map (\<lambda>k. if is_job tenant (jb_id j) k then f k else k) (jobs db)\<rparr>)"
  unfolding job_processed_def by (rule disjI1, rule exI [of _ f]) (use assms in simp)

lemma Fail_processed:
  assumes "jobs_keyed db" "j \<in> set (jobs db)" "is_job tenant (jb_id j) j"
    "\<forall>l \<in> set (job_dead_letters db). dl_id l \<noteq> letter"
  shows "\<exists>db'. Fail letter tenant (jb_id j) cause now db = (Inr (), db') \<and> job_processed tenant now j letter db db'"
proof (rule Fail_cases [of letter tenant "jb_id j" cause now db])
  fix e assume "Fail letter tenant (jb_id j) cause now db = (Inl e, db)"
  moreover have "List.find (is_job tenant (jb_id j)) (jobs db) \<noteq> None" using assms(2,3) by (auto simp: find_None_set)
  ultimately have "\<exists>l \<in> set (job_dead_letters db). dl_tenant l = tenant \<and> dl_id l = letter"
    by (auto simp: Fail_def Let_def split: if_splits)
  with assms(4) show ?thesis by blast
next
  fix k msg
  assume k: "k \<in> set (jobs db)" "is_job tenant (jb_id j) k" "jb_attempts k < MaxAttempts"
    and e: "Fail letter tenant (jb_id j) cause now db = (Inr (), db\<lparr>jobs := map (\<lambda>j'. if is_job tenant (jb_id j) j'
       then j'\<lparr>jb_status := StatusPending, jb_run_at := micros (now + backoff (jb_attempts k)),
         jb_locked_until := None, jb_locked_by := None, jb_error := Some msg, jb_updated := now\<rparr> else j') (jobs db)\<rparr>)"
  have "k = j" by (rule keyed_unique [OF assms(1) k(1) assms(2) k(2) assms(3)])
  moreover have "micros (now + backoff (jb_attempts k)) \<le> micros (now + retryMax)"
    using backoff_bounds by (intro micros_mono) simp
  ultimately have "job_processed tenant now j letter db (db\<lparr>jobs := map (\<lambda>j'. if is_job tenant (jb_id j) j'
       then j'\<lparr>jb_status := StatusPending, jb_run_at := micros (now + backoff (jb_attempts k)),
         jb_locked_until := None, jb_locked_by := None, jb_error := Some msg, jb_updated := now\<rparr> else j') (jobs db)\<rparr>)"
    using k(3) backoff_later by (intro processed_update) simp_all
  with e show ?thesis by blast
next
  fix k l
  assume "dl_tenant l = tenant" "dl_job l = jb_id j" "dl_id l = letter"
    "Fail letter tenant (jb_id j) cause now db = (Inr (), db\<lparr>job_dead_letters := job_dead_letters db @ [l],
       jobs := filter (\<lambda>k. \<not> is_job tenant (jb_id j) k) (jobs db)\<rparr>)"
  then show ?thesis by (auto simp: job_processed_def)
qed

lemma run_job_processed:
  assumes "quiet handlers" "jobs_keyed db" "j \<in> set (jobs db)" "is_job tenant (jb_id j) j"
    "\<forall>l \<in> set (job_dead_letters db). dl_id l \<noteq> letter" "job_ID job = jb_id j"
  shows "\<exists>db'. run_job handlers letter tenant job now db = (Inr (), db') \<and> job_processed tenant now j letter db db'"
proof (cases "handlers (job_Kind job)")
  case None
  with Fail_processed [OF assms(2-5)] show ?thesis by (simp add: run_job_def assms(6))
next
  case (Some h)
  with assms(1) have q: "snd (h tenant (job_Payload job) db) = db" by (auto simp: quiet_def)
  then obtain r where "h tenant (job_Payload job) db = (r, db)" by (metis prod.collapse)
  then obtain r' where r: "runGuarded h tenant (job_Payload job) db = (r', db)"
    by (cases r) (auto simp: runGuarded_def)
  show ?thesis
  proof (cases r')
    case None
    have "job_processed tenant now j letter db (Complete tenant (jb_id j) now db)"
      unfolding Complete_def by (intro processed_update) simp_all
    then show ?thesis by (simp add: run_job_def Some r None assms(6))
  next
    case (Some err)
    with Fail_processed [OF assms(2-5)] show ?thesis by (simp add: run_job_def \<open>handlers _ = Some h\<close> r assms(6))
  qed
qed

lemma length_filter_map_one:
  assumes "\<And>k. k \<in> set xs \<Longrightarrow> \<not> D k \<Longrightarrow> P (f k) = P k" "\<And>k. k \<in> set xs \<Longrightarrow> D k \<Longrightarrow> \<not> P (f k)"
    "k \<in> set xs" "D k" "P k"
  shows "length (filter P (map f xs)) < length (filter P xs)"
proof -
  have "length (filter P (map f xs)) = length (filter (\<lambda>k. P k \<and> \<not> D k) xs)"
    unfolding filter_map length_map comp_def
    by (rule arg_cong [of _ _ length], rule filter_cong) (use assms(1,2) in blast)+
  also have "\<dots> < length (filter P xs)"
  proof -
    have "filter (\<lambda>k. P k \<and> \<not> D k) xs = filter (\<lambda>k. \<not> D k) (filter P xs)" by simp
    then show ?thesis using length_filter_less [of k "filter P xs" "\<lambda>k. \<not> D k"] assms(3-5) by simp
  qed
  finally show ?thesis .
qed

text \<open>A claim followed by the run of the claimed job.\<close>

lemma claim_run:
  assumes "quiet handlers" "jobs_keyed db" "ids_fresh ((tokens, letter) # ids) db" "due_jobs tenant now db \<noteq> []"
  obtains j job db1 db2 where "Claim tenant worker now tokens db = (Some job, db1)"
    "run_job handlers letter tenant job now db1 = (Inr (), db2)"
    "jobs_keyed db2" "ids_fresh ids db2" "length (due_jobs tenant now db2) < length (due_jobs tenant now db)"
    "j \<in> set (jobs db)" "is_job tenant (jb_id j) j" "claimable now j"
    "settled tenant (jb_id j) db2 \<or> rescheduled tenant (jb_id j) (jb_attempts j + 1) now db2"
    "\<And>k. k \<in> set (jobs db) \<Longrightarrow> \<not> is_job tenant (jb_id j) k \<Longrightarrow> k \<in> set (jobs db2)"
    "set (job_dead_letters db) \<subseteq> set (job_dead_letters db2)"
proof -
  let ?tok = "tokens 0"
  have fresh: "unused_token ?tok db" "\<forall>l \<in> set (job_dead_letters db). dl_id l \<noteq> letter"
    and later: "ids_fresh ids db" "\<forall>(tk, l) \<in> set ids. tk 0 \<noteq> ?tok \<and> l \<noteq> letter"
  proof -
    have d: "tokens 0 \<notin> (\<lambda>(tk, l). tk 0) ` set ids" "letter \<notin> snd ` set ids" using assms(3) by (simp_all add: ids_fresh_def)
    show "unused_token ?tok db" "\<forall>l \<in> set (job_dead_letters db). dl_id l \<noteq> letter" "ids_fresh ids db"
      using assms(3) by (simp_all add: ids_fresh_def)
    show "\<forall>(tk, l) \<in> set ids. tk 0 \<noteq> ?tok \<and> l \<noteq> letter"
    proof (intro ballI, clarify, intro conjI notI)
      fix tk l assume m: "(tk, l) \<in> set ids"
      show False if "tk 0 = ?tok" using d(1) imageI [OF m, of "\<lambda>(tk, l). tk 0"] that by simp
      show False if "l = letter" using d(2) imageI [OF m, of snd] that by simp
    qed
  qed
  obtain j where j: "first_due (due_jobs tenant now db) = Some j" using assms(4) by (cases "first_due (due_jobs tenant now db)") auto
  then have jm: "j \<in> set (jobs db)" "is_job tenant (jb_id j) j" "claimable now j"
    using first_due_Some [OF j] by (auto simp: due_jobs_def is_job_def)
  define c where "c k = (if is_job tenant (jb_id j) k then claim_row worker ?tok now k else k)" for k
  define db1 where "db1 = db\<lparr>jobs := map c (jobs db)\<rparr>"
  let ?j = "claim_row worker ?tok now j"
  have claim: "Claim tenant worker now tokens db = (Some (job_view ?j), db1)"
    using Claim_some [where tokens = tokens and worker = worker, OF assms(2) j fresh(1)] by (simp add: db1_def c_def [abs_def])
  have c_fields: "jb_tenant (c k) = jb_tenant k" "jb_id (c k) = jb_id k" for k by (simp_all add: c_def claim_row_def)
  have key1: "jobs_keyed db1" unfolding db1_def by (subst keyed_map) (simp_all add: c_fields assms(2))
  have j1: "?j \<in> set (jobs db1)" "is_job tenant (jb_id ?j) ?j" "jb_id ?j = jb_id j"
    using jm by (force simp: db1_def c_def claim_row_def is_job_def)+
  have l1: "\<forall>l \<in> set (job_dead_letters db1). dl_id l \<noteq> letter" using fresh(2) by (simp add: db1_def)
  obtain db2 where run: "run_job handlers letter tenant (job_view ?j) now db1 = (Inr (), db2)"
    "job_processed tenant now ?j letter db1 db2"
    using run_job_processed [OF assms(1) key1 j1(1,2) l1, of "job_view ?j" now] by auto
  have others: "k \<in> set (jobs db1)" if "k \<in> set (jobs db)" "\<not> is_job tenant (jb_id j) k" for k
    using that by (force simp: db1_def c_def)
  have tok1: "unused_token t db1" if "unused_token t db" "t \<noteq> ?tok" for t
    using that by (auto simp: unused_token_def db1_def c_def claim_row_def)
  from run(2) [unfolded job_processed_def j1(3)] show ?thesis
  proof (rule disjE)
    assume "\<exists>f. jobs db2 = map (\<lambda>k. if is_job tenant (jb_id j) k then f k else k) (jobs db1) \<and>
      job_dead_letters db2 = job_dead_letters db1 \<and>
      (\<forall>k. jb_tenant (f k) = jb_tenant k \<and> jb_id (f k) = jb_id k \<and> jb_token (f k) = jb_token k) \<and>
      (jb_status (f ?j) = StatusDone \<or> (jb_status (f ?j) = StatusPending \<and> jb_attempts (f ?j) = jb_attempts ?j \<and>
        jb_attempts ?j < MaxAttempts \<and> micros now < jb_run_at (f ?j) \<and> jb_run_at (f ?j) \<le> micros (now + retryMax)))"
    then obtain f where f: "jobs db2 = map (\<lambda>k. if is_job tenant (jb_id j) k then f k else k) (jobs db1)"
      "job_dead_letters db2 = job_dead_letters db1"
      "\<forall>k. jb_tenant (f k) = jb_tenant k \<and> jb_id (f k) = jb_id k \<and> jb_token (f k) = jb_token k"
      "jb_status (f ?j) = StatusDone \<or> (jb_status (f ?j) = StatusPending \<and> jb_attempts (f ?j) = jb_attempts ?j \<and>
        jb_attempts ?j < MaxAttempts \<and> micros now < jb_run_at (f ?j) \<and> jb_run_at (f ?j) \<le> micros (now + retryMax))"
      by (elim exE conjE)
    let ?g = "\<lambda>k. if is_job tenant (jb_id j) (c k) then f (c k) else c k"
    have g: "jobs db2 = map ?g (jobs db)" by (simp add: f(1) db1_def)
    have cj: "is_job tenant (jb_id j) (c k) = is_job tenant (jb_id j) k" for k by (simp add: is_job_def c_fields)
    have same: "?g k = f ?j" if "k \<in> set (jobs db)" "is_job tenant (jb_id j) k" for k
      using keyed_unique [OF assms(2) that(1) jm(1) that(2) jm(2)] that jm(2) j1(2,3) by (simp add: c_def)
    have "jobs_keyed (db\<lparr>jobs := map ?g (jobs db)\<rparr>)"
      by (subst keyed_map) (use f(3) c_fields assms(2) in auto)
    then have key: "jobs_keyed db2" by (simp add: jobs_keyed_def g)
    have ids: "ids_fresh ids db2"
      using later tok1 f(2,3) unfolding ids_fresh_def by (fastforce simp: unused_token_def f(1) db1_def)
    have gone: "\<not> claimable now (f ?j)" using f(4) by (auto simp: claimable_def)
    have less: "length (due_jobs tenant now db2) < length (due_jobs tenant now db)"
      unfolding due_jobs_def g
    proof (rule length_filter_map_one [where D = "is_job tenant (jb_id j)"])
      fix k assume "k \<in> set (jobs db)" "is_job tenant (jb_id j) k"
      then show "\<not> (jb_tenant (?g k) = tenant \<and> claimable now (?g k))" using same gone by simp
    qed (use jm in \<open>auto simp: c_def is_job_def c_fields\<close>)
    have mem: "f ?j \<in> set (jobs db2)" "is_job tenant (jb_id j) (f ?j)"
    proof -
      show "f ?j \<in> set (jobs db2)" unfolding g set_map by (rule image_eqI [where f = ?g and x = j]) (rule same [OF jm(1,2), symmetric], rule jm(1))
      show "is_job tenant (jb_id j) (f ?j)" using j1(2) f(3) by (simp add: is_job_def claim_row_def)
    qed
    have stage: "settled tenant (jb_id j) db2 \<or> rescheduled tenant (jb_id j) (jb_attempts j + 1) now db2"
      using f(4) mem by (auto simp: settled_def rescheduled_def claim_row_def)
    show ?thesis
      by (rule that [OF claim run(1) key ids less jm stage]) (use others f(2) in \<open>force simp: f(1) db1_def\<close>)+
  next
    assume "\<exists>l. jobs db2 = filter (\<lambda>k. \<not> is_job tenant (jb_id j) k) (jobs db1) \<and>
      job_dead_letters db2 = job_dead_letters db1 @ [l] \<and> dl_id l = letter \<and> dl_tenant l = tenant \<and> dl_job l = jb_id j"
    then obtain l where f: "jobs db2 = filter (\<lambda>k. \<not> is_job tenant (jb_id j) k) (jobs db1)"
      "job_dead_letters db2 = job_dead_letters db1 @ [l]" "dl_id l = letter" "dl_tenant l = tenant" "dl_job l = jb_id j"
      by (elim exE conjE)
    have cj: "is_job tenant (jb_id j) (c k) = is_job tenant (jb_id j) k" for k by (simp add: is_job_def c_fields)
    have g: "jobs db2 = filter (\<lambda>k. \<not> is_job tenant (jb_id j) k) (jobs db)"
    proof -
      have "filter (\<lambda>k. \<not> is_job tenant (jb_id j) k) (map c (jobs db)) = map c (filter (\<lambda>k. \<not> is_job tenant (jb_id j) k) (jobs db))"
        by (simp add: filter_map comp_def cj)
      also have "\<dots> = filter (\<lambda>k. \<not> is_job tenant (jb_id j) k) (jobs db)" by (intro map_idI) (simp add: c_def)
      finally show ?thesis by (simp add: f(1) db1_def)
    qed
    have key: "jobs_keyed db2" using assms(2) by (simp add: jobs_keyed_def g distinct_map_filter)
    have ids: "ids_fresh ids db2"
      using later f(2,3) unfolding ids_fresh_def by (fastforce simp: unused_token_def g db1_def)
    have "due_jobs tenant now db2 = filter (\<lambda>k. \<not> is_job tenant (jb_id j) k) (due_jobs tenant now db)"
      by (simp add: due_jobs_def g conj_commute)
    moreover have "j \<in> set (due_jobs tenant now db)" using jm by (simp add: due_jobs_def is_job_def)
    ultimately have less: "length (due_jobs tenant now db2) < length (due_jobs tenant now db)"
      using length_filter_less [of j "due_jobs tenant now db"] jm(2) by simp
    have stage: "settled tenant (jb_id j) db2 \<or> rescheduled tenant (jb_id j) (jb_attempts j + 1) now db2"
      using f(2,4,5) by (auto simp: settled_def)
    show ?thesis
      by (rule that [OF claim run(1) key ids less jm stage]) (use f(2) in \<open>auto simp: g db1_def\<close>)
  qed
qed

section \<open>A pass\<close>

text \<open>What a later state keeps of an earlier one: the jobs that are not due, and the dead letters.\<close>

definition keeps_rest :: "string \<Rightarrow> int \<Rightarrow> job_db \<Rightarrow> job_db \<Rightarrow> bool" where
  "keeps_rest tenant now db db' \<longleftrightarrow> set (job_dead_letters db) \<subseteq> set (job_dead_letters db') \<and>
     (\<forall>k \<in> set (jobs db). \<not> (jb_tenant k = tenant \<and> claimable now k) \<longrightarrow> k \<in> set (jobs db'))"

lemma keeps_settled: "keeps_rest tenant now db db' \<Longrightarrow> settled tenant rid db \<Longrightarrow> settled tenant rid db'"
  unfolding settled_def keeps_rest_def by (auto simp: claimable_def)

lemma keeps_rescheduled:
  "keeps_rest tenant now db db' \<Longrightarrow> rescheduled tenant rid a now db \<Longrightarrow> rescheduled tenant rid a now db'"
  unfolding rescheduled_def keeps_rest_def by (force simp: claimable_def)

lemma keeps_trans: "keeps_rest tenant now db1 db2 \<Longrightarrow> keeps_rest tenant now db2 db3 \<Longrightarrow> keeps_rest tenant now db1 db3"
  unfolding keeps_rest_def by blast

lemma drain_exact:
  assumes "quiet handlers" "jobs_keyed db" "ids_fresh ids db" "length (due_jobs tenant now db) \<le> length ids"
  shows "\<exists>n db'. drain handlers worker tenant now ids m db = ((n, None), db') \<and> jobs_keyed db' \<and>
    due_jobs tenant now db' = [] \<and> keeps_rest tenant now db db' \<and>
    (\<forall>k \<in> set (jobs db). jb_tenant k = tenant \<and> claimable now k \<longrightarrow>
       settled tenant (jb_id k) db' \<or> rescheduled tenant (jb_id k) (jb_attempts k + 1) now db')"
  using assms
proof (induction ids arbitrary: m db)
  case Nil
  then have "due_jobs tenant now db = []" by simp
  then show ?case using Nil by (auto simp: keeps_rest_def due_jobs_def filter_empty_conv)
next
  case (Cons x ids)
  obtain tokens letter where x: "x = (tokens, letter)" by (metis surj_pair)
  show ?case
  proof (cases "due_jobs tenant now db = []")
    case True
    then show ?thesis using Cons.prems(2) Claim_none [OF True, of worker tokens]
      by (auto simp: x keeps_rest_def due_jobs_def filter_empty_conv)
  next
    case False
    from claim_run [where worker = worker, OF Cons.prems(1,2) Cons.prems(3) [unfolded x] False]
    obtain j job db1 db2 where c: "Claim tenant worker now tokens db = (Some job, db1)"
      "run_job handlers letter tenant job now db1 = (Inr (), db2)"
      "jobs_keyed db2" "ids_fresh ids db2" "length (due_jobs tenant now db2) < length (due_jobs tenant now db)"
      "j \<in> set (jobs db)" "is_job tenant (jb_id j) j" "claimable now j"
      "settled tenant (jb_id j) db2 \<or> rescheduled tenant (jb_id j) (jb_attempts j + 1) now db2"
      "\<And>k. k \<in> set (jobs db) \<Longrightarrow> \<not> is_job tenant (jb_id j) k \<Longrightarrow> k \<in> set (jobs db2)"
      "set (job_dead_letters db) \<subseteq> set (job_dead_letters db2)" by metis
    from c(5) Cons.prems(4) have "length (due_jobs tenant now db2) \<le> length ids" by simp
    from Cons.IH [OF Cons.prems(1) c(3,4) this, of "m + 1"] obtain n db' where
      d: "drain handlers worker tenant now ids (m + 1) db2 = ((n, None), db')" "jobs_keyed db'"
        "due_jobs tenant now db' = []" "keeps_rest tenant now db2 db'"
      and rest: "\<And>k. k \<in> set (jobs db2) \<Longrightarrow> jb_tenant k = tenant \<Longrightarrow> claimable now k \<Longrightarrow>
        settled tenant (jb_id k) db' \<or> rescheduled tenant (jb_id k) (jb_attempts k + 1) now db'" by blast
    have uniq: "k = j" if "k \<in> set (jobs db)" "is_job tenant (jb_id j) k" for k
      by (rule keyed_unique [OF Cons.prems(2) that(1) c(6) that(2) c(7)])
    have "keeps_rest tenant now db db2"
      unfolding keeps_rest_def using c(8,10,11) uniq c(7) by (metis is_job_def)
    then have k: "keeps_rest tenant now db db'" by (rule keeps_trans [OF _ d(4)])
    have "settled tenant (jb_id k) db' \<or> rescheduled tenant (jb_id k) (jb_attempts k + 1) now db'"
      if "k \<in> set (jobs db)" "jb_tenant k = tenant" "claimable now k" for k
    proof (cases "is_job tenant (jb_id j) k")
      case True
      then show ?thesis using uniq [OF that(1)] c(9) keeps_settled [OF d(4)] keeps_rescheduled [OF d(4)] by blast
    next
      case False
      then show ?thesis using rest c(10) that by blast
    qed
    then show ?thesis using c(1,2) d k by (simp add: x)
  qed
qed

lemma keeps_waiting_due:
  assumes "waiting tenant rid a t db" "t \<le> micros now"
  obtains j where "j \<in> set (jobs db)" "is_job tenant rid j" "jb_attempts j = a" "claimable now j"
  using assms by (auto simp: waiting_def claimable_def)

section \<open>Passes over time\<close>

text \<open>One pass of the runner: its instant, the fresh ids of its tick and of its jobs. The passes are regular when
  no fault interrupts their ticks and each may run as many jobs as are due.\<close>

type_synonym pass = "int \<times> (nat \<Rightarrow> string) \<times> ((nat \<Rightarrow> string) \<times> string) list"

fun run_passes :: "job_registry \<Rightarrow> string \<Rightarrow> string \<Rightarrow> pass list \<Rightarrow> job_db \<Rightarrow> job_db" where
  "run_passes handlers worker tenant [] db = db"
| "run_passes handlers worker tenant ((now, fresh, ids) # passes) db =
     run_passes handlers worker tenant passes (snd (RunOnce handlers worker tenant now fresh ids db))"

fun regular_passes :: "job_registry \<Rightarrow> string \<Rightarrow> string \<Rightarrow> int \<Rightarrow> pass list \<Rightarrow> job_db \<Rightarrow> bool" where
  "regular_passes handlers worker tenant start [] db = True"
| "regular_passes handlers worker tenant start ((now, fresh, ids) # passes) db \<longleftrightarrow>
     start \<le> now \<and>
     (case TickSchedules tenant now fresh db of ((_, fault), db1) \<Rightarrow>
        fault = None \<and> ids_fresh ids db1 \<and> length (due_jobs tenant now db1) \<le> length ids) \<and>
     regular_passes handlers worker tenant (now + retryMax) passes (snd (RunOnce handlers worker tenant now fresh ids db))"

lemma pass_progress:
  assumes "quiet handlers" "jobs_keyed db" "regular_passes handlers worker tenant start ((now, fresh, ids) # passes) db"
  shows "jobs_keyed (snd (RunOnce handlers worker tenant now fresh ids db))"
    "settled tenant rid db \<Longrightarrow> settled tenant rid (snd (RunOnce handlers worker tenant now fresh ids db))"
    "waiting tenant rid a (micros start) db \<Longrightarrow>
      settled tenant rid (snd (RunOnce handlers worker tenant now fresh ids db)) \<or>
      (a + 1 < MaxAttempts \<and>
       waiting tenant rid (a + 1) (micros (now + retryMax)) (snd (RunOnce handlers worker tenant now fresh ids db)))"
proof -
  obtain n db1 where t: "TickSchedules tenant now fresh db = ((n, None), db1)" "ids_fresh ids db1"
    "length (due_jobs tenant now db1) \<le> length ids" and start: "start \<le> now"
    using assms(3) by (auto split: prod.splits)
  have k: "set (jobs db) \<subseteq> set (jobs db1)" "job_dead_letters db1 = job_dead_letters db" "jobs_keyed db1"
    using Tick_keeps [of db tenant now fresh] assms(2) by (simp_all add: t(1))
  from drain_exact [OF assms(1) k(3) t(2,3), of worker 0] obtain m db' where
    d: "drain handlers worker tenant now ids 0 db1 = ((m, None), db')" "jobs_keyed db'" "keeps_rest tenant now db1 db'"
      "\<And>k. k \<in> set (jobs db1) \<Longrightarrow> jb_tenant k = tenant \<Longrightarrow> claimable now k \<Longrightarrow>
        settled tenant (jb_id k) db' \<or> rescheduled tenant (jb_id k) (jb_attempts k + 1) now db'" by blast
  have e: "snd (RunOnce handlers worker tenant now fresh ids db) = db'" by (simp add: RunOnce_def t(1) d(1))
  show "jobs_keyed (snd (RunOnce handlers worker tenant now fresh ids db))" by (simp add: e d(2))
  show "settled tenant rid (snd (RunOnce handlers worker tenant now fresh ids db))" if "settled tenant rid db"
    unfolding e by (rule keeps_settled [OF d(3)]) (use that k(1,2) in \<open>auto simp: settled_def\<close>)
  show "settled tenant rid (snd (RunOnce handlers worker tenant now fresh ids db)) \<or>
      (a + 1 < MaxAttempts \<and>
       waiting tenant rid (a + 1) (micros (now + retryMax)) (snd (RunOnce handlers worker tenant now fresh ids db)))"
    if w: "waiting tenant rid a (micros start) db"
  proof -
    obtain j where "j \<in> set (jobs db)" "is_job tenant rid j" "jb_attempts j = a" "claimable now j"
      by (rule keeps_waiting_due [OF w micros_mono [OF start]])
    with d(4) [of j] k(1) have "settled tenant rid db' \<or> rescheduled tenant rid (a + 1) now db'"
      by (auto simp: is_job_def)
    then show ?thesis unfolding e by (auto simp: rescheduled_def waiting_def)
  qed
qed

lemma passes_settled:
  assumes "quiet handlers"
  shows "jobs_keyed db \<Longrightarrow> regular_passes handlers worker tenant start passes db \<Longrightarrow> settled tenant rid db \<Longrightarrow>
    settled tenant rid (run_passes handlers worker tenant passes db)"
proof (induction passes arbitrary: start db)
  case (Cons p passes)
  obtain now fresh ids where p: "p = (now, fresh, ids)" by (metis prod_cases3)
  note pp = pass_progress [OF assms Cons.prems(1) Cons.prems(2) [unfolded p]]
  have "regular_passes handlers worker tenant (now + retryMax) passes (snd (RunOnce handlers worker tenant now fresh ids db))"
    using Cons.prems(2) by (simp add: p)
  from Cons.IH [OF pp(1) this pp(2) [OF Cons.prems(3)]] show ?case by (simp add: p)
qed simp


section \<open>Samples\<close>

definition mail_job :: job_row where
  "mail_job = \<lparr>jb_tenant = ''acme'', jb_id = ''j1'', jb_kind = ''mail'', jb_payload = ''{}'', jb_dedupe = None,
     jb_status = StatusPending, jb_run_at = 0, jb_attempts = 0, jb_locked_until = None, jb_locked_by = None,
     jb_token = None, jb_error = None, jb_created = 0, jb_updated = 0\<rparr>"

definition mail_queue :: job_db where
  "mail_queue = \<lparr>jobs = [mail_job], job_dead_letters = [], job_schedules = []\<rparr>"

definition mail_passes :: "pass list" where
  "mail_passes =
     [(0, \<lambda>n. ''e'', [(\<lambda>n. ''t1'', ''l1'')]), (300000000000, \<lambda>n. ''e'', [(\<lambda>n. ''t2'', ''l2'')]),
      (600000000000, \<lambda>n. ''e'', [(\<lambda>n. ''t3'', ''l3'')])]"

lemma mail_queue_keyed: "jobs_keyed mail_queue"
  by (simp add: jobs_keyed_def mail_queue_def)

lemma mail_passes_regular: "regular_passes (\<lambda>_. None) ''w'' ''acme'' 0 mail_passes mail_queue"
  by code_simp


lemma Claim_exclusive_witness:
  "\<exists>db1. queue_exec (QClaim ''acme'' ''w1'' ''t1'' 0 (Some ''j1'')) mail_queue = (Some (''acme'', ''j1''), db1) \<and>
    (''acme'', ''j1'') \<notin> set (deliveries [QClaim ''acme'' ''w2'' ''t2'' 60000000000 (Some ''j1''),
      QComplete ''acme'' ''j2'' 0, QClaim ''acme'' ''w3'' ''t3'' 299000000000 (Some ''j1'')] db1)"
proof -
  let ?ops = "[QClaim ''acme'' ''w2'' ''t2'' 60000000000 (Some ''j1''),
      QComplete ''acme'' ''j2'' 0, QClaim ''acme'' ''w3'' ''t3'' 299000000000 (Some ''j1'')]"
  define db1 where "db1 = snd (queue_exec (QClaim ''acme'' ''w1'' ''t1'' 0 (Some ''j1'')) mail_queue)"
  have "fst (queue_exec (QClaim ''acme'' ''w1'' ''t1'' 0 (Some ''j1'')) mail_queue) = Some (''acme'', ''j1'')"
    by code_simp
  then have e: "queue_exec (QClaim ''acme'' ''w1'' ''t1'' 0 (Some ''j1'')) mail_queue = (Some (''acme'', ''j1''), db1)"
    by (metis db1_def prod.collapse)
  have u: "unused_token ''t1'' mail_queue" by (simp add: unused_token_def mail_queue_def mail_job_def)
  have w: "\<forall>op \<in> set ?ops. within_lease ''acme'' ''j1'' ''t1'' (micros (0 + LeaseDuration)) op"
    by (simp add: LeaseDuration_def micros_def)
  from Claim_exclusive [OF mail_queue_keyed u e w] e show ?thesis by blast
qed

end
