(* ===== verification/JobTicks.thy ===== *)
theory JobTicks
  imports JobLiveness
begin

text \<open>A tick of the schedules: every due schedule whose expression parses is moved past the present and has its job
  enqueued, and a second tick at the same instant, by this node or another, does nothing.\<close>

section \<open>The next firing lies in the future\<close>

lemma month_lengths_prefix:
  "sum_list (take k (month_lengths y)) \<le> sum_list (take k (month_lengths z)) + 1"
proof -
  consider "k = 0" | "k = 1" | "2 \<le> k" by linarith
  then show ?thesis
  proof cases
    case 3
    then obtain j where "k = Suc (Suc j)" by (metis add_2_eq_Suc le_Suc_ex)
    then show ?thesis by (simp add: month_lengths_def)
  qed (simp_all add: month_lengths_def)
qed

lemma add_years_later: "t + day_ns \<le> add_years 100 t"
proof -
  obtain y m d where c: "civil_of_days (date_of t) = (y, m, d)" by (metis prod_cases3)
  have "year_start y + 1000 \<le> year_start (y + 100)" 
    using abs_le_D1 [OF year_start_estimate [of y]] abs_le_D2 [OF year_start_estimate [of "y + 100"]] by simp
  then have "days_of_civil y m d + 1 \<le> days_of_civil (y + 100) m d"
    using month_lengths_prefix [of "nat (m - 1)" y "y + 100"] by (simp add: days_of_civil_def)
  then have "date_of t + 1 \<le> days_of_civil (y + 100) m d" using civil_of_days_spec(2) [OF c] by simp
  then have "(date_of t + 1 - 719528) * day_ns \<le> (days_of_civil (y + 100) m d - 719528) * day_ns"
    by (intro mult_right_mono) (simp_all add: day_ns_def)
  moreover have "t = (date_of t - 719528) * day_ns + t mod day_ns" by (simp add: date_of_def)
  ultimately show ?thesis by (simp add: add_years_def c algebra_simps)
qed

lemma next_firing_later:
  assumes "ParseCron src = Inr cron" "zero_time \<le> now"
  shows "micros now < micros (next_firing cron now)"
proof (cases "is_zero_time (Next cron now)")
  case True
  then show ?thesis using add_years_later [of now]
    by (simp add: next_firing_def) (intro micros_later, simp add: day_ns_def)
next
  case False
  then have n: "now < Next cron now" "fires cron (Next cron now)"
    using Next_exact [OF assms(2), of cron] by (auto split: if_splits)
  then have "Next cron now mod 60000000000 = 0" by (simp add: fires_def minute_ns_def)
  then have "60000000000 dvd Next cron now" by (rule mod_0_imp_dvd)
  moreover have "(1000 :: int) dvd 60000000000" by simp
  ultimately have "1000 dvd Next cron now" by (rule dvd_trans [rotated])
  then have "Next cron now = micros (Next cron now) * 1000" by (simp add: micros_def)
  moreover have "micros now * 1000 \<le> now"
    using div_mult_mod_eq [of now 1000] pos_mod_sign [of 1000 now] by (simp add: micros_def)
  ultimately show ?thesis using False n(1) by (simp add: next_firing_def)
qed

section \<open>One tick\<close>

definition schedules_keyed :: "job_db \<Rightarrow> bool" where
  "schedules_keyed db \<longleftrightarrow> distinct (map (\<lambda>r. (sc_tenant r, sc_id r)) (job_schedules db))"

definition firing_key :: "Schedule \<Rightarrow> string" where
  "firing_key s = sch_ID s @ CHR ''@'' # format_int (micros (sch_NextRunAt s))"

text \<open>The jobs of one firing.\<close>

definition firing_jobs :: "string \<Rightarrow> Schedule \<Rightarrow> job_db \<Rightarrow> job_row list" where
  "firing_jobs tenant s db =
     filter (\<lambda>j. jb_tenant j = tenant \<and> jb_kind j = sch_Kind s \<and> jb_dedupe j = Some (firing_key s)) (jobs db)"

text \<open>The unique index over tenant, kind and dedupe key.\<close>

definition jobs_deduped :: "job_db \<Rightarrow> bool" where
  "jobs_deduped db \<longleftrightarrow>
     distinct (map (\<lambda>j. (jb_tenant j, jb_kind j, jb_dedupe j)) (filter (\<lambda>j. jb_dedupe j \<noteq> None) (jobs db)))"

lemma Enqueue_deduped: "jobs_deduped db \<Longrightarrow> jobs_deduped (snd (Enqueue now fresh tenant kind payload runAt key db))"
  by (rule Enqueue_cases [of now fresh tenant kind payload runAt key db])
    (auto simp: jobs_deduped_def)

lemma deduped_one:
  assumes "jobs_deduped db" "j \<in> set (jobs db)" "jb_tenant j = tenant" "jb_kind j = kind" "jb_dedupe j = Some key"
  shows "filter (\<lambda>j. jb_tenant j = tenant \<and> jb_kind j = kind \<and> jb_dedupe j = Some key) (jobs db) = [j]"
proof -
  let ?D = "filter (\<lambda>j. jb_dedupe j \<noteq> None) (jobs db)"
  let ?P = "\<lambda>j. jb_tenant j = tenant \<and> jb_kind j = kind \<and> jb_dedupe j = Some key"
  have i: "inj_on (\<lambda>j. (jb_tenant j, jb_kind j, jb_dedupe j)) (set ?D)" and d: "distinct ?D"
    using assms(1) by (simp_all add: jobs_deduped_def distinct_map)
  have "k = j" if "k \<in> set (jobs db)" "?P k" for k
  proof (rule inj_onD [OF i])
    show "(jb_tenant k, jb_kind k, jb_dedupe k) = (jb_tenant j, jb_kind j, jb_dedupe j)"
      unfolding assms(3-5) using that(2) by blast
    show "k \<in> set ?D" "j \<in> set ?D" using that assms(2,5) by simp_all
  qed
  moreover have "j \<in> set (filter ?P (jobs db))" using assms(2-5) by simp
  ultimately have s: "set (filter ?P (jobs db)) = {j}" by force
  have e: "filter ?P (jobs db) = filter ?P ?D"
    unfolding filter_filter by (rule filter_cong) auto
  have "distinct (filter ?P (jobs db))" unfolding e by (rule distinct_filter [OF d])
  from distinct_card [OF this] have "length (filter ?P (jobs db)) = 1" unfolding s by simp
  then obtain k where "filter ?P (jobs db) = [k]" by (auto simp: length_Suc_conv)
  with s show ?thesis by simp
qed

definition advanced :: "string \<Rightarrow> int \<Rightarrow> Schedule list \<Rightarrow> schedule_row \<Rightarrow> schedule_row" where
  "advanced tenant now due r =
     (if sc_tenant r = tenant \<and> schedule_of r \<in> set due then
        (case ParseCron (sc_cron r) of Inl _ \<Rightarrow> r
         | Inr cron \<Rightarrow> r\<lparr>sc_next := micros (next_firing cron now), sc_updated := now\<rparr>)
      else r)"

lemma micros_unmicros [simp]: "micros (unmicros x) = x"
  by (simp add: micros_def unmicros_def)

lemma schedule_of_simps [simp]:
  "sch_ID (schedule_of r) = sc_id r" "sch_Kind (schedule_of r) = sc_kind r" "sch_Cron (schedule_of r) = sc_cron r"
  "sch_Payload (schedule_of r) = sc_payload r" "sch_NextRunAt (schedule_of r) = unmicros (sc_next r)"
  by (simp_all add: schedule_of_def)

lemma filter_eq_single: "distinct xs \<Longrightarrow> x \<in> set xs \<Longrightarrow> filter (\<lambda>k. k = x) xs = [x]"
  by (induction xs) (auto simp: filter_empty_conv)

lemma advance_row:
  assumes "schedules_keyed db" "r \<in> set (job_schedules db)" "sc_tenant r = tenant"
  shows "advanceSchedule tenant (sc_id r) (unmicros (sc_next r)) to_t now db =
    (True, db\<lparr>job_schedules := map (\<lambda>k. if k = r then r\<lparr>sc_next := micros to_t, sc_updated := now\<rparr> else k) (job_schedules db)\<rparr>)"
proof -
  have d: "distinct (job_schedules db)" using assms(1) by (auto simp: schedules_keyed_def distinct_map)
  have u: "is_schedule tenant (sc_id r) k \<longleftrightarrow> k = r" if "k \<in> set (job_schedules db)" for k
    using assms that by (auto simp: schedules_keyed_def distinct_map is_schedule_def dest: inj_onD)
  let ?hit = "\<lambda>k. is_schedule tenant (sc_id r) k \<and> sc_next k = micros (unmicros (sc_next r))"
  have "filter ?hit (job_schedules db) = filter (\<lambda>k. k = r) (job_schedules db)"
    by (rule filter_cong) (use u in auto)
  also have "\<dots> = [r]" using d assms(2) by (rule filter_eq_single)
  finally have one: "filter ?hit (job_schedules db) = [r]" .
  have m: "map (\<lambda>k. if ?hit k then k\<lparr>sc_next := micros to_t, sc_updated := now\<rparr> else k) (job_schedules db) =
    map (\<lambda>k. if k = r then r\<lparr>sc_next := micros to_t, sc_updated := now\<rparr> else k) (job_schedules db)"
    by (rule map_cong) (use u in auto)
  show ?thesis unfolding advanceSchedule_def Let_def one m by simp
qed

lemma tick_effect:
  assumes "schedules_keyed db" "jobs_deduped db" "distinct (map sch_ID due)"
    "\<forall>s \<in> set due. \<exists>r \<in> set (job_schedules db). sc_tenant r = tenant \<and> schedule_of r = s"
    "tick_schedules tenant now fresh n due db = ((m, None), db')"
  shows "job_schedules db' = map (advanced tenant now due) (job_schedules db) \<and> jobs_deduped db' \<and>
    set (jobs db) \<subseteq> set (jobs db') \<and>
    (\<forall>s \<in> set due. is_ok (ParseCron (sch_Cron s)) \<longrightarrow> length (firing_jobs tenant s db') = 1)"
  using assms
proof (induction due arbitrary: n db)
  case Nil
  then show ?case by (simp add: advanced_def [abs_def])
next
  case (Cons s due)
  obtain r where r: "r \<in> set (job_schedules db)" "sc_tenant r = tenant" "s = schedule_of r" using Cons.prems(4) by auto
  have uniq: "k = r" if "k \<in> set (job_schedules db)" "sc_tenant k = tenant" "sc_id k = sc_id r" for k
    using that r(1,2) Cons.prems(1) by (auto simp: schedules_keyed_def distinct_map dest: inj_onD)
  have notin: "schedule_of r \<notin> set due" using Cons.prems(3) by (force simp: r(3))
  show ?case
  proof (cases "ParseCron (sc_cron r)")
    case (Inl e)
    then have t: "tick_schedules tenant now fresh n due db = ((m, None), db')" using Cons.prems(5) by (simp add: r(3))
    have "advanced tenant now (s # due) k = advanced tenant now due k" if "k \<in> set (job_schedules db)" for k
    proof (cases "k = r")
      case True
      then show ?thesis by (simp add: advanced_def Inl)
    next
      case False
      then have "schedule_of k \<noteq> s" if "sc_tenant k = tenant" using uniq [OF \<open>k \<in> _\<close> that] by (auto simp: r(3) schedule_of_def)
      then show ?thesis by (cases "sc_tenant k = tenant") (simp_all add: advanced_def)
    qed
    then have "map (advanced tenant now (s # due)) (job_schedules db) = map (advanced tenant now due) (job_schedules db)"
      by (intro map_cong refl)
    with Cons.IH [OF Cons.prems(1,2) _ _ t] Cons.prems(3,4) Inl show ?thesis by (simp add: r(3))
  next
    case (Inr cron)
    let ?r = "r\<lparr>sc_next := micros (next_firing cron now), sc_updated := now\<rparr>"
    let ?a = "\<lambda>k. if k = r then ?r else k"
    define db1 where "db1 = db\<lparr>job_schedules := map ?a (job_schedules db)\<rparr>"
    have adv: "advanceSchedule tenant (sc_id r) (unmicros (sc_next r)) (next_firing cron now) now db = (True, db1)"
      unfolding db1_def by (rule advance_row [OF Cons.prems(1) r(1,2)])
    obtain res db2 where enq: "Enqueue now (fresh n) tenant (sch_Kind s) (sch_Payload s) (sch_NextRunAt s) (firing_key s) db1 = (res, db2)"
      by (metis surj_pair)
    obtain rid where res: "res = Inr rid" and t: "tick_schedules tenant now fresh (n + 1) due db2 = ((m, None), db')"
      using Cons.prems(5) enq by (cases res) (auto simp: r(3) Inr adv firing_key_def)
    have one: "length (firing_jobs tenant s db2) = 1 \<and> job_schedules db2 = job_schedules db1 \<and> jobs_deduped db2 \<and>
      set (jobs db1) \<subseteq> set (jobs db2)"
    proof -
      have dd: "jobs_deduped db1" using Cons.prems(2) by (simp add: jobs_deduped_def db1_def)
      note e = Enqueue_deduped [OF dd, of now "fresh n" tenant "sch_Kind s" "sch_Payload s" "sch_NextRunAt s" "firing_key s"]
        Enqueue_keeps [of db1 now "fresh n" tenant "sch_Kind s" "sch_Payload s" "sch_NextRunAt s" "firing_key s"]
      have "\<exists>j \<in> set (jobs db2). jb_tenant j = tenant \<and> jb_kind j = sch_Kind s \<and> jb_dedupe j = Some (firing_key s)"
      proof (rule Enqueue_cases [of now "fresh n" tenant "sch_Kind s" "sch_Payload s" "sch_NextRunAt s" "firing_key s" db1])
        fix err assume "Enqueue now (fresh n) tenant (sch_Kind s) (sch_Payload s) (sch_NextRunAt s) (firing_key s) db1 = (Inl err, db1)"
        then show ?thesis using enq res by simp
      next
        fix j assume "Enqueue now (fresh n) tenant (sch_Kind s) (sch_Payload s) (sch_NextRunAt s) (firing_key s) db1 = (Inr (jb_id j), db1)"
          "j \<in> set (jobs db1)" "jb_tenant j = tenant" "jb_kind j = sch_Kind s" "jb_dedupe j = Some (firing_key s)"
        then show ?thesis using enq by auto
      next
        fix row assume "Enqueue now (fresh n) tenant (sch_Kind s) (sch_Payload s) (sch_NextRunAt s) (firing_key s) db1 =
            (Inr (jb_id row), db1\<lparr>jobs := jobs db1 @ [row]\<rparr>)"
          "jb_tenant row = tenant" "jb_kind row = sch_Kind s" "jb_dedupe row = (if firing_key s \<noteq> '''' then Some (firing_key s) else None)"
        moreover have "firing_key s \<noteq> ''''" by (simp add: firing_key_def)
        ultimately show ?thesis using enq by auto
      qed
      then obtain j where "j \<in> set (jobs db2)" "jb_tenant j = tenant" "jb_kind j = sch_Kind s" "jb_dedupe j = Some (firing_key s)"
        by blast
      from deduped_one [OF _ this] e show ?thesis by (simp add: enq firing_jobs_def)
    qed
    have key: "(\<lambda>k. (sc_tenant (?a k), sc_id (?a k))) = (\<lambda>k. (sc_tenant k, sc_id k))" by auto
    have sk: "schedules_keyed db2" using Cons.prems(1) one by (simp add: schedules_keyed_def db1_def comp_def key)
    have rows: "\<forall>s \<in> set due. \<exists>k \<in> set (job_schedules db2). sc_tenant k = tenant \<and> schedule_of k = s"
    proof
      fix s' assume s': "s' \<in> set due"
      then obtain k where k: "k \<in> set (job_schedules db)" "sc_tenant k = tenant" "schedule_of k = s'"
        using Cons.prems(4) by auto
      with s' notin have "k \<noteq> r" by auto
      then have "k \<in> set (job_schedules db2)" using one k(1) by (force simp: db1_def)
      with k show "\<exists>k \<in> set (job_schedules db2). sc_tenant k = tenant \<and> schedule_of k = s'" by blast
    qed
    from Cons.IH [OF sk _ _ rows t] one Cons.prems(3) have ih:
      "job_schedules db' = map (advanced tenant now due) (job_schedules db1)" "jobs_deduped db'"
      "set (jobs db2) \<subseteq> set (jobs db')"
      "\<forall>s \<in> set due. is_ok (ParseCron (sch_Cron s)) \<longrightarrow> length (firing_jobs tenant s db') = 1" by simp_all
    have "advanced tenant now due (?a k) = advanced tenant now (s # due) k" if "k \<in> set (job_schedules db)" for k
    proof (cases "k = r")
      case True
      have "sc_id r \<notin> sch_ID ` set due" using Cons.prems(3) by (simp add: r(3))
      then have "schedule_of ?r \<notin> set due" by (force simp: image_iff)
      then show ?thesis using True r(2) by (simp add: advanced_def Inr r(3))
    next
      case False
      then have "schedule_of k \<noteq> s" if "sc_tenant k = tenant" using uniq [OF \<open>k \<in> _\<close> that] by (auto simp: r(3) schedule_of_def)
      then show ?thesis using False by (cases "sc_tenant k = tenant") (simp_all add: advanced_def)
    qed
    then have "job_schedules db' = map (advanced tenant now (s # due)) (job_schedules db)"
      by (simp add: ih(1) db1_def)
    moreover have "length (firing_jobs tenant s db') = 1"
    proof -
      from one obtain j where "firing_jobs tenant s db2 = [j]" by (auto simp: length_Suc_conv)
      then have "j \<in> set (firing_jobs tenant s db2)" by simp
      then have "j \<in> set (jobs db')" "jb_tenant j = tenant" "jb_kind j = sch_Kind s" "jb_dedupe j = Some (firing_key s)"
        using ih(3) by (auto simp: firing_jobs_def)
      from deduped_one [OF ih(2) this] show ?thesis by (simp add: firing_jobs_def)
    qed
    ultimately show ?thesis using ih one by (auto simp: db1_def)
  qed
qed

lemma set_due: "set (dueSchedules tenant now db) =
    schedule_of ` {r \<in> set (job_schedules db). sc_tenant r = tenant \<and> sc_next r \<le> micros now}"
  by (simp add: dueSchedules_def)

lemma due_ids_distinct:
  assumes "schedules_keyed db"
  shows "distinct (map sch_ID (dueSchedules tenant now db))"
proof -
  let ?rows = "filter (\<lambda>r. sc_tenant r = tenant \<and> sc_next r \<le> micros now) (job_schedules db)"
  have i: "inj_on (\<lambda>r. (sc_tenant r, sc_id r)) (set (job_schedules db))" and d: "distinct (job_schedules db)"
    using assms by (simp_all add: schedules_keyed_def distinct_map)
  have "inj_on sc_id (set ?rows)"
    by (rule inj_onI, rule inj_onD [OF i]) auto
  then show ?thesis using d by (simp add: dueSchedules_def distinct_map comp_def inj_on_def)
qed

lemma tick_unparsable:
  "\<forall>s \<in> set due. \<not> is_ok (ParseCron (sch_Cron s)) \<Longrightarrow> tick_schedules tenant now fresh n due db = ((n, None), db)"
  by (induction due) (auto split: sum.splits)

text \<open>C13: A tick gives every due firing exactly one job, and moves its schedule past the present: a second tick at
  the same instant enqueues nothing and changes nothing.\<close>

theorem Tick_fires_once:
  assumes "schedules_keyed db" "jobs_deduped db" "zero_time \<le> now" "TickSchedules tenant now fresh db = ((m, None), db')"
  shows "(\<forall>s \<in> set (dueSchedules tenant now db). is_ok (ParseCron (sch_Cron s)) \<longrightarrow> length (firing_jobs tenant s db') = 1) \<and>
    TickSchedules tenant now fresh' db' = ((0, None), db')"
proof
  let ?due = "dueSchedules tenant now db"
  have rows: "\<forall>s \<in> set ?due. \<exists>r \<in> set (job_schedules db). sc_tenant r = tenant \<and> schedule_of r = s"
    by (auto simp: set_due)
  note t = tick_effect [OF assms(1,2) due_ids_distinct [OF assms(1)] rows assms(4) [unfolded TickSchedules_def]]
  from t show "\<forall>s \<in> set ?due. is_ok (ParseCron (sch_Cron s)) \<longrightarrow> length (firing_jobs tenant s db') = 1" by blast
  have "\<not> is_ok (ParseCron (sch_Cron s))" if "s \<in> set (dueSchedules tenant now db')" for s
  proof
    assume ok: "is_ok (ParseCron (sch_Cron s))"
    from that obtain r where r: "r \<in> set (job_schedules db)" "s = schedule_of (advanced tenant now ?due r)"
      "sc_tenant (advanced tenant now ?due r) = tenant" "sc_next (advanced tenant now ?due r) \<le> micros now"
      using t by (auto simp: set_due)
    have f: "sc_tenant (advanced tenant now ?due r) = sc_tenant r" "sc_cron (advanced tenant now ?due r) = sc_cron r"
      by (simp_all add: advanced_def split: sum.split)
    with ok r(2) obtain cron where c: "ParseCron (sc_cron r) = Inr cron" by (auto simp: is_ok_iff)
    show False
    proof (cases "schedule_of r \<in> set ?due")
      case True
      then have "sc_next (advanced tenant now ?due r) = micros (next_firing cron now)"
        using r(3) f(1) by (simp add: advanced_def c)
      with next_firing_later [OF c assms(3)] r(4) show False by simp
    next
      case False
      then have "advanced tenant now ?due r = r" by (simp add: advanced_def)
      with r have "schedule_of r \<in> set ?due" by (auto simp: set_due)
      with False show False by simp
    qed
  qed
  then show "TickSchedules tenant now fresh' db' = ((0, None), db')"
    unfolding TickSchedules_def by (intro tick_unparsable) blast
qed

definition nightly :: schedule_row where
  "nightly = \<lparr>sc_tenant = ''acme'', sc_id = ''s1'', sc_kind = ''report'', sc_cron = ''* * * * *'', sc_payload = ''{}'',
     sc_owner = ''admin'', sc_next = 0, sc_created = 0, sc_updated = 0\<rparr>"

definition nightly_db :: job_db where
  "nightly_db = \<lparr>jobs = [], job_dead_letters = [], job_schedules = [nightly]\<rparr>"

lemma Tick_fires_once_witness:
  "\<exists>db'. TickSchedules ''acme'' 0 (\<lambda>n. ''e1'') nightly_db = ((1, None), db') \<and>
    (\<forall>s \<in> set (dueSchedules ''acme'' 0 nightly_db). is_ok (ParseCron (sch_Cron s)) \<longrightarrow> length (firing_jobs ''acme'' s db') = 1) \<and>
    TickSchedules ''acme'' 0 (\<lambda>n. ''e2'') db' = ((0, None), db')"
proof -
  have "fst (TickSchedules ''acme'' 0 (\<lambda>n. ''e1'') nightly_db) = (1, None)" by code_simp
  then obtain db' where t: "TickSchedules ''acme'' 0 (\<lambda>n. ''e1'') nightly_db = ((1, None), db')" by (metis prod.collapse)
  have k: "schedules_keyed nightly_db" "jobs_deduped nightly_db" "zero_time \<le> 0"
    by (simp_all add: schedules_keyed_def jobs_deduped_def nightly_db_def zero_time_def day_ns_def)
  from Tick_fires_once [OF k t] t show ?thesis by blast
qed

end
