(* ===== verification/Capability.thy ===== *)
theory Capability
  imports GoText
begin

text \<open>
  \<open>kernel/capability\<close>, the catalog: module manifests (\<open>manifest.go\<close>), the registry built from them
  (\<open>registry.go\<close>), the dependency solver (\<open>solver.go\<close>) and the shipped profiles (\<open>profiles.go\<close>). Go's maps are
  association lists with one entry per key. The manifests arrive decoded from their YAML.

  The closure works through a queue; it ends because every module enters the queue at most once. Its result is
  characterised as the least set of modules that holds the kernel and the seeds and, with each module, the
  providers of what it requires.
\<close>

section \<open>Manifests\<close>

record Bridge =
  When :: string
  Adds :: string

record Mode =
  md_Name :: string
  md_Requires :: "string list"

record Manifest =
  mf_Module :: string
  mf_Title :: string
  mf_Kernel :: bool
  mf_Provides :: "string list"
  mf_Requires :: "string list"
  mf_Enhances :: "Bridge list"
  mf_Modes :: "Mode list"
  mf_Objects :: "string list"

datatype capability_error =
    ErrNoModuleName
  | ErrProvidesNothing string
  | ErrUnnamedMode string
  | ErrDuplicateModule string
  | ErrProvidedTwice string string string
  | ErrOwnedTwice string string string
  | ErrUnprovided
  | ErrUnknownModule string
  | ErrKernelNotDisableable
  | ErrModuleInUse "string list"
  | ErrProfilePending string string

definition validate_manifest :: "Manifest \<Rightarrow> capability_error + unit" where
  "validate_manifest m =
     (if mf_Module m = '''' then Inl ErrNoModuleName
      else if \<not> mf_Kernel m \<and> mf_Provides m = [] then Inl (ErrProvidesNothing (mf_Module m))
      else if (\<exists>mode \<in> set (mf_Modes m). md_Name mode = '''') then Inl (ErrUnnamedMode (mf_Module m))
      else Inr ())"

definition primaryCapability :: "Manifest \<Rightarrow> string" where
  "primaryCapability m = (case mf_Provides m of [] \<Rightarrow> '''' | c # _ \<Rightarrow> c)"

section \<open>The registry\<close>

record Registry =
  modules :: "(string \<times> Manifest) list"
  providers :: "(string \<times> string) list"
  objects :: "(string \<times> string) list"
  kernel :: "string list"

fun add_provides :: "string \<Rightarrow> string list \<Rightarrow> (string \<times> string) list \<Rightarrow> capability_error + (string \<times> string) list" where
  "add_provides m [] ps = Inr ps"
| "add_provides m (c # cs) ps =
     (case map_of ps c of Some owner \<Rightarrow> Inl (ErrProvidedTwice c owner m) | None \<Rightarrow> add_provides m cs ((c, m) # ps))"

fun add_objects :: "string \<Rightarrow> string list \<Rightarrow> (string \<times> string) list \<Rightarrow> capability_error + (string \<times> string) list" where
  "add_objects m [] os = Inr os"
| "add_objects m (ob # obs) os =
     (case map_of os ob of Some owner \<Rightarrow> Inl (ErrOwnedTwice ob owner m) | None \<Rightarrow> add_objects m obs ((ob, m) # os))"

definition registry_add :: "Manifest \<Rightarrow> Registry \<Rightarrow> capability_error + Registry" where
  "registry_add m r =
     (if map_of (modules r) (mf_Module m) \<noteq> None then Inl (ErrDuplicateModule (mf_Module m))
      else (case add_provides (mf_Module m) (mf_Provides m) (providers r) of Inl e \<Rightarrow> Inl e
      | Inr ps \<Rightarrow>
     (case add_objects (mf_Module m) (mf_Objects m) (objects r) of Inl e \<Rightarrow> Inl e
      | Inr os \<Rightarrow> Inr \<lparr>modules = (mf_Module m, m) # modules r, providers = ps, objects = os,
          kernel = kernel r @ (if mf_Kernel m then [mf_Module m] else [])\<rparr>)))"

fun add_all :: "Manifest list \<Rightarrow> Registry \<Rightarrow> capability_error + Registry" where
  "add_all [] r = Inr r"
| "add_all (m # ms) r =
     (case validate_manifest m of Inl e \<Rightarrow> Inl e
      | Inr _ \<Rightarrow> (case registry_add m r of Inl e \<Rightarrow> Inl e | Inr r' \<Rightarrow> add_all ms r'))"

definition validateGraph :: "Registry \<Rightarrow> capability_error + unit" where
  "validateGraph r =
     (if (\<forall>(name, m) \<in> set (modules r). \<forall>cap \<in> set (mf_Requires m). map_of (providers r) cap \<noteq> None)
      then Inr () else Inl ErrUnprovided)"

definition Load :: "Manifest list \<Rightarrow> capability_error + Registry" where
  "Load ms =
     (case add_all ms \<lparr>modules = [], providers = [], objects = [], kernel = []\<rparr> of Inl e \<Rightarrow> Inl e
      | Inr r \<Rightarrow> (case validateGraph r of Inl e \<Rightarrow> Inl e | Inr _ \<Rightarrow> Inr (r\<lparr>kernel := sort (kernel r)\<rparr>)))"

definition registry_Module :: "Registry \<Rightarrow> string \<Rightarrow> capability_error + Manifest" where
  "registry_Module r name = (case map_of (modules r) name of None \<Rightarrow> Inl (ErrUnknownModule name) | Some m \<Rightarrow> Inr m)"

definition registry_Modules :: "Registry \<Rightarrow> string list" where
  "registry_Modules r = sort (map fst (modules r))"

definition ModuleForObject :: "Registry \<Rightarrow> string \<Rightarrow> string option" where
  "ModuleForObject r ob = map_of (objects r) ob"

section \<open>The closure\<close>

text \<open>\<open>push\<close>: the enabled set is a list in the order the modules were found.\<close>

definition push :: "Registry \<Rightarrow> string \<Rightarrow> string list \<times> string list \<Rightarrow> capability_error + string list \<times> string list" where
  "push r name st =
     (case st of (enabled, queue) \<Rightarrow>
        if map_of (modules r) name = None then Inl (ErrUnknownModule name)
        else if name \<in> set enabled then Inr (enabled, queue)
        else Inr (name # enabled, queue @ [name]))"

fun push_seeds :: "Registry \<Rightarrow> string list \<Rightarrow> string list \<times> string list \<Rightarrow> capability_error + string list \<times> string list" where
  "push_seeds r [] st = Inr st"
| "push_seeds r (s # ss) st = (case push r s st of Inl e \<Rightarrow> Inl e | Inr st' \<Rightarrow> push_seeds r ss st')"

fun push_caps :: "Registry \<Rightarrow> string list \<Rightarrow> string list \<times> string list \<Rightarrow> capability_error + string list \<times> string list" where
  "push_caps r [] st = Inr st"
| "push_caps r (cap # caps) st =
     (case map_of (providers r) cap of None \<Rightarrow> Inl ErrUnprovided
      | Some prov \<Rightarrow> (case push r prov st of Inl e \<Rightarrow> Inl e | Inr st' \<Rightarrow> push_caps r caps st'))"

definition unseen :: "Registry \<Rightarrow> string list \<Rightarrow> nat" where
  "unseen r enabled = card (set (map fst (modules r)) - set enabled)"

lemma push_cases:
  assumes "push r name (enabled, queue) = Inr (enabled', queue')"
  shows "(enabled' = enabled \<and> queue' = queue \<and> name \<in> set enabled) \<or>
    (enabled' = name # enabled \<and> queue' = queue @ [name] \<and> name \<notin> set enabled)"
    "name \<in> set (map fst (modules r))"
    "2 * unseen r enabled' + length queue' \<le> 2 * unseen r enabled + length queue"
proof -
  from assms have m: "map_of (modules r) name \<noteq> None" by (auto simp: push_def split: if_splits)
  then show n: "name \<in> set (map fst (modules r))" by (simp add: map_of_eq_None_iff)
  from assms show c: "(enabled' = enabled \<and> queue' = queue \<and> name \<in> set enabled) \<or>
    (enabled' = name # enabled \<and> queue' = queue @ [name] \<and> name \<notin> set enabled)"
    by (auto simp: push_def split: if_splits)
  have "unseen r (name # enabled) < unseen r enabled" if "name \<notin> set enabled"
    unfolding unseen_def by (intro psubset_card_mono) (use n that in auto)
  with c show "2 * unseen r enabled' + length queue' \<le> 2 * unseen r enabled + length queue" by auto
qed

lemma push_caps_measure:
  "push_caps r caps (enabled, queue) = Inr (enabled', queue') \<Longrightarrow>
    2 * unseen r enabled' + length queue' \<le> 2 * unseen r enabled + length queue"
proof (induction caps arbitrary: enabled queue)
  case (Cons cap caps)
  then obtain prov st where st: "map_of (providers r) cap = Some prov" "push r prov (enabled, queue) = Inr st"
    "push_caps r caps st = Inr (enabled', queue')" by (auto split: option.splits sum.splits)
  obtain e q where "st = (e, q)" by (metis surj_pair)
  with push_cases(3) [of r prov enabled queue e q] st(2) Cons.IH [of e q] st(3) show ?case by simp
qed simp

function closure_loop :: "Registry \<Rightarrow> string list \<times> string list \<Rightarrow> capability_error + string list" where
  "closure_loop r (enabled, []) = Inr enabled"
| "closure_loop r (enabled, name # queue) =
     (case map_of (modules r) name of None \<Rightarrow> Inl (ErrUnknownModule name)
      | Some m \<Rightarrow>
     (case push_caps r (mf_Requires m) (enabled, queue) of Inl e \<Rightarrow> Inl e
      | Inr st \<Rightarrow> closure_loop r st))"
  by pat_completeness auto
termination
proof (relation "measure (\<lambda>(r, enabled, queue). 2 * unseen r enabled + length queue)", goal_cases)
  case (2 r enabled name queue m st)
  obtain e q where "st = (e, q)" by (metis surj_pair)
  with push_caps_measure [of r "mf_Requires m" enabled queue e q] 2 show ?case by simp
qed simp

definition Closure :: "Registry \<Rightarrow> string list \<Rightarrow> capability_error + string list" where
  "Closure r seeds =
     (case push_seeds r seeds (remdups (kernel r), []) of Inl e \<Rightarrow> Inl e
      | Inr (enabled, queue) \<Rightarrow>
          (case closure_loop r (enabled, queue @ kernel r) of Inl e \<Rightarrow> Inl e | Inr names \<Rightarrow> Inr (sort names)))"

section \<open>Enabling and disabling, on paper\<close>

record EnableResult =
  er_Target :: string
  er_Added :: "string list"

definition title_of :: "Registry \<Rightarrow> string \<Rightarrow> string" where
  "title_of r name = (case map_of (modules r) name of Some m \<Rightarrow> if mf_Title m \<noteq> '''' then mf_Title m else name | None \<Rightarrow> name)"

definition join :: "string \<Rightarrow> string list \<Rightarrow> string" where
  "join sep xs = (case xs of [] \<Rightarrow> [] | x # rest \<Rightarrow> x @ concat (map (\<lambda>y. sep @ y) rest))"

definition Preview :: "Registry \<Rightarrow> EnableResult \<Rightarrow> string" where
  "Preview r res =
     (if er_Added res = [] then ''Enabling '' @ title_of r (er_Target res) @ '' needs no additional modules.''
      else ''Enabling '' @ title_of r (er_Target res) @ '' will also enable: '' @
        join '', '' (map (title_of r) (er_Added res)) @ ''.'')"

definition EnableClosure :: "Registry \<Rightarrow> string list \<Rightarrow> string \<Rightarrow> capability_error + EnableResult" where
  "EnableClosure r enabled name =
     (case registry_Module r name of Inl e \<Rightarrow> Inl e
      | Inr _ \<Rightarrow>
     (case Closure r (enabled @ [name]) of Inl e \<Rightarrow> Inl e
      | Inr full \<Rightarrow> Inr \<lparr>er_Target = name, er_Added = sort (filter (\<lambda>n. n \<notin> set enabled) full)\<rparr>))"

definition capabilityCovered :: "Registry \<Rightarrow> string \<Rightarrow> string list \<Rightarrow> bool" where
  "capabilityCovered r cap names = (case map_of (providers r) cap of None \<Rightarrow> False | Some prov \<Rightarrow> prov \<in> set names)"

definition DisableImpact :: "Registry \<Rightarrow> string list \<Rightarrow> string \<Rightarrow> capability_error + string list" where
  "DisableImpact r enabled name =
     (case registry_Module r name of Inl e \<Rightarrow> Inl e
      | Inr m \<Rightarrow>
          if mf_Kernel m then Inl ErrKernelNotDisableable
          else
            let remaining = remdups (filter (\<lambda>n. n \<noteq> name) enabled)
            in Inr (sort (filter (\<lambda>n. case map_of (modules r) n of None \<Rightarrow> False
                 | Some rm \<Rightarrow> \<not> mf_Kernel rm \<and> (\<exists>cap \<in> set (mf_Requires rm). \<not> capabilityCovered r cap remaining)) remaining)))"

definition AvailableModes :: "Registry \<Rightarrow> string list \<Rightarrow> string \<Rightarrow> capability_error + string list" where
  "AvailableModes r enabled name =
     (case registry_Module r name of Inl e \<Rightarrow> Inl e
      | Inr m \<Rightarrow> Inr (sort (map md_Name (filter (\<lambda>mode. \<forall>cap \<in> set (md_Requires mode). capabilityCovered r cap enabled)
          (mf_Modes m)))))"

definition ActiveBridges :: "Registry \<Rightarrow> string list \<Rightarrow> string list" where
  "ActiveBridges r enabled =
     sort (concat (map (\<lambda>name. case map_of (modules r) name of None \<Rightarrow> []
        | Some m \<Rightarrow> map (\<lambda>b. mf_Module m @ '':'' @ Adds b) (filter (\<lambda>b. capabilityCovered r (When b) enabled) (mf_Enhances m)))
       (remdups enabled)))"

section \<open>Profiles\<close>

record Profile =
  pr_Name :: string
  pr_Title :: string
  pr_Modules :: "string list"
  pr_Pending :: string

definition Bootable :: "Profile \<Rightarrow> bool" where
  "Bootable p \<longleftrightarrow> pr_Pending p = ''''"

definition profiles :: "Profile list" where
  "profiles =
     [\<lparr>pr_Name = ''personal'', pr_Title = ''Personal'', pr_Modules = [''invoicing'', ''payables''], pr_Pending = ''''\<rparr>,
      \<lparr>pr_Name = ''accounting_only'', pr_Title = ''Accounting-only'',
       pr_Modules = [''ledger'', ''invoicing'', ''payables'', ''banking''], pr_Pending = ''''\<rparr>,
      \<lparr>pr_Name = ''crm_only'', pr_Title = ''CRM-only'', pr_Modules = [''crm''], pr_Pending = ''''\<rparr>,
      \<lparr>pr_Name = ''invoice_automation_only'', pr_Title = ''Invoice-automation-only'', pr_Modules = [''payables''],
       pr_Pending = ''documents.ocr''\<rparr>,
      \<lparr>pr_Name = ''services_smb'', pr_Title = ''Services SMB'',
       pr_Modules = [''invoicing'', ''payables'', ''banking'', ''crm'', ''projects'', ''work''], pr_Pending = ''''\<rparr>,
      \<lparr>pr_Name = ''product_smb'', pr_Title = ''Product SMB'',
       pr_Modules = [''invoicing'', ''payables'', ''banking'', ''crm'', ''projects'', ''inventory'', ''work''], pr_Pending = ''''\<rparr>,
      \<lparr>pr_Name = ''full_suite'', pr_Title = ''Full suite'',
       pr_Modules = [''ledger'', ''invoicing'', ''payables'', ''banking'', ''crm'', ''inventory'', ''hr'', ''payroll'',
         ''projects'', ''work'', ''tax-engine'', ''contacts''], pr_Pending = ''''\<rparr>]"

definition profile_named :: "string \<Rightarrow> Profile option" where
  "profile_named name = List.find (\<lambda>p. pr_Name p = name) profiles"

definition ProfileClosure :: "Registry \<Rightarrow> Profile \<Rightarrow> capability_error + string list" where
  "ProfileClosure r p = Closure r (sort (pr_Modules p))"

end
