(* ===== verification/CapabilityFacts.thy ===== *)
theory CapabilityFacts
  imports Capability
begin

text \<open>The solver: the closure is the least set that holds the kernel and the seeds and is closed under the
  providers of what its modules require, and the registry that \<open>Load\<close> accepts makes it total.\<close>

section \<open>Accepted registries\<close>

definition registry_ok :: "Registry \<Rightarrow> bool" where
  "registry_ok r \<longleftrightarrow> distinct (map fst (modules r)) \<and> (\<forall>(n, m) \<in> set (modules r). mf_Module m = n) \<and>
     set (kernel r) \<subseteq> fst ` set (modules r) \<and> snd ` set (providers r) \<subseteq> fst ` set (modules r) \<and>
     snd ` set (objects r) \<subseteq> fst ` set (modules r) \<and>
     (\<forall>(n, m) \<in> set (modules r). mf_Kernel m \<longleftrightarrow> n \<in> set (kernel r))"

lemma add_provides_owners: "add_provides m cs ps = Inr ps' \<Longrightarrow> snd ` set ps' \<subseteq> insert m (snd ` set ps)"
proof (induction cs arbitrary: ps)
  case (Cons c cs)
  then have "add_provides m cs ((c, m) # ps) = Inr ps'" by (simp split: option.splits)
  from Cons.IH [OF this] show ?case by simp
qed auto

lemma add_objects_owners: "add_objects m obs os = Inr os' \<Longrightarrow> snd ` set os' \<subseteq> insert m (snd ` set os)"
proof (induction obs arbitrary: os)
  case (Cons c obs)
  then have "add_objects m obs ((c, m) # os) = Inr os'" by (simp split: option.splits)
  from Cons.IH [OF this] show ?case by simp
qed auto

lemma registry_add_ok:
  assumes "registry_ok r" "registry_add m r = Inr r'"
  shows "registry_ok r'"
proof -
  let ?n = "mf_Module m"
  from assms(2) obtain ps os where n: "?n \<notin> fst ` set (modules r)"
    and ps: "add_provides ?n (mf_Provides m) (providers r) = Inr ps"
    and os: "add_objects ?n (mf_Objects m) (objects r) = Inr os"
    and r': "r' = \<lparr>modules = (?n, m) # modules r, providers = ps, objects = os,
      kernel = kernel r @ (if mf_Kernel m then [?n] else [])\<rparr>"
    by (auto simp: registry_add_def map_of_eq_None_iff split: if_splits sum.splits)
  note ok = assms(1) [unfolded registry_ok_def]
  have sub: "set (kernel r) \<subseteq> fst ` set (modules r)" "snd ` set (providers r) \<subseteq> fst ` set (modules r)"
    "snd ` set (objects r) \<subseteq> fst ` set (modules r)" using ok by simp_all
  have parts: "modules r' = (?n, m) # modules r" "providers r' = ps" "objects r' = os"
    "kernel r' = kernel r @ (if mf_Kernel m then [?n] else [])" by (simp_all add: r')
  have owners: "snd ` set ps \<subseteq> insert ?n (fst ` set (modules r))" "snd ` set os \<subseteq> insert ?n (fst ` set (modules r))"
    using subset_trans [OF add_provides_owners [OF ps] insert_mono [OF sub(2)]]
      subset_trans [OF add_objects_owners [OF os] insert_mono [OF sub(3)]] by simp_all
  have k: "?n \<notin> set (kernel r)" using n sub(1) by blast
  have kernel: "\<forall>(n', m') \<in> set (modules r'). mf_Kernel m' \<longleftrightarrow> n' \<in> set (kernel r')"
  proof clarify
    fix n' m' assume x: "(n', m') \<in> set (modules r')"
    show "mf_Kernel m' \<longleftrightarrow> n' \<in> set (kernel r')"
    proof (cases "(n', m') = (?n, m)")
      case True
      then have "n' = ?n" "m' = m" by blast+
      then show ?thesis using k by (simp add: parts(4))
    next
      case False
      with x have x': "(n', m') \<in> set (modules r)" unfolding parts(1) set_simps by blast
      have "n' \<in> fst ` set (modules r)" using imageI [OF x', of fst] by simp
      with n have "n' \<noteq> ?n" by blast
      moreover have "mf_Kernel m' \<longleftrightarrow> n' \<in> set (kernel r)" using ok x' by blast
      ultimately show ?thesis by (simp add: parts(4))
    qed
  qed
  have "set (kernel r') \<subseteq> fst ` set (modules r')" using ok by (auto simp: parts)
  moreover have "distinct (map fst (modules r'))" "\<forall>(n, m) \<in> set (modules r'). mf_Module m = n" using n ok by (auto simp: parts)
  moreover have "fst ` set (modules r') = insert ?n (fst ` set (modules r))" by (simp add: parts)
  ultimately show ?thesis unfolding registry_ok_def parts(2,3) using owners kernel by (simp only:)
qed

lemma add_all_ok: "registry_ok r \<Longrightarrow> add_all ms r = Inr r' \<Longrightarrow> registry_ok r'"
  by (induction ms arbitrary: r) (auto split: sum.splits dest: registry_add_ok)

definition requires_provided :: "Registry \<Rightarrow> bool" where
  "requires_provided r \<longleftrightarrow> (\<forall>(n, m) \<in> set (modules r). \<forall>cap \<in> set (mf_Requires m). map_of (providers r) cap \<noteq> None)"

lemma Load_ok:
  assumes "Load ms = Inr r"
  shows "registry_ok r" "requires_provided r"
proof -
  from assms obtain r0 where r0: "add_all ms \<lparr>modules = [], providers = [], objects = [], kernel = []\<rparr> = Inr r0"
    "validateGraph r0 = Inr ()" "r = r0\<lparr>kernel := sort (kernel r0)\<rparr>"
    by (auto simp: Load_def split: sum.splits)
  have "registry_ok r0" by (rule add_all_ok [OF _ r0(1)]) (simp add: registry_ok_def)
  then show "registry_ok r" by (simp add: registry_ok_def r0(3))
  from r0(2) show "requires_provided r"
    by (auto simp: validateGraph_def requires_provided_def r0(3) split: if_splits)
qed

section \<open>The closure is the least solution\<close>

inductive needed :: "Registry \<Rightarrow> string set \<Rightarrow> string \<Rightarrow> bool" for r S where
  seed: "n \<in> S \<Longrightarrow> needed r S n"
| provider: "needed r S n \<Longrightarrow> map_of (modules r) n = Some m \<Longrightarrow> cap \<in> set (mf_Requires m) \<Longrightarrow>
    map_of (providers r) cap = Some p \<Longrightarrow> needed r S p"

text \<open>A module whose requirements are met inside a set.\<close>

definition met_in :: "Registry \<Rightarrow> string list \<Rightarrow> string \<Rightarrow> bool" where
  "met_in r names n \<longleftrightarrow> (\<forall>m. map_of (modules r) n = Some m \<longrightarrow> (\<forall>cap \<in> set (mf_Requires m). capabilityCovered r cap names))"

lemma covered_mono: "capabilityCovered r cap xs \<Longrightarrow> set xs \<subseteq> set ys \<Longrightarrow> capabilityCovered r cap ys"
  by (auto simp: capabilityCovered_def split: option.splits)

lemma met_in_mono: "met_in r xs n \<Longrightarrow> set xs \<subseteq> set ys \<Longrightarrow> met_in r ys n"
  unfolding met_in_def using covered_mono by blast

lemma provider_known: "registry_ok r \<Longrightarrow> map_of (providers r) cap = Some p \<Longrightarrow> p \<in> fst ` set (modules r)"
proof -
  assume "registry_ok r" and m: "map_of (providers r) cap = Some p"
  moreover have "p \<in> snd ` set (providers r)" using imageI [OF map_of_SomeD [OF m], of snd] by simp
  ultimately show ?thesis unfolding registry_ok_def by blast
qed

lemma push_known:
  assumes "name \<in> fst ` set (modules r)"
  shows "push r name (enabled, queue) =
    Inr (if name \<in> set enabled then (enabled, queue) else (name # enabled, queue @ [name]))"
proof -
  have "map_of (modules r) name \<noteq> None" using assms by (simp add: map_of_eq_None_iff)
  then show ?thesis unfolding push_def by simp
qed

text \<open>What the inner loop adds: to the enabled set and to the queue alike, the providers of the capabilities.\<close>

lemma push_caps_effect:
  assumes "registry_ok r" "\<forall>cap \<in> set caps. map_of (providers r) cap \<noteq> None" "distinct enabled"
  shows "\<exists>new. push_caps r caps (enabled, queue) = Inr (rev new @ enabled, queue @ new) \<and> distinct (rev new @ enabled) \<and>
    (\<forall>p \<in> set new. \<exists>cap \<in> set caps. map_of (providers r) cap = Some p) \<and>
    (\<forall>cap \<in> set caps. capabilityCovered r cap (rev new @ enabled))"
  using assms(2,3)
proof (induction caps arbitrary: enabled queue)
  case (Cons cap caps)
  then obtain p where p: "map_of (providers r) cap = Some p" by auto
  note k = push_known [OF provider_known [OF assms(1) p]]
  show ?case
  proof (cases "p \<in> set enabled")
    case True
    from Cons.IH [of enabled queue] Cons.prems obtain new where
      "push_caps r caps (enabled, queue) = Inr (rev new @ enabled, queue @ new)" "distinct (rev new @ enabled)"
      "\<forall>p \<in> set new. \<exists>cap \<in> set caps. map_of (providers r) cap = Some p"
      "\<forall>cap \<in> set caps. capabilityCovered r cap (rev new @ enabled)" by auto
    then show ?thesis using True by (intro exI [of _ new]) (auto simp: p k capabilityCovered_def)
  next
    case False
    with Cons.IH [of "p # enabled" "queue @ [p]"] Cons.prems obtain new where
      "push_caps r caps (p # enabled, queue @ [p]) = Inr (rev new @ p # enabled, (queue @ [p]) @ new)"
      "distinct (rev new @ p # enabled)"
      "\<forall>p \<in> set new. \<exists>cap \<in> set caps. map_of (providers r) cap = Some p"
      "\<forall>cap \<in> set caps. capabilityCovered r cap (rev new @ p # enabled)" by auto
    then show ?thesis using False by (intro exI [of _ "p # new"]) (auto simp: p k capabilityCovered_def)
  qed
qed simp

lemma closure_loop_least:
  assumes "registry_ok r" "requires_provided r" "distinct enabled" "set enabled \<subseteq> fst ` set (modules r)"
    "set queue \<subseteq> set enabled" "\<forall>n \<in> set enabled. needed r S n" "\<forall>n \<in> set enabled - set queue. met_in r enabled n"
  shows "\<exists>names. closure_loop r (enabled, queue) = Inr names \<and> distinct names \<and> set enabled \<subseteq> set names \<and>
    (\<forall>n \<in> set names. n \<in> fst ` set (modules r) \<and> needed r S n \<and> met_in r names n)"
  using assms
proof (induction r "(enabled, queue)" arbitrary: enabled queue rule: closure_loop.induct)
  case (1 r enabled)
  then show ?case by auto
next
  case (2 r enabled name queue)
  then have "name \<in> fst ` set (modules r)" by auto
  then obtain m where m: "map_of (modules r) name = Some m" by (cases "map_of (modules r) name") (auto simp: map_of_eq_None_iff)
  then have "(name, m) \<in> set (modules r)" by (rule map_of_SomeD)
  then have caps: "\<forall>cap \<in> set (mf_Requires m). map_of (providers r) cap \<noteq> None"
    using "2.prems"(2) unfolding requires_provided_def by blast
  from push_caps_effect [OF "2.prems"(1) caps "2.prems"(3), of queue] obtain new where
    new: "push_caps r (mf_Requires m) (enabled, queue) = Inr (rev new @ enabled, queue @ new)" "distinct (rev new @ enabled)"
      "\<forall>p \<in> set new. \<exists>cap \<in> set (mf_Requires m). map_of (providers r) cap = Some p"
      "\<forall>cap \<in> set (mf_Requires m). capabilityCovered r cap (rev new @ enabled)" by blast
  have name: "name \<in> set enabled" using "2.prems"(5) by simp
  have known: "set (rev new @ enabled) \<subseteq> fst ` set (modules r)"
  proof
    fix x assume "x \<in> set (rev new @ enabled)"
    then consider "x \<in> set new" | "x \<in> set enabled" by auto
    then show "x \<in> fst ` set (modules r)"
      by cases (use new(3) provider_known [OF "2.prems"(1)] "2.prems"(4) in blast)+
  qed
  have need: "\<forall>n \<in> set (rev new @ enabled). needed r S n"
  proof
    fix x assume "x \<in> set (rev new @ enabled)"
    then consider "x \<in> set new" | "x \<in> set enabled" by auto
    then show "needed r S x"
      by cases (use new(3) "2.prems"(6) name needed.provider [OF _ m] in blast)+
  qed
  have met: "met_in r (rev new @ enabled) n" if "n \<in> set (rev new @ enabled) - set (queue @ new)" for n
  proof (cases "n = name")
    case True
    then show ?thesis using new(4) m by (simp add: met_in_def)
  next
    case False
    with that "2.prems"(7) have "met_in r enabled n" by auto
    then show ?thesis by (rule met_in_mono) simp
  qed
  have q: "set (queue @ new) \<subseteq> set (rev new @ enabled)" using "2.prems"(5) by auto
  from "2.hyps" [OF m new(1) "2.prems"(1,2) new(2) known q need] met obtain names where
    "closure_loop r (rev new @ enabled, queue @ new) = Inr names" "distinct names" "set (rev new @ enabled) \<subseteq> set names"
    "\<forall>n \<in> set names. n \<in> fst ` set (modules r) \<and> needed r S n \<and> met_in r names n" by blast
  then show ?case by (simp add: m new(1))
qed

lemma push_unknown: "name \<notin> fst ` set (modules r) \<Longrightarrow> push r name (enabled, queue) = Inl (ErrUnknownModule name)"
  by (simp add: push_def map_of_eq_None_iff)

lemma push_seeds_effect:
  assumes "distinct enabled"
  shows "case push_seeds r seeds (enabled, queue) of
      Inl e \<Rightarrow> \<exists>s \<in> set seeds. s \<notin> fst ` set (modules r) \<and> e = ErrUnknownModule s
    | Inr (enabled', queue') \<Rightarrow> \<exists>new. enabled' = rev new @ enabled \<and> queue' = queue @ new \<and> distinct enabled' \<and>
        set seeds \<subseteq> fst ` set (modules r) \<and> set enabled' = set enabled \<union> set seeds"
  using assms
proof (induction seeds arbitrary: enabled queue)
  case (Cons s seeds)
  show ?case
  proof (cases "s \<in> fst ` set (modules r)")
    case True
    note k = push_known [OF True, of enabled queue]
    show ?thesis
    proof (cases "s \<in> set enabled")
      case seen: True
      have e: "push_seeds r (s # seeds) (enabled, queue) = push_seeds r seeds (enabled, queue)" using k seen by simp
      from Cons.IH [OF Cons.prems, of queue] show ?thesis unfolding e
        using True seen by (auto split: sum.splits prod.splits)
    next
      case new: False
      have e: "push_seeds r (s # seeds) (enabled, queue) = push_seeds r seeds (s # enabled, queue @ [s])" using k new by simp
      have d: "distinct (s # enabled)" using Cons.prems new by simp
      show ?thesis
      proof (cases "push_seeds r seeds (s # enabled, queue @ [s])")
        case (Inl err)
        then show ?thesis unfolding e using Cons.IH [OF d, of "queue @ [s]"] by simp
      next
        case (Inr st)
        obtain e' q' where st: "st = (e', q')" by (metis surj_pair)
        from Cons.IH [OF d, of "queue @ [s]"] obtain new where "e' = rev new @ s # enabled" "q' = (queue @ [s]) @ new"
          "distinct e'" "set seeds \<subseteq> fst ` set (modules r)" "set e' = set (s # enabled) \<union> set seeds"
          unfolding Inr st by auto
        then show ?thesis unfolding e Inr st using True by (auto intro!: exI [of _ "s # new"])
      qed
    qed
  next
    case False
    then show ?thesis using push_unknown [OF False, of enabled queue] by simp
  qed
qed simp

lemma needed_closed:
  assumes "set names \<supseteq> S" "\<forall>n \<in> set names. met_in r names n" "needed r S n"
  shows "n \<in> set names"
  using assms(3)
proof induction
  case (provider n m cap p)
  then have "capabilityCovered r cap names" using assms(2) by (auto simp: met_in_def)
  with provider(4) show ?case by (simp add: capabilityCovered_def)
qed (use assms(1) in blast)

lemma Closure_effect:
  assumes "registry_ok r" "requires_provided r"
  shows "case Closure r seeds of
      Inl e \<Rightarrow> \<exists>s \<in> set seeds. s \<notin> fst ` set (modules r) \<and> e = ErrUnknownModule s
    | Inr names \<Rightarrow> sorted names \<and> distinct names \<and> set seeds \<subseteq> fst ` set (modules r) \<and>
        set names \<subseteq> fst ` set (modules r) \<and> (\<forall>n \<in> set names. met_in r names n) \<and>
        set names = {n. needed r (set (kernel r) \<union> set seeds) n}"
proof -
  let ?S = "set (kernel r) \<union> set seeds"
  note seeds = push_seeds_effect [where r = r and seeds = seeds and queue = "[]", OF distinct_remdups [of "kernel r"]]
  show ?thesis
  proof (cases "push_seeds r seeds (remdups (kernel r), [])")
    case (Inl e)
    with seeds show ?thesis by (simp add: Closure_def)
  next
    case (Inr st)
    obtain enabled queue where st: "st = (enabled, queue)" by (metis surj_pair)
    from seeds obtain new where new: "enabled = rev new @ remdups (kernel r)" "queue = new" "distinct enabled"
      "set seeds \<subseteq> fst ` set (modules r)" "set enabled = ?S" unfolding Inr st by auto
    have known: "set enabled \<subseteq> fst ` set (modules r)" using new(4) assms(1) unfolding new(5) registry_ok_def by simp
    have q: "set (queue @ kernel r) \<subseteq> set enabled" by (simp add: new(1,2))
    have need: "\<forall>n \<in> set enabled. needed r ?S n" unfolding new(5) by (blast intro: needed.seed)
    have rest: "\<forall>n \<in> set enabled - set (queue @ kernel r). met_in r enabled n" by (simp add: new(1,2))
    from closure_loop_least [OF assms new(3) known q need rest] obtain names where
      n: "closure_loop r (enabled, queue @ kernel r) = Inr names" "distinct names" "set enabled \<subseteq> set names"
        "\<forall>n \<in> set names. n \<in> fst ` set (modules r) \<and> needed r ?S n \<and> met_in r names n" by blast
    have sup: "?S \<subseteq> set names" using n(3) unfolding new(5) .
    have met: "\<forall>k \<in> set names. met_in r names k" using n(4) by blast
    have "set names = {n. needed r ?S n}"
    proof (intro set_eqI iffI CollectI)
      show "needed r ?S k" if "k \<in> set names" for k using n(4) that by blast
      show "k \<in> set names" if "k \<in> {n. needed r ?S n}" for k
        by (rule needed_closed [OF sup met]) (use that in simp)
    qed
    moreover have "\<forall>n \<in> set names. met_in r (sort names) n"
      using met by (auto intro: met_in_mono [of r names _ "sort names"])
    moreover have "set names \<subseteq> fst ` set (modules r)" using n(4) by blast
    moreover have "Closure r seeds = Inr (sort names)" by (simp add: Closure_def Inr st n(1))
    ultimately show ?thesis using n(2) new(4) by simp
  qed
qed

text \<open>C16: On a catalog that loads, the closure of known seeds exists and is the least set of modules that holds the
  kernel and the seeds and, with every module, the providers of all it requires; it comes sorted, without
  duplicates. An unknown seed is named by the error.\<close>

theorem Closure_least:
  assumes "Load ms = Inr r"
  shows "case Closure r seeds of
      Inl e \<Rightarrow> \<exists>s \<in> set seeds. map_of (modules r) s = None \<and> e = ErrUnknownModule s
    | Inr names \<Rightarrow> (\<forall>s \<in> set seeds. map_of (modules r) s \<noteq> None) \<and> sorted names \<and> distinct names \<and>
        set names = {n. needed r (set (kernel r) \<union> set seeds) n}"
proof -
  have m: "map_of (modules r) s = None \<longleftrightarrow> s \<notin> fst ` set (modules r)" for s by (rule map_of_eq_None_iff)
  show ?thesis using Closure_effect [OF Load_ok [OF assms], of seeds]
    by (cases "Closure r seeds") (auto simp: m)
qed

definition sample_modules :: "Manifest list" where
  "sample_modules =
     [\<lparr>mf_Module = ''kernel'', mf_Title = ''Kernel'', mf_Kernel = True, mf_Provides = [''files''], mf_Requires = [],
       mf_Enhances = [], mf_Modes = [], mf_Objects = []\<rparr>,
      \<lparr>mf_Module = ''ledger'', mf_Title = ''Ledger'', mf_Kernel = False, mf_Provides = [''ledger.core''], mf_Requires = [],
       mf_Enhances = [], mf_Modes = [], mf_Objects = [''Account'']\<rparr>,
      \<lparr>mf_Module = ''invoicing'', mf_Title = '''', mf_Kernel = False, mf_Provides = [''invoicing''],
       mf_Requires = [''ledger.core'', ''files''], mf_Enhances = [], mf_Modes = [], mf_Objects = [''Invoice'']\<rparr>]"

definition sample_registry :: Registry where
  "sample_registry = (case Load sample_modules of Inr r \<Rightarrow> r | Inl _ \<Rightarrow> \<lparr>modules = [], providers = [], objects = [], kernel = []\<rparr>)"

lemma sample_registry_loads: "Load sample_modules = Inr sample_registry"
proof -
  have "is_ok (Load sample_modules)" by code_simp
  then show ?thesis by (auto simp: is_ok_iff sample_registry_def)
qed

lemma sample_closure: "Closure sample_registry [''invoicing''] = Inr [''invoicing'', ''kernel'', ''ledger'']"
  by code_simp

lemma Closure_least_witness:
  "set [''invoicing'', ''kernel'', ''ledger''] = {n. needed sample_registry (set (kernel sample_registry) \<union> {''invoicing''}) n}"
  using Closure_least [OF sample_registry_loads, of "[''invoicing'']"] unfolding sample_closure by simp

end
