(* ===== verification/ModuleState.thy ===== *)
theory ModuleState
  imports CapabilityFacts Crud
begin

text \<open>
  \<open>kernel/capability\<close>, the enable-state of a tenant: \<open>state.go\<close> (enabling, disabling and profiles, each one
  authorized, transactional and audited) and \<open>gateway.go\<close> (the check the API asks before it serves an object).
  Every state these operations reach keeps the enabled modules of a tenant closed: what a module requires is on.
\<close>

record module_row =
  ms_tenant :: string
  ms_module :: string
  ms_enabled :: bool
  ms_mode :: string
  ms_updated_at :: int
  ms_updated_by :: string

record module_db = crud_db +
  module_state :: "module_row list"

datatype module_error = ModuleAuthz authz_error | ModuleCapability capability_error

section \<open>Reading\<close>

definition readEnabled :: "string \<Rightarrow> 'x module_db_scheme \<Rightarrow> string list" where
  "readEnabled tenant db = map ms_module (filter (\<lambda>r. ms_tenant r = tenant \<and> ms_enabled r) (module_state db))"

definition EnabledModules :: "string \<Rightarrow> 'x module_db_scheme \<Rightarrow> string list" where
  "EnabledModules tenant db = readEnabled tenant db"

definition IsModuleEnabled :: "string \<Rightarrow> string \<Rightarrow> 'x module_db_scheme \<Rightarrow> bool" where
  "IsModuleEnabled tenant name db \<longleftrightarrow> name \<in> set (EnabledModules tenant db)"

definition IsCapabilityEnabled :: "Registry \<Rightarrow> string \<Rightarrow> string \<Rightarrow> 'x module_db_scheme \<Rightarrow> bool" where
  "IsCapabilityEnabled reg tenant cap db =
     (case map_of (providers reg) cap of None \<Rightarrow> False
      | Some prov \<Rightarrow>
          if (case map_of (modules reg) prov of None \<Rightarrow> False | Some m \<Rightarrow> mf_Kernel m) then True
          else IsModuleEnabled tenant prov db)"

text \<open>\<open>GatewayChecker.Enabled\<close>: whether an object is served, and the capability to name if it is not.\<close>

definition gateway_Enabled :: "Registry \<Rightarrow> string \<Rightarrow> string \<Rightarrow> 'x module_db_scheme \<Rightarrow> bool \<times> string" where
  "gateway_Enabled reg tenant ob db =
     (case ModuleForObject reg ob of None \<Rightarrow> (True, '''')
      | Some name \<Rightarrow>
          (case map_of (modules reg) name of
             None \<Rightarrow> (IsModuleEnabled tenant name db, '''')
           | Some m \<Rightarrow> if mf_Kernel m then (True, '''') else (IsModuleEnabled tenant name db, primaryCapability m)))"

section \<open>Writing\<close>

definition upsertModule :: "int \<Rightarrow> string \<Rightarrow> string \<Rightarrow> bool \<Rightarrow> string \<Rightarrow> 'x module_db_scheme \<Rightarrow> 'x module_db_scheme" where
  "upsertModule now tenant name on actor db =
     (let hit = (\<lambda>r. ms_tenant r = tenant \<and> ms_module r = name) in
      db\<lparr>module_state :=
        (if (\<exists>r \<in> set (module_state db). hit r)
         then map (\<lambda>r. if hit r then r\<lparr>ms_enabled := on, ms_updated_at := now, ms_updated_by := actor\<rparr> else r) (module_state db)
         else module_state db @ [\<lparr>ms_tenant = tenant, ms_module = name, ms_enabled = on, ms_mode = '''',
           ms_updated_at = now, ms_updated_by = actor\<rparr>])\<rparr>)"

definition upsert_all :: "int \<Rightarrow> string \<Rightarrow> string list \<Rightarrow> string \<Rightarrow> 'x module_db_scheme \<Rightarrow> 'x module_db_scheme" where
  "upsert_all now tenant names actor db = fold (\<lambda>n. upsertModule now tenant n True actor) names db"

definition module_recordAudit ::
  "int \<Rightarrow> string \<Rightarrow> string \<Rightarrow> string \<Rightarrow> string \<Rightarrow> string list \<Rightarrow> string \<Rightarrow> 'x module_db_scheme \<Rightarrow> 'x module_db_scheme" where
  "module_recordAudit now auid tenant target action names actor db =
     db\<lparr>audit_log := audit_log db @ [\<lparr>au_id = auid, au_tenant = tenant, au_object = ''module_state'', au_record = target,
        au_action = action, au_changes = VMap [(''modules'', VList (map VStr names))], au_actor = actor, au_at = now\<rparr>]\<rparr>"

definition authzObject :: string where "authzObject = ''capability''"
definition authzAction :: string where "authzAction = ''manage''"

definition module_Enable ::
  "Actor option \<Rightarrow> Registry \<Rightarrow> int \<Rightarrow> string \<Rightarrow> string \<Rightarrow> string \<Rightarrow> ('x module_db_scheme, module_error, EnableResult) tx" where
  "module_Enable ctx reg now auid tenant name db =
     (case Authorize db ctx authzObject authzAction of Inl e \<Rightarrow> (Inl (ModuleAuthz e), db)
      | Inr actor \<Rightarrow>
     (case EnableClosure reg (readEnabled tenant db) name of Inl e \<Rightarrow> (Inl (ModuleCapability e), db)
      | Inr result \<Rightarrow>
          let db1 = upsert_all now tenant (er_Added result) (UserID actor) db in
          if er_Added result = [] then (Inr result, db1)
          else (Inr result, module_recordAudit now auid tenant name ''enable'' (er_Added result) (UserID actor) db1)))"

definition module_Disable ::
  "Actor option \<Rightarrow> Registry \<Rightarrow> int \<Rightarrow> string \<Rightarrow> string \<Rightarrow> string \<Rightarrow> ('x module_db_scheme, module_error, unit) tx" where
  "module_Disable ctx reg now auid tenant name db =
     (case Authorize db ctx authzObject authzAction of Inl e \<Rightarrow> (Inl (ModuleAuthz e), db)
      | Inr actor \<Rightarrow>
          if name \<notin> set (readEnabled tenant db) then (Inr (), db)
          else (case DisableImpact reg (readEnabled tenant db) name of Inl e \<Rightarrow> (Inl (ModuleCapability e), db)
          | Inr broken \<Rightarrow>
              if broken \<noteq> [] then (Inl (ModuleCapability (ErrModuleInUse broken)), db)
              else (Inr (), module_recordAudit now auid tenant name ''disable'' [name] (UserID actor)
                (upsertModule now tenant name False (UserID actor) db))))"

definition ApplyProfile ::
  "Actor option \<Rightarrow> Registry \<Rightarrow> int \<Rightarrow> string \<Rightarrow> string \<Rightarrow> Profile \<Rightarrow> ('x module_db_scheme, module_error, string list) tx" where
  "ApplyProfile ctx reg now auid tenant p db =
     (if \<not> Bootable p then (Inl (ModuleCapability (ErrProfilePending (pr_Name p) (pr_Pending p))), db)
      else (case Authorize db ctx authzObject authzAction of Inl e \<Rightarrow> (Inl (ModuleAuthz e), db)
      | Inr actor \<Rightarrow>
     (case ProfileClosure reg p of Inl e \<Rightarrow> (Inl (ModuleCapability e), db)
      | Inr closure \<Rightarrow> (Inr closure, module_recordAudit now auid tenant (pr_Name p) ''apply_profile'' closure (UserID actor)
          (upsert_all now tenant closure (UserID actor) db)))))"

section \<open>What stays true\<close>

text \<open>The enabled modules of a tenant are known, hold the kernel unless nothing is enabled, and meet each other's
  requirements.\<close>

definition modules_met :: "Registry \<Rightarrow> string set \<Rightarrow> bool" where
  "modules_met reg E \<longleftrightarrow> E \<subseteq> fst ` set (modules reg) \<and> (E = {} \<or> set (kernel reg) \<subseteq> E) \<and>
     (\<forall>n \<in> E. \<forall>m. map_of (modules reg) n = Some m \<and> \<not> mf_Kernel m \<longrightarrow>
        (\<forall>cap \<in> set (mf_Requires m). \<exists>p \<in> E. map_of (providers reg) cap = Some p))"

definition state_met :: "Registry \<Rightarrow> 'x module_db_scheme \<Rightarrow> bool" where
  "state_met reg db \<longleftrightarrow> (\<forall>tenant. modules_met reg (set (readEnabled tenant db)))"

lemma covered_iff: "capabilityCovered r cap names \<longleftrightarrow> (\<exists>p \<in> set names. map_of (providers r) cap = Some p)"
  by (auto simp: capabilityCovered_def split: option.splits)

lemma set_upsert:
  "set (readEnabled t (upsertModule now tenant name on actor db)) =
    (if t = tenant then (if on then insert name (set (readEnabled t db)) else set (readEnabled t db) - {name})
     else set (readEnabled t db))"
proof (cases "\<exists>r \<in> set (module_state db). ms_tenant r = tenant \<and> ms_module r = name")
  case True
  let ?f = "\<lambda>r. if ms_tenant r = tenant \<and> ms_module r = name
    then r\<lparr>ms_enabled := on, ms_updated_at := now, ms_updated_by := actor\<rparr> else r"
  have e: "module_state (upsertModule now tenant name on actor db) = map ?f (module_state db)"
    using True by (simp add: upsertModule_def)
  have m: "x \<in> set (readEnabled t (upsertModule now tenant name on actor db)) \<longleftrightarrow>
    (\<exists>r \<in> set (module_state db). ms_tenant r = t \<and> ms_module r = x \<and>
      (if ms_tenant r = tenant \<and> ms_module r = name then on else ms_enabled r))" for x
    by (auto simp: readEnabled_def e image_iff split: if_splits)
  have r: "x \<in> set (readEnabled u db) \<longleftrightarrow> (\<exists>r \<in> set (module_state db). ms_tenant r = u \<and> ms_module r = x \<and> ms_enabled r)" for x u
    by (auto simp: readEnabled_def)
  show ?thesis
  proof (rule set_eqI)
    fix x
    show "x \<in> set (readEnabled t (upsertModule now tenant name on actor db)) \<longleftrightarrow>
      x \<in> (if t = tenant then (if on then insert name (set (readEnabled t db)) else set (readEnabled t db) - {name})
        else set (readEnabled t db))"
      unfolding m using True by (cases "t = tenant"; cases on; cases "x = name") (auto simp: r)
  qed
next
  case False
  then have e: "module_state (upsertModule now tenant name on actor db) = module_state db @
    [\<lparr>ms_tenant = tenant, ms_module = name, ms_enabled = on, ms_mode = '''', ms_updated_at = now, ms_updated_by = actor\<rparr>]"
    by (simp add: upsertModule_def)
  have "name \<notin> set (readEnabled tenant db)" using False by (auto simp: readEnabled_def)
  then show ?thesis unfolding readEnabled_def e by auto
qed

lemma set_upsert_all:
  "set (readEnabled t (upsert_all now tenant names actor db)) =
    (if t = tenant then set names \<union> set (readEnabled t db) else set (readEnabled t db))"
  unfolding upsert_all_def by (induction names arbitrary: db) (auto simp: set_upsert)

lemma readEnabled_audit [simp]: "readEnabled t (module_recordAudit now auid tenant target action names actor db) = readEnabled t db"
  by (simp add: readEnabled_def module_recordAudit_def)

lemma modules_met_union: "modules_met reg A \<Longrightarrow> modules_met reg B \<Longrightarrow> modules_met reg (A \<union> B)"
  unfolding modules_met_def by blast

lemma Closure_met:
  assumes "registry_ok reg" "requires_provided reg" "Closure reg seeds = Inr names"
  shows "modules_met reg (set names)" "set seeds \<subseteq> set names"
proof -
  note c0 = Closure_effect [OF assms(1,2), of seeds, unfolded assms(3) sum.case]
  have c: "set names \<subseteq> fst ` set (modules reg)" "\<forall>n \<in> set names. met_in reg names n"
    "set names = {n. needed reg (set (kernel reg) \<union> set seeds) n}"
    by (rule c0 [THEN conjunct2, THEN conjunct2, THEN conjunct2, THEN conjunct1],
      rule c0 [THEN conjunct2, THEN conjunct2, THEN conjunct2, THEN conjunct2, THEN conjunct1],
      rule c0 [THEN conjunct2, THEN conjunct2, THEN conjunct2, THEN conjunct2, THEN conjunct2])
  have sub: "set (kernel reg) \<union> set seeds \<subseteq> set names"
  proof
    fix k assume "k \<in> set (kernel reg) \<union> set seeds"
    then have "needed reg (set (kernel reg) \<union> set seeds) k" by (rule needed.seed)
    then show "k \<in> set names" unfolding c(3) by simp
  qed
  then show "set seeds \<subseteq> set names" by simp
  have "\<exists>p \<in> set names. map_of (providers reg) cap = Some p"
    if "k \<in> set names" "map_of (modules reg) k = Some m" "cap \<in> set (mf_Requires m)" for k m cap
    using c(2) that unfolding met_in_def covered_iff by blast
  with sub c(1) show "modules_met reg (set names)" unfolding modules_met_def by blast
qed

lemma Enable_met:
  assumes "registry_ok reg" "requires_provided reg" "state_met reg db"
  shows "state_met reg (snd (module_Enable ctx reg now auid tenant name db))"
proof (cases "Authorize db ctx authzObject authzAction")
  case (Inl e)
  then show ?thesis using assms(3) by (simp add: module_Enable_def)
next
  case actor: (Inr actor)
  show ?thesis
  proof (cases "EnableClosure reg (readEnabled tenant db) name")
    case (Inl e)
    then show ?thesis using assms(3) by (simp add: module_Enable_def actor)
  next
    case (Inr result)
    then obtain names where names: "Closure reg (readEnabled tenant db @ [name]) = Inr names"
      "result = \<lparr>er_Target = name, er_Added = sort (filter (\<lambda>n. n \<notin> set (readEnabled tenant db)) names)\<rparr>"
      by (auto simp: EnableClosure_def split: sum.splits)
    define full where "full = names"
    have full: "Closure reg (readEnabled tenant db @ [name]) = Inr full"
      "set (er_Added result) = set full - set (readEnabled tenant db)"
      unfolding full_def by (rule names(1)) (auto simp: names(2))
    note c = Closure_met [OF assms(1,2) full(1)]
    have "set (er_Added result) \<union> set (readEnabled tenant db) = set full" using full(2) c(2) by auto
    then have r: "set (readEnabled t (snd (module_Enable ctx reg now auid tenant name db))) =
      (if t = tenant then set full else set (readEnabled t db))" for t
      by (cases "er_Added result = []") (auto simp: module_Enable_def actor Inr Let_def set_upsert_all)
    then show ?thesis using c(1) assms(3) by (auto simp: state_met_def)
  qed
qed

lemma sort_NilD: "sort xs = [] \<Longrightarrow> xs = []"
  by (metis length_0_conv length_sort)

lemma Disable_met:
  assumes "registry_ok reg" "requires_provided reg" "state_met reg db"
  shows "state_met reg (snd (module_Disable ctx reg now auid tenant name db))"
proof (cases "Authorize db ctx authzObject authzAction")
  case (Inl e)
  then show ?thesis using assms(3) by (simp add: module_Disable_def)
next
  case actor: (Inr actor)
  let ?E = "set (readEnabled tenant db)"
  show ?thesis
  proof (cases "name \<in> ?E \<and> DisableImpact reg (readEnabled tenant db) name = Inr []")
    case False
    then show ?thesis using assms(3)
      by (cases "DisableImpact reg (readEnabled tenant db) name") (auto simp: module_Disable_def actor)
  next
    case True
    then obtain m where m: "map_of (modules reg) name = Some m" "\<not> mf_Kernel m"
      by (auto simp: DisableImpact_def registry_Module_def split: option.splits if_splits)
    let ?rest = "remdups (filter (\<lambda>n. n \<noteq> name) (readEnabled tenant db))"
    have none: "filter (\<lambda>n. case map_of (modules reg) n of None \<Rightarrow> False | Some rm \<Rightarrow> \<not> mf_Kernel rm \<and>
      (\<exists>cap \<in> set (mf_Requires rm). \<not> capabilityCovered reg cap ?rest)) ?rest = []"
    proof -
      from True m have "sort (filter (\<lambda>n. case map_of (modules reg) n of None \<Rightarrow> False | Some rm \<Rightarrow> \<not> mf_Kernel rm \<and>
        (\<exists>cap \<in> set (mf_Requires rm). \<not> capabilityCovered reg cap ?rest)) ?rest) = []"
        by (simp add: DisableImpact_def registry_Module_def Let_def)
      then show ?thesis by (rule sort_NilD)
    qed
    have met: "\<exists>p \<in> ?E - {name}. map_of (providers reg) cap = Some p"
      if "n \<in> ?E - {name}" "map_of (modules reg) n = Some rm" "\<not> mf_Kernel rm" "cap \<in> set (mf_Requires rm)" for n rm cap
    proof -
      have "n \<in> set ?rest" using that(1) by simp
      with none that(2-4) have "capabilityCovered reg cap ?rest" unfolding filter_empty_conv by force
      then show ?thesis by (auto simp: covered_iff)
    qed
    have "name \<notin> set (kernel reg)"
      using m map_of_SomeD [OF m(1)] assms(1) unfolding registry_ok_def by blast
    have E: "?E \<subseteq> fst ` set (modules reg)" "?E = {} \<or> set (kernel reg) \<subseteq> ?E"
      using assms(3) by (simp_all add: state_met_def modules_met_def)
    have "?E \<noteq> {}" using True by auto
    with E(2) \<open>name \<notin> set (kernel reg)\<close> have k: "set (kernel reg) \<subseteq> ?E - {name}" by blast
    have s: "?E - {name} \<subseteq> fst ` set (modules reg)" using E(1) by blast
    then have "modules_met reg (?E - {name})"
      unfolding modules_met_def 
    proof (intro conjI ballI allI impI)
      fix n rm cap assume "n \<in> ?E - {name}" "map_of (modules reg) n = Some rm \<and> \<not> mf_Kernel rm" "cap \<in> set (mf_Requires rm)"
      then show "\<exists>p \<in> ?E - {name}. map_of (providers reg) cap = Some p" by (elim conjE) (rule met)
    qed (rule s, rule disjI2, rule k)
    moreover have "set (readEnabled t (snd (module_Disable ctx reg now auid tenant name db))) =
      (if t = tenant then ?E - {name} else set (readEnabled t db))" for t
      using True by (simp add: module_Disable_def actor set_upsert)
    ultimately show ?thesis using assms(3) by (auto simp: state_met_def)
  qed
qed

lemma ApplyProfile_met:
  assumes "registry_ok reg" "requires_provided reg" "state_met reg db"
  shows "state_met reg (snd (ApplyProfile ctx reg now auid tenant p db))"
proof (cases "fst (ApplyProfile ctx reg now auid tenant p db)")
  case (Inl e)
  then have "snd (ApplyProfile ctx reg now auid tenant p db) = db"
    by (auto simp: ApplyProfile_def split: if_splits sum.splits)
  then show ?thesis using assms(3) by simp
next
  case (Inr closure)
  then obtain actor where c: "ProfileClosure reg p = Inr closure" "Authorize db ctx authzObject authzAction = Inr actor" "Bootable p"
    by (auto simp: ApplyProfile_def split: if_splits sum.splits)
  have "set (readEnabled t (snd (ApplyProfile ctx reg now auid tenant p db))) =
    (if t = tenant then set closure \<union> set (readEnabled t db) else set (readEnabled t db))" for t
    by (simp add: ApplyProfile_def c set_upsert_all)
  then show ?thesis using assms(3) modules_met_union Closure_met(1) [OF assms(1,2) c(1) [unfolded ProfileClosure_def]]
    by (auto simp: state_met_def)
qed

text \<open>The calls that change the enable-state, by any actor and for any tenant.\<close>

datatype module_call =
    CallEnable "Actor option" int string string string
  | CallDisable "Actor option" int string string string
  | CallProfile "Actor option" int string string Profile

fun module_exec :: "Registry \<Rightarrow> module_call \<Rightarrow> 'x module_db_scheme \<Rightarrow> 'x module_db_scheme" where
  "module_exec reg (CallEnable ctx now auid tenant name) db = snd (module_Enable ctx reg now auid tenant name db)"
| "module_exec reg (CallDisable ctx now auid tenant name) db = snd (module_Disable ctx reg now auid tenant name db)"
| "module_exec reg (CallProfile ctx now auid tenant p) db = snd (ApplyProfile ctx reg now auid tenant p db)"

definition module_run :: "Registry \<Rightarrow> module_call list \<Rightarrow> 'x module_db_scheme \<Rightarrow> 'x module_db_scheme" where
  "module_run reg calls db = fold (module_exec reg) calls db"

lemma module_run_met:
  assumes "registry_ok reg" "requires_provided reg"
  shows "state_met reg db \<Longrightarrow> state_met reg (module_run reg calls db)"
proof (induction calls arbitrary: db)
  case (Cons c calls)
  have "state_met reg (module_exec reg c db)"
    by (cases c) (simp_all add: Enable_met [OF assms Cons.prems] Disable_met [OF assms Cons.prems] ApplyProfile_met [OF assms Cons.prems])
  from Cons.IH [OF this] show ?case by (simp add: module_run_def)
qed (simp add: module_run_def)

text \<open>C15: Whatever modules and profiles were enabled and disabled, when the gateway serves an object of a module,
  every capability that module requires is enabled for the tenant.\<close>

theorem served_modules_met:
  assumes "Load ms = Inr reg" "module_state db = []"
    "ModuleForObject reg ob = Some name" "map_of (modules reg) name = Some m" "\<not> mf_Kernel m"
    "fst (gateway_Enabled reg tenant ob (module_run reg calls db))" "cap \<in> set (mf_Requires m)"
  shows "IsCapabilityEnabled reg tenant cap (module_run reg calls db)"
proof -
  let ?db = "module_run reg calls db"
  have "state_met reg db" by (simp add: state_met_def modules_met_def readEnabled_def assms(2))
  from module_run_met [OF Load_ok [OF assms(1)] this] have "modules_met reg (set (readEnabled tenant ?db))"
    by (simp add: state_met_def)
  moreover have "name \<in> set (readEnabled tenant ?db)"
    using assms(3-6) by (simp add: gateway_Enabled_def IsModuleEnabled_def EnabledModules_def)
  ultimately obtain p where "p \<in> set (readEnabled tenant ?db)" "map_of (providers reg) cap = Some p"
    using assms(4,5,7) unfolding modules_met_def by blast
  then show ?thesis by (simp add: IsCapabilityEnabled_def IsModuleEnabled_def EnabledModules_def)
qed

text \<open>A call that changes anything was permitted, and leaves one audit row of its actor.\<close>

lemma module_change_audited:
  assumes "module_exec reg c db \<noteq> db"
  shows "\<exists>ctx actor row. Authorize db ctx authzObject authzAction = Inr actor \<and>
    audit_log (module_exec reg c db) = audit_log db @ [row] \<and> au_object row = ''module_state'' \<and> au_actor row = UserID actor"
proof -
  have a: "audit_log (upsertModule now tenant n on actor db) = audit_log db" for now tenant n on actor and db :: "'x module_db_scheme"
    by (simp add: upsertModule_def Let_def)
  have aa: "audit_log (upsert_all now tenant ns actor db) = audit_log db" for now tenant ns actor and db :: "'x module_db_scheme"
    unfolding upsert_all_def by (induction ns arbitrary: db) (simp_all add: a)
  have none: "upsert_all now tenant [] actor db = db" for now tenant actor and db :: "'x module_db_scheme"
    by (simp add: upsert_all_def)
  show ?thesis
  proof (cases c)
    case (CallEnable ctx now auid tenant name)
    from assms show ?thesis unfolding CallEnable module_exec.simps module_Enable_def
      by (auto simp: Let_def none aa module_recordAudit_def split: sum.splits if_splits)
  next
    case (CallDisable ctx now auid tenant name)
    from assms show ?thesis unfolding CallDisable module_exec.simps module_Disable_def
      by (auto simp: a module_recordAudit_def split: sum.splits if_splits)
  next
    case (CallProfile ctx now auid tenant p)
    from assms show ?thesis unfolding CallProfile module_exec.simps ApplyProfile_def
      by (auto simp: aa module_recordAudit_def split: sum.splits if_splits)
  qed
qed

end
