(* ===== verification/BuiltinCatalog.thy ===== *)
theory BuiltinCatalog
  imports ModuleState
begin

text \<open>The module catalog the binary ships (\<open>kernel/capability/builtin/*.yaml\<close>, decoded, in the order the directory is
  read): it loads, every shipped profile resolves on it, and the enable-state guarantees apply to it.\<close>

definition builtin_catalog :: "Manifest list" where
  "builtin_catalog =
     [\<lparr>mf_Module = ''banking'', mf_Title = ''Banking & Reconciliation'', mf_Kernel = False,
       mf_Provides = [''banking'', ''reconciliation''],
       mf_Requires = [''ledger.core''],
       mf_Enhances = [],
       mf_Modes = [\<lparr>md_Name = ''statement_import'', md_Requires = []\<rparr>], mf_Objects = []\<rparr>,
      \<lparr>mf_Module = ''contacts'', mf_Title = ''Contacts (shared)'', mf_Kernel = False,
       mf_Provides = [''contacts''],
       mf_Requires = [],
       mf_Enhances = [],
       mf_Modes = [], mf_Objects = [''Contact'']\<rparr>,
      \<lparr>mf_Module = ''crm'', mf_Title = ''CRM'', mf_Kernel = False,
       mf_Provides = [''crm'', ''pipeline''],
       mf_Requires = [''contacts''],
       mf_Enhances = [],
       mf_Modes = [], mf_Objects = []\<rparr>,
      \<lparr>mf_Module = ''hr'', mf_Title = ''HR / Employee Directory'', mf_Kernel = False,
       mf_Provides = [''hr.core'', ''org.structure''],
       mf_Requires = [''contacts''],
       mf_Enhances = [\<lparr>When = ''projects'', Adds = ''capacity-views''\<rparr>, \<lparr>When = ''ledger.core'', Adds = ''department-cost''\<rparr>],
       mf_Modes = [], mf_Objects = []\<rparr>,
      \<lparr>mf_Module = ''inventory'', mf_Title = ''Inventory'', mf_Kernel = False,
       mf_Provides = [''inventory'', ''stock.movements''],
       mf_Requires = [''contacts''],
       mf_Enhances = [\<lparr>When = ''ledger.core'', Adds = ''stock-valuation''\<rparr>],
       mf_Modes = [\<lparr>md_Name = ''quantity_only'', md_Requires = []\<rparr>], mf_Objects = []\<rparr>,
      \<lparr>mf_Module = ''invoicing'', mf_Title = ''Invoicing / AR'', mf_Kernel = False,
       mf_Provides = [''invoicing'', ''ar.aging''],
       mf_Requires = [''contacts'', ''ledger.core'', ''tax.engine''],
       mf_Enhances = [\<lparr>When = ''inventory'', Adds = ''stock-aware-invoicing''\<rparr>],
       mf_Modes = [], mf_Objects = [''Invoice'', ''Receipt'']\<rparr>,
      \<lparr>mf_Module = ''kernel'', mf_Title = ''Kernel'', mf_Kernel = True,
       mf_Provides = [''documents'', ''notifications'', ''files'', ''search'', ''approval''],
       mf_Requires = [],
       mf_Enhances = [],
       mf_Modes = [], mf_Objects = []\<rparr>,
      \<lparr>mf_Module = ''ledger'', mf_Title = ''Ledger'', mf_Kernel = False,
       mf_Provides = [''ledger.core'', ''dimensions'', ''periods''],
       mf_Requires = [],
       mf_Enhances = [],
       mf_Modes = [], mf_Objects = [''Account'', ''Period'', ''JournalEntry'']\<rparr>,
      \<lparr>mf_Module = ''payables'', mf_Title = ''Payables / AP'', mf_Kernel = False,
       mf_Provides = [''payables'', ''ap.aging'', ''invoice_capture''],
       mf_Requires = [''contacts'', ''ledger.core'', ''tax.engine''],
       mf_Enhances = [],
       mf_Modes = [\<lparr>md_Name = ''capture_export'', md_Requires = [''contacts'', ''documents.ocr'']\<rparr>], mf_Objects = []\<rparr>,
      \<lparr>mf_Module = ''payroll'', mf_Title = ''Payroll'', mf_Kernel = False,
       mf_Provides = [''payroll''],
       mf_Requires = [''hr.core'', ''ledger.core''],
       mf_Enhances = [],
       mf_Modes = [], mf_Objects = []\<rparr>,
      \<lparr>mf_Module = ''projects'', mf_Title = ''Projects & Time'', mf_Kernel = False,
       mf_Provides = [''projects'', ''time''],
       mf_Requires = [''contacts''],
       mf_Enhances = [\<lparr>When = ''invoicing'', Adds = ''billable-rollup''\<rparr>],
       mf_Modes = [\<lparr>md_Name = ''time_tracking_only'', md_Requires = []\<rparr>], mf_Objects = []\<rparr>,
      \<lparr>mf_Module = ''reporting'', mf_Title = ''Reports & metrics'', mf_Kernel = False,
       mf_Provides = [''reporting'', ''metrics.layer''],
       mf_Requires = [''ledger.core'', ''invoicing''],
       mf_Enhances = [],
       mf_Modes = [], mf_Objects = []\<rparr>,
      \<lparr>mf_Module = ''tax-engine'', mf_Title = ''Tax engine'', mf_Kernel = False,
       mf_Provides = [''tax.engine''],
       mf_Requires = [],
       mf_Enhances = [],
       mf_Modes = [\<lparr>md_Name = ''rates_lookup'', md_Requires = []\<rparr>], mf_Objects = []\<rparr>,
      \<lparr>mf_Module = ''work'', mf_Title = ''Work Management'', mf_Kernel = False,
       mf_Provides = [''work'', ''docs'', ''goals'', ''forms'', ''dashboards''],
       mf_Requires = [],
       mf_Enhances = [],
       mf_Modes = [], mf_Objects = []\<rparr>]"

definition builtin_registry :: Registry where
  "builtin_registry = (case Load builtin_catalog of Inr r \<Rightarrow> r | Inl _ \<Rightarrow> \<lparr>modules = [], providers = [], objects = [], kernel = []\<rparr>)"

lemma builtin_loads: "Load builtin_catalog = Inr builtin_registry"
proof -
  have "is_ok (Load builtin_catalog)" by code_simp
  then show ?thesis by (auto simp: is_ok_iff builtin_registry_def)
qed

text \<open>Every shipped profile has a closure, so that applying it fails only on a missing permission or on its
  pending capability.\<close>

lemma profiles_boot: "list_all (\<lambda>p. is_ok (ProfileClosure builtin_registry p)) profiles"
  by code_simp

definition admin_db :: module_db where
  "admin_db = \<lparr>roles = [\<lparr>ro_id = ''r'', ro_tenant = ''acme'', ro_name = ''admin'', ro_core = True\<rparr>],
     role_permissions = [\<lparr>pe_id = ''p'', pe_tenant = ''acme'', pe_role = ''r'', pe_object = ''capability'',
        pe_action = ''manage'', pe_condition = None\<rparr>],
     user_roles = [\<lparr>ur_tenant = ''acme'', ur_user = ''ann'', ur_role = ''r''\<rparr>],
     change_feed = [], feed_next = 1, events = [], event_next = 1, stream_snapshots = [], obj_rows = [], audit_log = [],
     module_state = []\<rparr>"

definition admin_calls :: "module_call list" where
  "admin_calls =
     [CallEnable (Some \<lparr>TenantID = ''acme'', UserID = ''ann''\<rparr>) 0 ''a1'' ''acme'' ''invoicing'',
      CallDisable (Some \<lparr>TenantID = ''acme'', UserID = ''ann''\<rparr>) 1 ''a2'' ''acme'' ''ledger'']"

lemma served_modules_met_witness:
  "fst (gateway_Enabled builtin_registry ''acme'' ''Invoice'' (module_run builtin_registry admin_calls admin_db)) \<and>
    IsCapabilityEnabled builtin_registry ''acme'' ''ledger.core'' (module_run builtin_registry admin_calls admin_db)"
proof -
  have e: "module_state admin_db = []" by (simp add: admin_db_def)
  have o: "ModuleForObject builtin_registry ''Invoice'' = Some ''invoicing''" by code_simp
  have m: "map_option mf_Kernel (map_of (modules builtin_registry) ''invoicing'') = Some False"
    "map_option mf_Requires (map_of (modules builtin_registry) ''invoicing'') = Some [''contacts'', ''ledger.core'', ''tax.engine'']"
    by code_simp+
  then obtain m where m: "map_of (modules builtin_registry) ''invoicing'' = Some m" "\<not> mf_Kernel m"
    "''ledger.core'' \<in> set (mf_Requires m)" by auto
  have g: "fst (gateway_Enabled builtin_registry ''acme'' ''Invoice'' (module_run builtin_registry admin_calls admin_db))"
    by code_simp
  from served_modules_met [OF builtin_loads e o m(1,2) g m(3)] g show ?thesis by blast
qed

end
