(* ===== verification/Spec2Isabelle.thy ===== *)
theory Spec2Isabelle
  imports Allocation MoneyText FxRates Tax Authz FeedOrder EventStore MetaEvolve CrudWrites LedgerTrial InvoicingDocs
    JobTicks BuiltinCatalog
begin

text \<open>
  LastERP: an ERP kernel with business modules on top, written in Go, storing everything in one SQL database
  (Postgres, or SQLite in the single-binary mode). The development models the code that decides what is stored
  and what is computed, and proves the guarantees that \<open>docs/\<close> lists as invariants (INV-F: finance, INV-T:
  tenancy and records, INV-E: events, INV-S: sync), and the contracts the comments of the code promise.

  Parts and how they interact. Every request runs under a tenant and an actor, in one transaction. The record
  engine (\<open>kernel/metadata\<close>) stores the records of objects described by schemas; it asks \<open>kernel/authz\<close> whether
  the actor may act, writes an audit row, and appends to the change feed (\<open>kernel/changefeed\<close>) that clients
  follow. The event store (\<open>kernel/eventstore\<close>) keeps immutable events under optimistic concurrency and command
  ids, and appends to the same feed. The ledger (\<open>modules/ledger\<close>) keeps accounts and periods as records and
  journal entries as events, and derives the trial balance from the events. Invoicing (\<open>modules/invoicing\<close>)
  keeps drafts as records, computes tax with \<open>modules/tax\<close> and \<open>kernel/money\<close>, posts to the ledger, and freezes
  what is posted. Beside the request path, \<open>kernel/jobs\<close> runs queued and scheduled work, and
  \<open>kernel/capability\<close> decides which modules a tenant has switched on, which the API asks before it serves an
  object.

  How the code becomes definitions.
  \<^item> A definition has the name of the Go function; where two packages use the same name, or HOL does, it carries
    the package as a prefix (\<open>fx_SaveRate\<close>, \<open>tax_SaveRate\<close>, \<open>feed_Read\<close>).
  \<^item> A database is a record with one list per table, in insertion order; the records of the components extend
    each other along the imports (\<open>authz_db\<close>, \<open>feed_db\<close>, \<open>event_db\<close>, the record tables, the ledger's and
    invoicing's tables). An operation takes the database and returns a sum, \<open>Inl\<close> of the error or \<open>Inr\<close> of the
    result, with the new database. A transaction that fails returns the database it was given: that is
    \<open>tenancy.WithTenant\<close>, whose row-level isolation appears as the tenant argument of every query.
  \<^item> Go's \<open>int64\<close> is \<open>int\<close> with the wrap-around of each operation written out (\<open>i64\<close>, \<open>wrap64\<close> in
    \<open>Prelude\<close>); \<open>big.Int\<close> is \<open>int\<close> and \<open>big.Rat\<close> is \<open>rat\<close>. A Go panic is an error constructor of its own.
  \<^item> Errors are the constructors of one datatype per package, named after the Go error values.
  \<^item> Loops are structural recursions over the list they range over. The few that are not have a termination
    proof: the upcaster chain (\<open>upcast_Apply\<close>, by the versions that are left), the page loop over the log
    (\<open>read_events_pages\<close>, by the events after the cursor), the search for the next run (\<open>next_from\<close>, by the time left
    to its limit), the queue of the dependency closure (\<open>closure_loop\<close>, by the modules not yet seen), and text
    scanners (by the rest of the text). No definition uses fuel.
  \<^item> Concurrency matters in two protocols: the order of the change feed (\<open>kernel/changefeed/order.go\<close>), a step
    relation over the interleavings of transactions, and the claim of a job (\<open>kernel/jobs/store.go\<close>), whose
    update may meet a later state than the one its candidate was chosen in. Elsewhere operations run one after
    the other, as sequences of steps, in any order and from any component.

  Theories.
  \<^item> \<open>Prelude\<close>: 64-bit arithmetic, sums, transactions, keyed lists and the lemmas shared by all.
    \<open>GoText\<close>: \<open>strconv\<close>, \<open>strings\<close> and \<open>fmt\<close> as far as used. \<open>Calendar\<close>, \<open>GoTime\<close>: \<open>time\<close>'s dates in UTC
    and the RFC 3339 text. \<open>JsonTree\<close>, \<open>JsonText\<close>: \<open>encoding/json\<close>'s values and \<open>json.Valid\<close>.
  \<^item> \<open>Money\<close>, \<open>Allocation\<close>, \<open>MoneyText\<close> (\<open>kernel/money\<close>): checked arithmetic, banker's and half-up rounding
    characterised as the nearest integer, the largest-remainder split (parts sum to the amount, each within one
    unit of its share), and the text form as a round trip. \<open>RateStore\<close>, \<open>FxRates\<close> (\<open>fx.go\<close>, \<open>ecb.go\<close>):
    effective-dated rates.
  \<^item> \<open>Tax\<close> (\<open>modules/tax\<close>): line and document tax, rates per jurisdiction, seed packs. Net plus tax is gross;
    document totals are the sums over the lines; other tenants' rates have no influence.
  \<^item> \<open>Authz\<close> (\<open>kernel/authz\<close>): roles, grants with record conditions, and the two gates. The record gate is
    characterised exactly; the core grants survive every administration.
  \<^item> \<open>ChangeFeed\<close>, \<open>FeedOrder\<close> (\<open>kernel/changefeed\<close>): a reader that pages sees each change of its scope once and
    in order; the lock protocol makes a change that becomes visible later get a higher cursor.
  \<^item> \<open>CommandLog\<close>: the contract of a write identified by a command id, as the locale \<open>command_log\<close>.
    \<open>EventStore\<close> interprets it with \<open>Append\<close>; \<open>LedgerPosting\<close> with \<open>post\<close>.
  \<^item> \<open>EventStore\<close> (\<open>kernel/eventstore\<close>): the outcome of an append, the log's invariants, snapshots as folds,
    upcasters.
  \<^item> \<open>MetaSchema\<close>, \<open>MetaEvolve\<close> (\<open>kernel/metadata\<close>: \<open>schema.go\<close>, \<open>overlay.go\<close>, \<open>ddl.go\<close>, \<open>evolve.go\<close>): schema
    validation, overlays that only extend, and the evolution plan, refined to the columns of the target schema.
  \<^item> \<open>Values\<close>, \<open>Crud\<close>, \<open>CrudFacts\<close>, \<open>CrudWrites\<close> (\<open>value.go\<close>, \<open>localized.go\<close>, \<open>crud.go\<close>, \<open>hooks.go\<close>,
    \<open>audit.go\<close>): what is stored conforms to the schema (INV-T5), reads back, is authorized and audited (INV-T2,
    INV-T4) and stays within its tenant (INV-T1); an update leaves every field it does not name alone.
  \<^item> \<open>Ledger\<close>, \<open>LedgerPosting\<close> (\<open>modules/ledger\<close>: \<open>accounts.go\<close>, \<open>periods.go\<close>, \<open>post.go\<close>, and the database
    function of migration 0029 that posts on Postgres): balanced entries (INV-F1), reversal instead of change
    (INV-F2), closed periods (INV-F3), posting once per command (INV-E4), on both databases.
    \<open>LedgerBalances\<close>, \<open>LedgerTrial\<close> (\<open>projection.go\<close>): the materialised balances are the fold of the log in
    every reachable state (INV-E5), and sum to zero per currency.
  \<^item> \<open>Invoicing\<close>, \<open>Receipts\<close>, \<open>InvoicingFacts\<close>, \<open>InvoicingDocs\<close> (\<open>modules/invoicing\<close>): drafts, posting,
    settlement; balanced journals, frozen posted documents, numbers without gaps.

  \<^item> \<open>Cron\<close>, \<open>Jobs\<close>, \<open>JobRunner\<close>, \<open>JobFacts\<close>, \<open>JobLiveness\<close>, \<open>JobTicks\<close> (\<open>kernel/jobs\<close>): cron expressions,
    whose next run is the first minute their text names; the queue, in which a leased job is delivered to one
    worker and every job ends as done or as a dead letter; schedules, which fire once per due instant.
  \<^item> \<open>Capability\<close>, \<open>CapabilityFacts\<close>, \<open>ModuleState\<close>, \<open>BuiltinCatalog\<close> (\<open>kernel/capability\<close>): the dependency solver
    as a least solution, and the enable-state, in which a served module's requirements are always on. The
    catalog the binary ships is spelled out and shown to load, with a closure for every shipped profile.

  Parameters: code that is not in the repository is an argument of the definitions that use it.
  \<^item> The currency table of \<open>golang.org/x/text\<close>, \<open>net/mail\<close>'s address parser, the BCP 47 tag parser, and
    \<open>big.Rat\<close>'s reader of arbitrary text: functions in the environment records (\<open>value_env\<close> and its
    extensions). Where a theorem relies on one, its documented behaviour is a hypothesis.
  \<^item> The SQL drivers (\<open>env_drv\<close>): what a column of a type gives back for a value that was bound to it. The
    hypothesis \<open>driver_ok\<close> says that storable values come back unchanged.
  \<^item> The expression engine (CEL) behind record conditions and computed fields: \<open>env_compiles\<close>, \<open>env_eval\<close>.
  \<^item> Hooks that other code registers on the record engine (\<open>env_hooks\<close>); fresh identifiers (UUIDs), the clock,
    the handlers of jobs, and the dialect of the database.

  Bounds: the page of the log reader is the code's 1000 events, a pass of the job runner is as long as the list
  of identifiers it is given (100 in the code); amounts are 64-bit and every claim about sums
  says what it needs of their size.

  Not modelled: the HTTP gateway, handlers and command line (\<open>kernel/api\<close>, \<open>internal/app\<close>, \<open>cmd\<close>), which
  decode requests and call the modelled operations; database drivers and migrations (\<open>kernel/storage\<close>) and
  outgoing HTTP (\<open>kernel/outbound\<close>), which are I/O; cryptography and sessions (\<open>kernel/secrets\<close>,
  \<open>kernel/identity\<close>, \<open>kernel/oidc\<close>); the WebAssembly host (\<open>kernel/plugins\<close>); YAML decoding of schemas and seed
  packs, JSON methods of money, PDF rendering, and language packs.
\<close>

end
